(* ===== verification/Prelude.thy ===== *)
theory Prelude
  imports Complex_Main "HOL-Library.Signed_Division"
begin

text \<open>
  Shared vocabulary of the development: collections of proof rules, Go's fixed-width integers
  as wrapped \<^typ>\<open>int\<close>, the outcome of a Go call (a value, a returned \<open>error\<close>, or a
  run-time panic), optional pointers, and the string operations of the standard library that the
  controller uses.
\<close>

named_theorems go_int "facts about wrapped machine integers"
named_theorems f64_eval "evaluation of float64 operations on numerals"
named_theorems f64_fin "finite, non-negative float64 results"

section \<open>Go integers\<close>

text \<open>Go's \<open>int\<close> is 64 bits on the supported platforms. An \<open>int\<close> or \<open>int64\<close> value is an
  \<^typ>\<open>int\<close> in range, and every operation that can leave the range wraps explicitly.\<close>

definition wrap64 :: "int \<Rightarrow> int" where
  "wrap64 x = (x + 2 ^ 63) mod 2 ^ 64 - 2 ^ 63"

definition wrap32 :: "int \<Rightarrow> int" where
  "wrap32 x = (x + 2 ^ 31) mod 2 ^ 32 - 2 ^ 31"

lemma wrap64_id [go_int]: "- (2 ^ 63) \<le> x \<Longrightarrow> x < 2 ^ 63 \<Longrightarrow> wrap64 x = x"
  by (simp add: wrap64_def)

lemma wrap32_id [go_int]: "- (2 ^ 31) \<le> x \<Longrightarrow> x < 2 ^ 31 \<Longrightarrow> wrap32 x = x"
  by (simp add: wrap32_def)

lemma wrap64_range: "- (2 ^ 63) \<le> wrap64 x" "wrap64 x < 2 ^ 63"
  by (simp_all add: wrap64_def)

lemma wrap32_range: "- (2 ^ 31) \<le> wrap32 x" "wrap32 x < 2 ^ 31"
  by (simp_all add: wrap32_def)

lemma wrap64_numeral [simp]:
  "(numeral n :: int) < 2 ^ 63 \<Longrightarrow> wrap64 (numeral n) = numeral n"
  "wrap64 0 = 0" "wrap64 1 = 1"
  using wrap64_id [of "numeral n"] by (simp_all add: wrap64_id order_trans [of _ 0])

lemma wrap32_numeral [simp]:
  "(numeral n :: int) < 2 ^ 31 \<Longrightarrow> wrap32 (numeral n) = numeral n"
  "wrap32 0 = 0" "wrap32 1 = 1"
  using wrap32_id [of "numeral n"] by (simp_all add: wrap32_id order_trans [of _ 0])

lemma mult_le_wrap [go_int]:
  fixes a b :: int
  assumes "0 \<le> a" "a \<le> A" "0 \<le> b" "b \<le> B" "A * B < 2 ^ 63"
  shows "wrap64 (a * b) = a * b"
proof -
  have "a * b \<le> A * B" using assms by (intro mult_mono) auto
  moreover have "0 \<le> a * b" using assms by simp
  ultimately show ?thesis using assms(5) by (intro wrap64_id) auto
qed

text \<open>Go's \<open>/\<close> and \<open>%\<close> truncate towards zero: \<open>sdiv\<close> and \<open>smod\<close> of the library.
  On non-negative operands they are \<open>div\<close> and \<open>mod\<close>.\<close>

lemma sdiv_nonneg [go_int]: "0 \<le> (a::int) \<Longrightarrow> 0 < b \<Longrightarrow> a sdiv b = a div b"
  by (cases "a = 0") (simp_all add: signed_divide_int_def)

lemma smod_nonneg [go_int]: "0 \<le> (a::int) \<Longrightarrow> 0 < b \<Longrightarrow> a smod b = a mod b"
  by (cases "a = 0") (simp_all add: signed_modulo_int_def)

section \<open>Outcomes\<close>

text \<open>A Go call returns a value, returns a non-nil \<open>error\<close>, panics, or does not return at all. The
  message of an error is kept as the constant prefix the source gives it.\<close>

datatype fault = Error string | Panic string | Hang

type_synonym 'a res = "fault + 'a"

abbreviation Ok :: "'a \<Rightarrow> 'a res" where "Ok \<equiv> Inr"
abbreviation Fail :: "string \<Rightarrow> 'a res" where "Fail m \<equiv> Inl (Error m)"
abbreviation Crash :: "string \<Rightarrow> 'a res" where "Crash m \<equiv> Inl (Panic m)"

fun is_ok :: "'a res \<Rightarrow> bool" where
  "is_ok (Inr _) = True"
| "is_ok (Inl _) = False"

text \<open>Dereferencing a nil pointer panics.\<close>

definition deref :: "'a option \<Rightarrow> 'a res" where
  "deref p = (case p of None \<Rightarrow> Crash ''nil pointer dereference'' | Some v \<Rightarrow> Ok v)"

text \<open>The value of an optional field, or a default.\<close>

definition get_or :: "'a option \<Rightarrow> 'a \<Rightarrow> 'a" where
  "get_or p d = (case p of None \<Rightarrow> d | Some v \<Rightarrow> v)"

lemma get_or_simps [simp]: "get_or None d = d" "get_or (Some v) d = v"
  by (simp_all add: get_or_def)

section \<open>Strings\<close>

text \<open>A Go string is a sequence of bytes. \<open>strings.Contains\<close>, \<open>HasPrefix\<close>, \<open>HasSuffix\<close>.\<close>

fun has_prefix :: "string \<Rightarrow> string \<Rightarrow> bool" where
  "has_prefix _ [] = True"
| "has_prefix [] (_ # _) = False"
| "has_prefix (c # s) (p # ps) = (c = p \<and> has_prefix s ps)"

definition has_suffix :: "string \<Rightarrow> string \<Rightarrow> bool" where
  "has_suffix s p = has_prefix (rev s) (rev p)"

fun contains :: "string \<Rightarrow> string \<Rightarrow> bool" where
  "contains [] p = (p = [])"
| "contains (c # s) p = (has_prefix (c # s) p \<or> contains s p)"

lemma has_prefix_iff: "has_prefix s p \<longleftrightarrow> (\<exists>t. s = p @ t)"
  by (induction s p rule: has_prefix.induct) auto

lemma has_suffix_iff: "has_suffix s p \<longleftrightarrow> (\<exists>t. s = t @ p)"
proof -
  have "rev s = rev p @ t \<longleftrightarrow> s = rev t @ p" for t
    by (metis rev_append rev_rev_ident)
  then show ?thesis unfolding has_suffix_def has_prefix_iff by (metis rev_rev_ident)
qed

lemma contains_iff: "contains s p \<longleftrightarrow> (\<exists>a b. s = a @ p @ b)"
proof (induction s)
  case Nil then show ?case by auto
next
  case (Cons c s)
  have "(\<exists>a b. c # s = a @ p @ b) \<longleftrightarrow> (\<exists>b. c # s = p @ b) \<or> (\<exists>a b. s = a @ p @ b)"
    by (metis append_Cons append_Nil list.inject neq_Nil_conv)
  then show ?case using Cons by (simp add: has_prefix_iff)
qed

text \<open>\<open>strings.ToLower\<close> on ASCII text.\<close>

definition lower_char :: "char \<Rightarrow> char" where
  "lower_char c = (if 65 \<le> (of_char c :: nat) \<and> (of_char c :: nat) \<le> 90 then char_of ((of_char c :: nat) + 32) else c)"

definition to_lower :: "string \<Rightarrow> string" where
  "to_lower s = map lower_char s"

lemma length_to_lower [simp]: "length (to_lower s) = length s"
  by (simp add: to_lower_def)

lemma lower_char_idem [simp]: "lower_char (lower_char c) = lower_char c"
  by (auto simp: lower_char_def)

lemma to_lower_idem [simp]: "to_lower (to_lower s) = to_lower s"
  by (simp add: to_lower_def)

text \<open>Decimal digits.\<close>

definition digit_char :: "nat \<Rightarrow> char" where
  "digit_char n = char_of (48 + n)"

fun dec_nat :: "nat \<Rightarrow> string" where
  "dec_nat n = (if n < 10 then [digit_char n] else dec_nat (n div 10) @ [digit_char (n mod 10)])"

declare dec_nat.simps [simp del]

text \<open>\<open>strconv.FormatInt(n, 10)\<close>.\<close>

definition FormatInt :: "int \<Rightarrow> string" where
  "FormatInt n = (if n < 0 then CHR ''-'' # dec_nat (nat (- n)) else dec_nat (nat n))"

section \<open>Lists\<close>

lemma find_Some_prefix:
  "find P xs = Some x \<Longrightarrow> \<exists>ys zs. xs = ys @ x # zs \<and> P x \<and> (\<forall>y \<in> set ys. \<not> P y)"
  by (induction xs) (auto split: if_splits intro: exI [of _ "[]"], metis append_Cons set_ConsD)

end
