(* ===== verification/Go_Float.thy ===== *)
theory Go_Float
  imports Prelude "HOL-Library.Log_Nat"
begin

text \<open>
  Go's \<open>float64\<close>: IEEE 754 binary64 with round-to-nearest, ties to even, as the Go specification
  prescribes it. A value is NaN, an infinity, or a finite number given by the rational it denotes;
  every operation computes the exact rational result and rounds it once (\<open>rnd\<close>), with gradual
  underflow below \<open>2 ^ -1022\<close> and overflow to an infinity from \<open>2 ^ 1024\<close> on. The sign of a zero is
  not represented: no operation of the modelled code observes it (a zero divisor is excluded by a
  guard, or is a sum that Go evaluates to \<open>+0\<close>). Conversions to integers follow amd64, where an
  out-of-range value becomes the least integer, and fused multiply-add is not used there.

  The second half proves what the components need of rounding: it is monotone, fixes representable
  numbers, and keeps signs. \<open>f64_eval\<close> evaluates closed terms inside the kernel by \<open>simp\<close>.
\<close>

section \<open>Rounding\<close>

datatype f64 = NaN | PInf | NInf | Fin rat

text \<open>Round to the nearest integer, ties to even.\<close>

definition rne :: "rat \<Rightarrow> int" where
  "rne x = (if x - of_int \<lfloor>x\<rfloor> < 1 / 2 then \<lfloor>x\<rfloor>
     else if 1 / 2 < x - of_int \<lfloor>x\<rfloor> then \<lfloor>x\<rfloor> + 1
     else if even \<lfloor>x\<rfloor> then \<lfloor>x\<rfloor> else \<lfloor>x\<rfloor> + 1)"

text \<open>The binary exponent of a positive rational: \<open>2 powi ilog2 a \<le> a < 2 powi (ilog2 a + 1)\<close>.\<close>

definition ilog2 :: "rat \<Rightarrow> int" where
  "ilog2 a = (case quotient_of a of (n, d) \<Rightarrow>
     if a < 2 powi (bitlen n - bitlen d) then bitlen n - bitlen d - 1 else bitlen n - bitlen d)"

text \<open>The exponent of the unit in the last place: 53 significant bits, none below \<open>2 ^ -1074\<close>.\<close>

definition ulp_exp :: "rat \<Rightarrow> int" where
  "ulp_exp a = max (ilog2 a - 52) (-1074)"

definition round_pos :: "rat \<Rightarrow> rat" where
  "round_pos a = of_int (rne (a / 2 powi ulp_exp a)) * 2 powi ulp_exp a"

definition rq :: "rat \<Rightarrow> rat" where
  "rq q = (if q = 0 then 0 else if q < 0 then - round_pos (- q) else round_pos q)"

definition rnd :: "rat \<Rightarrow> f64" where
  "rnd q = (if 2 ^ 1024 \<le> rq q then PInf else if rq q \<le> - (2 ^ 1024) then NInf else Fin (rq q))"

subsection \<open>rne\<close>

lemma rne_of_int [simp]: "rne (of_int n) = n"
  by (simp add: rne_def)

lemma rne_lower: "\<lfloor>x\<rfloor> \<le> rne x"
  by (simp add: rne_def)

lemma rne_upper: "rne x \<le> \<lfloor>x\<rfloor> + 1"
  by (simp add: rne_def)

lemma rne_mono: assumes "x \<le> y" shows "rne x \<le> rne y"
proof (cases "\<lfloor>x\<rfloor> = \<lfloor>y\<rfloor>")
  case True
  then show ?thesis using assms unfolding rne_def by auto
next
  case False
  then have "\<lfloor>x\<rfloor> + 1 \<le> \<lfloor>y\<rfloor>" using floor_mono [OF assms] by linarith
  then show ?thesis using rne_upper [of x] rne_lower [of y] by linarith
qed

lemma rne_near: "\<bar>of_int (rne x) - x\<bar> \<le> 1 / 2"
proof -
  have "of_int \<lfloor>x\<rfloor> \<le> x" "x < of_int \<lfloor>x\<rfloor> + 1" by linarith+
  then show ?thesis by (auto simp: rne_def)
qed

subsection \<open>ilog2\<close>

lemma powi2_pos [simp]: "0 < (2::rat) powi k"
  by (simp add: zero_less_power_int)

lemma powi2_mono: "j \<le> k \<Longrightarrow> (2::rat) powi j \<le> 2 powi k"
  by (simp add: power_int_increasing)

lemma powi2_strict: "j < k \<Longrightarrow> (2::rat) powi j < 2 powi k"
  by (simp add: power_int_strict_increasing)

lemma powi2_split: "(2::rat) powi (j + k) = 2 powi j * 2 powi k"
  by (simp add: power_int_add)

lemma powi2_diff: "(2::rat) powi (j - k) = 2 powi j / 2 powi k"
  by (simp add: power_int_diff)

lemma powi2_int: "0 \<le> k \<Longrightarrow> (2::rat) powi k = of_int (2 ^ nat k)"
  by (simp add: power_int_def)

lemma bitlen_rat:
  assumes "0 < n" shows "2 powi (bitlen n - 1) \<le> (of_int n :: rat)" "(of_int n :: rat) < 2 powi bitlen n"
proof -
  have b: "1 \<le> bitlen n" using assms bitlen_nonneg [of n] bitlen_eq_zero_iff [of n] by linarith
  have "2 ^ nat (bitlen n - 1) \<le> n" "n < 2 ^ nat (bitlen n)" using bitlen_bounds [OF assms] by auto
  then have "of_int (2 ^ nat (bitlen n - 1)) \<le> (of_int n :: rat)" "(of_int n :: rat) < of_int (2 ^ nat (bitlen n))"
    by (simp_all only: of_int_le_iff of_int_less_iff)
  then show "2 powi (bitlen n - 1) \<le> (of_int n :: rat)" "(of_int n :: rat) < 2 powi bitlen n"
    using b by (simp_all add: powi2_int)
qed

lemma quot_bounds:
  assumes "0 < n" "0 < d"
  shows "2 powi (bitlen n - bitlen d - 1) < (of_int n / of_int d :: rat)"
    and "(of_int n / of_int d :: rat) < 2 powi (bitlen n - bitlen d + 1)"
proof -
  have n: "2 powi (bitlen n - 1) \<le> (of_int n :: rat)" "(of_int n :: rat) < 2 powi bitlen n"
    and d: "2 powi (bitlen d - 1) \<le> (of_int d :: rat)" "(of_int d :: rat) < 2 powi bitlen d"
    using bitlen_rat assms by auto
  have "2 powi (bitlen n - bitlen d - 1) = 2 powi (bitlen n - 1) / (2 powi bitlen d :: rat)"
    by (simp add: powi2_diff [symmetric] algebra_simps)
  also have "\<dots> < of_int n / of_int d"
    using n d assms by (intro frac_less2) auto
  finally show "2 powi (bitlen n - bitlen d - 1) < (of_int n / of_int d :: rat)" .
  have "(of_int n / of_int d :: rat) < 2 powi bitlen n / 2 powi (bitlen d - 1)"
    using n d assms by (intro frac_less) auto
  also have "\<dots> = 2 powi (bitlen n - bitlen d + 1)"
    by (simp add: powi2_diff [symmetric] algebra_simps)
  finally show "(of_int n / of_int d :: rat) < 2 powi (bitlen n - bitlen d + 1)" .
qed

lemma ilog2_bounds:
  assumes "0 < a" shows "2 powi ilog2 a \<le> a" and "a < 2 powi (ilog2 a + 1)"
proof -
  obtain n d where q: "quotient_of a = (n, d)" by (cases "quotient_of a")
  then have a: "a = of_int n / of_int d" and d: "0 < d"
    using quotient_of_div quotient_of_denom_pos by blast+
  with assms have n: "0 < n" by (simp add: zero_less_divide_iff)
  note b = quot_bounds [OF n d, folded a]
  show "2 powi ilog2 a \<le> a" using b q by (auto simp: ilog2_def)
  show "a < 2 powi (ilog2 a + 1)" using b q by (auto simp: ilog2_def)
qed

lemma ilog2_eqI:
  assumes "2 powi e \<le> a" "a < 2 powi (e + 1)" shows "ilog2 a = e"
proof -
  have "0 < a" using assms(1) powi2_pos [of e] by linarith
  note b = ilog2_bounds [OF this]
  have "\<not> ilog2 a < e" using powi2_mono [of "ilog2 a + 1" e] b assms by fastforce
  moreover have "\<not> e < ilog2 a" using powi2_mono [of "e + 1" "ilog2 a"] b assms by fastforce
  ultimately show ?thesis by linarith
qed

lemma ilog2_mono: assumes "0 < a" "a \<le> b" shows "ilog2 a \<le> ilog2 b"
proof (rule ccontr)
  assume "\<not> ilog2 a \<le> ilog2 b"
  then have "(2::rat) powi (ilog2 b + 1) \<le> 2 powi ilog2 a" by (intro powi2_mono) simp
  then show False using ilog2_bounds [of a] ilog2_bounds [of b] assms by linarith
qed

subsection \<open>round_pos\<close>

lemma round_pos_le_pow:
  assumes "0 < a" "a \<le> 2 powi e" "ulp_exp a \<le> e" shows "round_pos a \<le> 2 powi e"
proof -
  let ?k = "ulp_exp a"
  have "a / 2 powi ?k \<le> 2 powi (e - ?k)"
    using assms(2) by (simp add: powi2_diff divide_right_mono)
  also have e: "2 powi (e - ?k) = (of_int (2 ^ nat (e - ?k)) :: rat)"
    using assms(3) by (simp add: powi2_int)
  finally have "rne (a / 2 powi ?k) \<le> 2 ^ nat (e - ?k)"
    using rne_mono rne_of_int by metis
  then have "(of_int (rne (a / 2 powi ?k)) :: rat) \<le> 2 powi (e - ?k)"
    unfolding e by (simp only: of_int_le_iff)
  then have "of_int (rne (a / 2 powi ?k)) * 2 powi ?k \<le> (2 powi (e - ?k) * 2 powi ?k :: rat)"
    by (simp add: mult_right_mono)
  then show ?thesis by (simp add: round_pos_def powi2_split [symmetric])
qed

lemma round_pos_ge_pow:
  assumes "0 < a" "2 powi e \<le> a" "ulp_exp a \<le> e" shows "2 powi e \<le> round_pos a"
proof -
  let ?k = "ulp_exp a"
  have e: "2 powi (e - ?k) = (of_int (2 ^ nat (e - ?k)) :: rat)"
    using assms(3) by (simp add: powi2_int)
  have "2 powi (e - ?k) \<le> a / 2 powi ?k"
    using assms(2) by (simp add: powi2_diff divide_right_mono)
  then have "2 ^ nat (e - ?k) \<le> rne (a / 2 powi ?k)"
    unfolding e using rne_mono rne_of_int by metis
  then have "2 powi (e - ?k) \<le> (of_int (rne (a / 2 powi ?k)) :: rat)"
    unfolding e by (simp only: of_int_le_iff)
  then have "(2 powi (e - ?k) * 2 powi ?k :: rat) \<le> of_int (rne (a / 2 powi ?k)) * 2 powi ?k"
    by (simp add: mult_right_mono)
  then show ?thesis by (simp add: round_pos_def powi2_split [symmetric])
qed

lemma round_pos_nonneg: "0 < a \<Longrightarrow> 0 \<le> round_pos a"
  using rne_mono [of 0 "a / 2 powi ulp_exp a"] rne_of_int [of 0]
  by (simp add: round_pos_def)

lemma round_pos_mono:
  assumes "0 < a" "a \<le> b" shows "round_pos a \<le> round_pos b"
proof (cases "ulp_exp a = ulp_exp b")
  case True
  have "rne (a / 2 powi ulp_exp b) \<le> rne (b / 2 powi ulp_exp b)"
    using assms by (intro rne_mono divide_right_mono) auto
  then show ?thesis using True by (simp add: round_pos_def mult_right_mono)
next
  case False
  have il: "ilog2 a \<le> ilog2 b" using ilog2_mono assms by blast
  with False have lt: "ulp_exp a < ulp_exp b" "ilog2 a < ilog2 b" "ulp_exp b = ilog2 b - 52"
    by (auto simp: ulp_exp_def max_def split: if_splits)
  have b: "0 < b" using assms by linarith
  have "a \<le> 2 powi ilog2 b"
    using ilog2_bounds(2) [OF assms(1)] powi2_mono [of "ilog2 a + 1" "ilog2 b"] lt by fastforce
  then have "round_pos a \<le> 2 powi ilog2 b"
    using assms(1) lt by (intro round_pos_le_pow) auto
  also have "\<dots> \<le> round_pos b"
    using b lt ilog2_bounds(1) [OF b] by (intro round_pos_ge_pow) auto
  finally show ?thesis .
qed

lemma round_pos_exact:
  assumes "0 < a" "a = of_int m * 2 powi k" "m \<le> 2 ^ 53" "-1074 \<le> k"
  shows "round_pos a = a"
proof (cases "m = 2 ^ 53")
  case True
  then have a: "a = 2 powi (53 + k)" using assms(2) by (simp add: powi2_split powi2_int)
  then have il: "ilog2 a = 53 + k" by (intro ilog2_eqI) (auto intro: powi2_strict)
  then have u: "ulp_exp a = k + 1" using assms(4) by (simp add: ulp_exp_def)
  have "a / 2 powi (k + 1) = of_int (2 ^ 52)" unfolding a by (simp add: powi2_diff [symmetric])
  then have "rne (a / 2 powi (k + 1)) = 2 ^ 52" by (metis rne_of_int)
  then have "round_pos a = 2 powi 52 * 2 powi (k + 1)" unfolding round_pos_def u by simp
  also have "\<dots> = a" unfolding a by (simp add: powi2_split [symmetric] add.commute del: power_int_numeral)
  finally show ?thesis .
next
  case False
  with assms have "m < 2 ^ 53" by simp
  then have "(of_int m :: rat) < of_int (2 ^ 53)" by (simp only: of_int_less_iff)
  then have "a < 2 powi 53 * 2 powi k" unfolding assms(2) by simp
  then have "a < 2 powi (53 + k)" by (simp only: powi2_split [symmetric])
  then have "(2::rat) powi ilog2 a < 2 powi (53 + k)" using ilog2_bounds(1) [OF assms(1)] by linarith
  then have "ilog2 a < 53 + k" using powi2_mono [of "53 + k" "ilog2 a"] by fastforce
  then have u: "ulp_exp a \<le> k" using assms(4) by (simp add: ulp_exp_def)
  have "a / 2 powi ulp_exp a = of_int m * 2 powi (k - ulp_exp a)"
    unfolding assms(2) by (simp add: powi2_diff)
  also have "\<dots> = of_int (m * 2 ^ nat (k - ulp_exp a))" using u by (simp add: powi2_int)
  finally have "of_int (rne (a / 2 powi ulp_exp a)) = a / 2 powi ulp_exp a" by (metis rne_of_int)
  then show ?thesis unfolding round_pos_def by simp
qed

lemma round_pos_form:
  assumes "0 < a"
  obtains m k where "round_pos a = of_int m * 2 powi k" "0 \<le> m" "m \<le> 2 ^ 53" "-1074 \<le> k"
proof
  let ?k = "ulp_exp a"
  show "round_pos a = of_int (rne (a / 2 powi ?k)) * 2 powi ?k" by (simp add: round_pos_def)
  show "-1074 \<le> ?k" by (simp add: ulp_exp_def)
  show "0 \<le> rne (a / 2 powi ?k)"
    using assms rne_mono [of 0 "a / 2 powi ?k"] rne_of_int [of 0] by simp
  have "ilog2 a + 1 \<le> ?k + 53" by (simp add: ulp_exp_def)
  then have "a < 2 powi (?k + 53)"
    using ilog2_bounds(2) [OF assms] powi2_mono by (meson less_le_trans)
  then have "a / 2 powi ?k \<le> of_int (2 ^ 53)"
    by (simp add: powi2_split divide_le_eq mult.commute)
  then show "rne (a / 2 powi ?k) \<le> 2 ^ 53" using rne_mono rne_of_int by metis
qed

subsection \<open>rq\<close>

definition rep :: "rat \<Rightarrow> bool" where
  "rep q \<longleftrightarrow> rq q = q"

lemma rq_0 [simp]: "rq 0 = 0"
  by (simp add: rq_def)

lemma rq_minus [simp]: "rq (- q) = - rq q"
  by (simp add: rq_def)

lemma rq_nonneg: "0 \<le> q \<Longrightarrow> 0 \<le> rq q"
  using round_pos_nonneg by (auto simp: rq_def)

lemma rq_nonpos: "q \<le> 0 \<Longrightarrow> rq q \<le> 0"
  using rq_nonneg [of "- q"] by simp

lemma rq_mono: assumes "x \<le> y" shows "rq x \<le> rq y"
proof -
  consider "0 < x" | "x \<le> 0" "0 \<le> y" | "y < 0" by linarith
  then show ?thesis
  proof cases
    case 1 then show ?thesis using assms round_pos_mono [of x y] by (simp add: rq_def)
  next
    case 2 then show ?thesis using rq_nonneg [of y] rq_nonpos [of x] by linarith
  next
    case 3 then show ?thesis using assms round_pos_mono [of "- y" "- x"] by (simp add: rq_def)
  qed
qed

lemma rep_dyadic:
  assumes "q = of_int m * 2 powi k" "\<bar>m\<bar> \<le> 2 ^ 53" "-1074 \<le> k" shows "rep q"
proof -
  consider "q = 0" | "0 < q" | "0 < - q" by linarith
  then show ?thesis
  proof cases
    case 1 then show ?thesis by (simp add: rep_def)
  next
    case 2 then show ?thesis using round_pos_exact [OF 2 assms(1)] assms by (simp add: rep_def rq_def)
  next
    case 3
    have "- q = of_int (- m) * 2 powi k" "- m \<le> 2 ^ 53" using assms by simp_all
    then have "round_pos (- q) = - q" using round_pos_exact [OF 3 _ _ assms(3)] by blast
    then show ?thesis using 3 by (simp add: rep_def rq_def)
  qed
qed

lemma rep_rq [simp]: "rep (rq q)"
proof -
  consider "q = 0" | "0 < q" | "0 < - q" by linarith
  then show ?thesis
  proof cases
    case 1 then show ?thesis by (simp add: rep_def)
  next
    case 2
    then obtain m k where "round_pos q = of_int m * 2 powi k" "0 \<le> m" "m \<le> 2 ^ 53" "-1074 \<le> k"
      by (rule round_pos_form)
    then show ?thesis using 2 rep_dyadic [of "rq q" m k] by (simp add: rq_def)
  next
    case 3
    then obtain m k where f: "round_pos (- q) = of_int m * 2 powi k" "0 \<le> m" "m \<le> 2 ^ 53" "-1074 \<le> k"
      by (rule round_pos_form)
    then have "rq q = of_int (- m) * 2 powi k" using 3 by (simp add: rq_def)
    then show ?thesis using f rep_dyadic [of "rq q" "- m" k] by simp
  qed
qed

lemma rep_of_int: "\<bar>n\<bar> \<le> 2 ^ 53 \<Longrightarrow> rep (of_int n)"
  using rep_dyadic [of "of_int n" n 0] by simp

lemma rep_numeral [simp]: "(numeral n :: int) \<le> 2 ^ 53 \<Longrightarrow> rep (numeral n)"
  using rep_of_int [of "numeral n"] by simp

lemma rep_0 [simp]: "rep 0" and rep_1 [simp]: "rep 1"
  using rep_of_int [of 0] rep_of_int [of 1] by simp_all

lemma rep_minus [simp]: "rep (- q) \<longleftrightarrow> rep q"
  by (simp add: rep_def)

lemma rq_le_rep: "rep r \<Longrightarrow> q \<le> r \<Longrightarrow> rq q \<le> r"
  using rq_mono by (fastforce simp: rep_def)

lemma rq_ge_rep: "rep r \<Longrightarrow> r \<le> q \<Longrightarrow> r \<le> rq q"
  using rq_mono by (fastforce simp: rep_def)

lemma rep_big: "rep (2 ^ 1024)" 
  using rep_dyadic [of "2 ^ 1024" 1 1024] by simp

lemma rnd_rep: "rep q \<Longrightarrow> \<bar>q\<bar> < 2 ^ 1024 \<Longrightarrow> rnd q = Fin q"
  by (simp add: rnd_def rep_def abs_less_iff)

lemma rnd_FinD: "rnd q = Fin r \<Longrightarrow> r = rq q \<and> rep r \<and> \<bar>r\<bar> < 2 ^ 1024"
  by (auto simp: rnd_def split: if_splits)

lemma rnd_not_NaN [simp]: "rnd q \<noteq> NaN"
  by (simp add: rnd_def)

lemma rnd_0 [simp]: "rnd 0 = Fin 0"
  by (rule rnd_rep) simp_all

subsection \<open>Evaluation\<close>

fun nlen :: "num \<Rightarrow> nat" where
  "nlen num.One = 1"
| "nlen (num.Bit0 m) = nlen m + 1"
| "nlen (num.Bit1 m) = nlen m + 1"

lemma bitlen_numeral: "bitlen (numeral m) = int (nlen m)"
proof (induction m)
  case One then show ?case by (simp add: compute_bitlen)
next
  case (Bit0 m)
  have "(numeral (num.Bit0 m) :: int) div 2 = numeral m" by simp
  then show ?case using Bit0 by (subst compute_bitlen) simp
next
  case (Bit1 m)
  have "(numeral (num.Bit1 m) :: int) div 2 = numeral m" by simp
  then show ?case using Bit1 by (subst compute_bitlen) simp
qed

definition rdiv :: "int \<Rightarrow> int \<Rightarrow> int" where
  "rdiv n d = (if 2 * (n mod d) < d then n div d
     else if d < 2 * (n mod d) then n div d + 1
     else if even (n div d) then n div d else n div d + 1)"

definition rq_k :: "int \<Rightarrow> int \<Rightarrow> int \<Rightarrow> rat" where
  "rq_k n d k = (if 0 \<le> k then of_int (rdiv n (d * 2 ^ nat k) * 2 ^ nat k)
     else of_int (rdiv (n * 2 ^ nat (- k)) d) / 2 ^ nat (- k))"

definition rq_l :: "int \<Rightarrow> int \<Rightarrow> int \<Rightarrow> rat" where
  "rq_l n d l = rq_k n d (max (if 0 \<le> l then (if n < d * 2 ^ nat l then l - 53 else l - 52)
      else (if n * 2 ^ nat (- l) < d then l - 53 else l - 52)) (-1074))"

lemma rdiv_rne: assumes "0 < d" shows "rdiv n d = rne (of_int n / of_int d)"
proof -
  have f: "\<lfloor>of_int n / (of_int d :: rat)\<rfloor> = n div d" by (rule floor_divide_of_int_eq)
  have r: "of_int n / (of_int d :: rat) - of_int (n div d) = of_int (n mod d) / of_int d"
    using assms by (simp add: field_simps minus_div_mult_eq_mod [symmetric])
  have "(of_int (n mod d) / of_int d < (1 / 2 :: rat)) = (of_int (2 * (n mod d)) < (of_int d :: rat))"
    using assms by (simp add: field_simps)
  moreover have "((1 / 2 :: rat) < of_int (n mod d) / of_int d) = ((of_int d :: rat) < of_int (2 * (n mod d)))"
    using assms by (simp add: field_simps)
  ultimately show ?thesis unfolding rdiv_def rne_def f r of_int_less_iff by simp
qed

lemma rq_k_eq: assumes "0 < d" "ulp_exp (of_int n / of_int d) = k"
  shows "rq_k n d k = round_pos (of_int n / of_int d)"
proof (cases "0 \<le> k")
  case True
  have "rdiv n (d * 2 ^ nat k) = rne (of_int n / of_int d / 2 powi k)"
    using assms(1) True by (subst rdiv_rne) (simp_all add: powi2_int)
  then show ?thesis using True assms(2) by (simp add: rq_k_def round_pos_def powi2_int)
next
  case False
  then have k: "(2::rat) powi k = 1 / 2 ^ nat (- k)" by (simp add: power_int_def power_inverse inverse_eq_divide power_divide)
  have "rdiv (n * 2 ^ nat (- k)) d = rne (of_int n / of_int d / 2 powi k)"
    unfolding k using assms(1) by (subst rdiv_rne) simp_all
  then show ?thesis using False assms(2) unfolding rq_k_def round_pos_def by (simp add: k)
qed

lemma rq_l_eq: assumes "0 < n" "0 < d" 
  shows "rq_l n d (bitlen n - bitlen d) = rq (of_int n / of_int d)"
proof -
  let ?l = "bitlen n - bitlen d" and ?a = "of_int n / of_int d :: rat"
  have "ilog2 ?a = (if ?a < 2 powi ?l then ?l - 1 else ?l)"
    using quot_bounds [OF assms] by (intro ilog2_eqI) auto
  moreover have "(?a < 2 powi ?l) = (if 0 \<le> ?l then n < d * 2 ^ nat ?l else n * 2 ^ nat (- ?l) < d)"
  proof (cases "0 \<le> ?l")
    case True
    have "(?a < 2 powi ?l) = ((of_int n :: rat) < of_int (d * 2 ^ nat ?l))"
      using True assms by (simp add: powi2_int divide_less_eq mult.commute)
    then show ?thesis using True by (simp only: of_int_less_iff if_True)
  next
    case False
    then have k: "(2::rat) powi ?l = 1 / 2 ^ nat (- ?l)"
      by (simp add: power_int_def power_inverse inverse_eq_divide power_divide)
    have "(?a < 2 powi ?l) = ((of_int (n * 2 ^ nat (- ?l)) :: rat) < of_int d)"
      unfolding k using assms by (simp add: field_simps)
    then show ?thesis using False by (simp only: of_int_less_iff if_False)
  qed
  ultimately have "ulp_exp ?a = max (if 0 \<le> ?l then (if n < d * 2 ^ nat ?l then ?l - 53 else ?l - 52)
      else (if n * 2 ^ nat (- ?l) < d then ?l - 53 else ?l - 52)) (-1074)"
    by (simp add: ulp_exp_def)
  then have "rq_l n d ?l = round_pos ?a" unfolding rq_l_def using rq_k_eq [OF assms(2), of n] by blast
  then show ?thesis using assms by (simp add: rq_def divide_less_0_iff)
qed

lemma rq_frac: "rq (numeral a / numeral b) = rq_l (numeral a) (numeral b) (int (nlen a) - int (nlen b))"
  using rq_l_eq [of "numeral a" "numeral b"] by (simp add: bitlen_numeral)

lemma rq_one_frac: "rq (1 / numeral b) = rq_l 1 (numeral b) (1 - int (nlen b))"
  using rq_frac [of num.One b] by (simp del: numeral_One add: numeral_One [symmetric])

lemma rq_num: "rq (numeral a) = rq_l (numeral a) 1 (int (nlen a) - 1)"
  using rq_l_eq [of "numeral a" 1] bitlen_numeral [of num.One] by (simp add: bitlen_numeral)

lemma rq_1 [simp]: "rq 1 = 1"
  using rep_1 by (simp add: rep_def)

lemma powi2_neg_numeral: "(2::rat) powi (- numeral n) = 1 / 2 ^ numeral n"
  by (simp add: power_int_minus inverse_eq_divide)

lemma ilog2_frac: "ilog2 (numeral a / numeral b) =
  (if (numeral a / numeral b :: rat) < 2 powi (int (nlen a) - int (nlen b))
   then int (nlen a) - int (nlen b) - 1 else int (nlen a) - int (nlen b))"
  using quot_bounds [of "numeral a" "numeral b"]
  by (intro ilog2_eqI) (auto simp: bitlen_numeral)

lemma ilog2_one_frac: "ilog2 (1 / numeral b) =
  (if (1 / numeral b :: rat) < 2 powi (1 - int (nlen b)) then - int (nlen b) else 1 - int (nlen b))"
  using ilog2_frac [of num.One b] by simp

lemma ilog2_num: "ilog2 (numeral a) = int (nlen a) - 1"
  using bitlen_rat [of "numeral a"] by (intro ilog2_eqI) (auto simp: bitlen_numeral)

lemma ilog2_1: "ilog2 1 = 0"
  by (intro ilog2_eqI) auto

declare powi2_neg_numeral [f64_eval] ilog2_frac [f64_eval] ilog2_one_frac [f64_eval]
  ilog2_num [f64_eval] ilog2_1 [f64_eval]

definition over :: "rat \<Rightarrow> f64" where
  "over r = (if 2 ^ 1024 \<le> r then PInf else if r \<le> - (2 ^ 1024) then NInf else Fin r)"

lemma rnd_over:
  "rnd (numeral a / numeral b) = over (rq_l (numeral a) (numeral b) (int (nlen a) - int (nlen b)))"
  "rnd (1 / numeral b) = over (rq_l 1 (numeral b) (1 - int (nlen b)))"
  "rnd (numeral a) = over (rq_l (numeral a) 1 (int (nlen a) - 1))"
  "rnd (- (numeral a / numeral b)) = over (- rq_l (numeral a) (numeral b) (int (nlen a) - int (nlen b)))"
  "rnd (- (1 / numeral b)) = over (- rq_l 1 (numeral b) (1 - int (nlen b)))"
  "rnd (- numeral a) = over (- rq_l (numeral a) 1 (int (nlen a) - 1))"
  "rnd 1 = Fin 1" "rnd (- 1) = Fin (- 1)"
  by (simp_all add: over_def rnd_def rq_frac rq_one_frac rq_num)

declare rnd_over [f64_eval] over_def [f64_eval] rq_l_def [f64_eval] rq_k_def [f64_eval] rdiv_def [f64_eval]

section \<open>Operations\<close>

fun fneg :: "f64 \<Rightarrow> f64" where
  "fneg (Fin x) = Fin (- x)"
| "fneg PInf = NInf"
| "fneg NInf = PInf"
| "fneg NaN = NaN"

fun fadd :: "f64 \<Rightarrow> f64 \<Rightarrow> f64" where
  "fadd (Fin x) (Fin y) = rnd (x + y)"
| "fadd NaN _ = NaN"
| "fadd _ NaN = NaN"
| "fadd PInf NInf = NaN"
| "fadd NInf PInf = NaN"
| "fadd PInf _ = PInf"
| "fadd _ PInf = PInf"
| "fadd NInf _ = NInf"
| "fadd _ NInf = NInf"

definition fsub :: "f64 \<Rightarrow> f64 \<Rightarrow> f64" where
  "fsub a b = fadd a (fneg b)"

text \<open>An infinity with the sign of \<open>s\<close>; \<open>0 * \<infinity>\<close> is NaN.\<close>

definition inf_of :: "rat \<Rightarrow> f64" where
  "inf_of s = (if s = 0 then NaN else if 0 < s then PInf else NInf)"

fun fmul :: "f64 \<Rightarrow> f64 \<Rightarrow> f64" where
  "fmul (Fin x) (Fin y) = rnd (x * y)"
| "fmul NaN _ = NaN"
| "fmul _ NaN = NaN"
| "fmul (Fin x) PInf = inf_of x"
| "fmul (Fin x) NInf = inf_of (- x)"
| "fmul PInf (Fin y) = inf_of y"
| "fmul NInf (Fin y) = inf_of (- y)"
| "fmul PInf PInf = PInf"
| "fmul NInf NInf = PInf"
| "fmul PInf NInf = NInf"
| "fmul NInf PInf = NInf"

fun fdiv :: "f64 \<Rightarrow> f64 \<Rightarrow> f64" where
  "fdiv (Fin x) (Fin y) = (if y = 0 then inf_of x else rnd (x / y))"
| "fdiv NaN _ = NaN"
| "fdiv _ NaN = NaN"
| "fdiv (Fin x) _ = Fin 0"
| "fdiv PInf (Fin y) = (if 0 \<le> y then PInf else NInf)"
| "fdiv NInf (Fin y) = (if 0 \<le> y then NInf else PInf)"
| "fdiv _ _ = NaN"

fun flt :: "f64 \<Rightarrow> f64 \<Rightarrow> bool" where
  "flt (Fin x) (Fin y) = (x < y)"
| "flt NInf (Fin _) = True"
| "flt NInf PInf = True"
| "flt (Fin _) PInf = True"
| "flt _ _ = False"

definition feq :: "f64 \<Rightarrow> f64 \<Rightarrow> bool" where
  "feq a b = (a \<noteq> NaN \<and> a = b)"

definition fle :: "f64 \<Rightarrow> f64 \<Rightarrow> bool" where
  "fle a b = (flt a b \<or> feq a b)"

abbreviation fgt :: "f64 \<Rightarrow> f64 \<Rightarrow> bool" where "fgt a b \<equiv> flt b a"
abbreviation fge :: "f64 \<Rightarrow> f64 \<Rightarrow> bool" where "fge a b \<equiv> fle b a"

text \<open>\<open>float64(n)\<close>; a decimal constant of the source is \<open>lit\<close> of its exact value.\<close>

definition i2f :: "int \<Rightarrow> f64" where
  "i2f n = rnd (of_int n)"

definition lit :: "rat \<Rightarrow> f64" where
  "lit q = rnd q"

text \<open>\<open>int(x)\<close> and \<open>int64(x)\<close> (\<open>CVTTSD2SQ\<close>), \<open>int32(x)\<close> (\<open>CVTTSD2SL\<close>): truncation towards zero; NaN
  and out-of-range values give the least integer.\<close>

definition trunc :: "rat \<Rightarrow> int" where
  "trunc x = (if x < 0 then \<lceil>x\<rceil> else \<lfloor>x\<rfloor>)"

fun f2i64 :: "f64 \<Rightarrow> int" where
  "f2i64 (Fin x) = (if - (2 ^ 63) \<le> trunc x \<and> trunc x < 2 ^ 63 then trunc x else - (2 ^ 63))"
| "f2i64 _ = - (2 ^ 63)"

fun f2i32 :: "f64 \<Rightarrow> int" where
  "f2i32 (Fin x) = (if - (2 ^ 31) \<le> trunc x \<and> trunc x < 2 ^ 31 then trunc x else - (2 ^ 31))"
| "f2i32 _ = - (2 ^ 31)"

text \<open>\<open>math.Abs\<close>, \<open>math.Ceil\<close>, \<open>math.Min\<close>, \<open>math.Max\<close> with their documented special cases.\<close>

fun fabs :: "f64 \<Rightarrow> f64" where
  "fabs (Fin x) = Fin \<bar>x\<bar>"
| "fabs NaN = NaN"
| "fabs _ = PInf"

fun fceil :: "f64 \<Rightarrow> f64" where
  "fceil (Fin x) = Fin (of_int \<lceil>x\<rceil>)"
| "fceil a = a"

definition fmin :: "f64 \<Rightarrow> f64 \<Rightarrow> f64" where
  "fmin a b = (if a = NInf \<or> b = NInf then NInf
     else if a = NaN \<or> b = NaN then NaN else if flt a b then a else b)"

definition fmax :: "f64 \<Rightarrow> f64 \<Rightarrow> f64" where
  "fmax a b = (if a = PInf \<or> b = PInf then PInf
     else if a = NaN \<or> b = NaN then NaN else if flt b a then a else b)"

lemma i2f_eval [f64_eval]: "i2f (numeral n) = rnd (numeral n)" "i2f (- numeral n) = rnd (- numeral n)"
  "i2f 0 = Fin 0" "i2f 1 = Fin 1" "i2f (- 1) = Fin (- 1)"
  by (simp_all add: i2f_def rnd_over)

lemma upto_eval [f64_eval]: "[0..1] = [0, 1 :: int]" "[0..0] = [0 :: int]"
  "[0..numeral n] = 0 # 1 # [2..numeral n :: int]" "[1..numeral n] = 1 # [2..numeral n :: int]" "[1..1] = [1 :: int]"
proof -
  have "[1..numeral n] = 1 # [2..numeral n :: int]" by (subst upto_rec1) simp_all
  moreover have "[0..numeral n] = 0 # [1..numeral n :: int]" by (subst upto_rec1) simp_all
  ultimately show "[0..1] = [0, 1 :: int]" "[0..0] = [0 :: int]"
    "[0..numeral n] = 0 # 1 # [2..numeral n :: int]" "[1..numeral n] = 1 # [2..numeral n :: int]"
    "[1..1] = [1 :: int]" by (simp_all add: upto_rec1)
qed

lemma lit_eval [f64_eval]: "lit (numeral n) = rnd (numeral n)" "lit (numeral m / numeral n) = rnd (numeral m / numeral n)"
  "lit (1 / numeral n) = rnd (1 / numeral n)" "lit 0 = Fin 0" "lit 1 = Fin 1"
  by (simp_all add: lit_def rnd_over)

lemmas f64_op_defs [f64_eval] = fsub_def feq_def fle_def trunc_def fmin_def fmax_def inf_of_def

section \<open>What rounding keeps\<close>

text \<open>A \<open>float64\<close> value proper: a finite one is representable.\<close>

definition wf64 :: "f64 \<Rightarrow> bool" where
  "wf64 a = (case a of Fin q \<Rightarrow> rep q \<and> \<bar>q\<bar> < 2 ^ 1024 | _ \<Rightarrow> True)"

lemma wf64_simps [simp]: "wf64 NaN" "wf64 PInf" "wf64 NInf"
  "wf64 (Fin q) \<longleftrightarrow> rep q \<and> \<bar>q\<bar> < 2 ^ 1024"
  by (simp_all add: wf64_def)

lemma wf64_rnd [simp]: "wf64 (rnd q)"
  by (auto simp: rnd_def abs_less_iff)

lemma wf64_inf_of [simp]: "wf64 (inf_of s)"
  by (simp add: inf_of_def)

lemma wf64_neg [simp]: "wf64 (fneg a) = wf64 a"
  by (cases a) auto

lemma wf64_add [simp]: "wf64 (fadd a b)"
  by (cases a; cases b) auto

lemma wf64_sub [simp]: "wf64 (fsub a b)"
  by (simp add: fsub_def)

lemma wf64_mul [simp]: "wf64 (fmul a b)"
  by (cases a; cases b) auto

lemma wf64_div [simp]: "wf64 (fdiv a b)"
  by (cases a; cases b) auto

lemma wf64_i2f [simp]: "wf64 (i2f n)" and wf64_lit [simp]: "wf64 (lit q)"
  by (simp_all add: i2f_def lit_def)

lemma wf64_minmax: "wf64 a \<Longrightarrow> wf64 b \<Longrightarrow> wf64 (fmin a b)" "wf64 a \<Longrightarrow> wf64 b \<Longrightarrow> wf64 (fmax a b)"
  by (auto simp: fmin_def fmax_def)

lemma rep_pow2 [simp]: "rep (2 ^ n)"
  by (rule rep_dyadic [of _ 1 "int n"]) simp_all

lemma wf64_pow2: "n < 1024 \<Longrightarrow> wf64 (Fin (2 ^ n))"
proof -
  assume "n < 1024"
  then have "(2::rat) ^ n < 2 ^ 1024" by (intro power_strict_increasing) auto
  then show ?thesis by (simp only: wf64_simps rep_pow2 power_abs abs_numeral)
qed

lemma i2f_exact: "\<bar>n\<bar> \<le> 2 ^ 53 \<Longrightarrow> i2f n = Fin (of_int n)"
proof -
  assume a: "\<bar>n\<bar> \<le> 2 ^ 53"
  have "\<bar>of_int n :: rat\<bar> \<le> of_int (2 ^ 53)" using a by (simp only: of_int_abs [symmetric] of_int_le_iff)
  also have "\<dots> < 2 ^ 1024" by simp
  finally show ?thesis unfolding i2f_def using a by (intro rnd_rep rep_of_int)
qed

lemma lit_int [simp]: "lit 0 = Fin 0" "lit 1 = Fin 1"
  "(numeral n :: int) \<le> 2 ^ 53 \<Longrightarrow> lit (numeral n) = Fin (numeral n)"
  using i2f_exact [of 1] i2f_exact [of "numeral n"] by (simp_all add: lit_def i2f_def)

subsection \<open>Order\<close>

lemma feq_simps [simp]: "feq (Fin x) (Fin y) = (x = y)" "feq NaN b = False" "feq a NaN = False"
  by (auto simp: feq_def)

lemma fle_simps [simp]: "fle (Fin x) (Fin y) = (x \<le> y)" "fle NaN b = False" "fle a NaN = False"
  "fle (Fin x) PInf" "fle NInf (Fin x)" "\<not> fle PInf (Fin x)" "\<not> fle (Fin x) NInf" "fle NInf PInf"
  "fle PInf PInf" "fle NInf NInf" "\<not> fle PInf NInf"
  by (auto simp: fle_def feq_def)

lemma flt_irrefl [simp]: "\<not> flt a a"
  by (cases a) auto

lemma flt_asym: "flt a b \<Longrightarrow> \<not> flt b a"
  by (cases a; cases b) auto

lemma flt_fle: "flt a b \<Longrightarrow> fle a b"
  by (simp add: fle_def)

lemma flt_trans: "flt a b \<Longrightarrow> flt b c \<Longrightarrow> flt a c"
  by (cases a; cases b; cases c) auto

lemma fle_trans: "fle a b \<Longrightarrow> fle b c \<Longrightarrow> fle a c"
  by (cases a; cases b; cases c) auto

lemma fle_flt_trans: "fle a b \<Longrightarrow> flt b c \<Longrightarrow> flt a c"
  by (cases a; cases b; cases c) auto

lemma flt_fle_trans: "flt a b \<Longrightarrow> fle b c \<Longrightarrow> flt a c"
  by (cases a; cases b; cases c) auto

lemma not_flt: "a \<noteq> NaN \<Longrightarrow> b \<noteq> NaN \<Longrightarrow> (\<not> flt a b) = fle b a"
  by (cases a; cases b) auto

lemma fle_refl: "a \<noteq> NaN \<Longrightarrow> fle a a"
  by (simp add: fle_def feq_def)

lemma rnd_mono: assumes "x \<le> y" shows "fle (rnd x) (rnd y)"
  using rq_mono [OF assms] by (simp add: rnd_def)

lemma rnd_le_Fin: "x \<le> y \<Longrightarrow> wf64 (Fin y) \<Longrightarrow> fle (rnd x) (Fin y)"
  using rnd_mono [of x y] by (simp add: rnd_rep)

lemma rnd_ge_Fin: "x \<le> y \<Longrightarrow> wf64 (Fin x) \<Longrightarrow> fle (Fin x) (rnd y)"
  using rnd_mono [of x y] by (simp add: rnd_rep)

lemma rnd_unit: assumes "0 \<le> x" "x \<le> 1" obtains y where "rnd x = Fin y" "0 \<le> y" "y \<le> 1"
proof -
  have "fle (Fin 0) (rnd x)" "fle (rnd x) (Fin 1)"
    using assms by (auto intro: rnd_le_Fin rnd_ge_Fin)
  then show thesis using that by (cases "rnd x") auto
qed

subsection \<open>Non-negative results\<close>

fun fnn :: "f64 \<Rightarrow> bool" where
  "fnn (Fin q) = (0 \<le> q)"
| "fnn PInf = True"
| "fnn _ = False"

lemma fnn_iff: "fnn a \<longleftrightarrow> fle (Fin 0) a"
  by (cases a) auto

lemma fnn_not_NaN: "fnn a \<Longrightarrow> a \<noteq> NaN"
  by auto

lemma fnn_rnd [f64_fin]: "0 \<le> q \<Longrightarrow> fnn (rnd q)"
  using rnd_mono [of 0 q] by (simp add: fnn_iff)

lemma fnn_add [f64_fin]: "fnn a \<Longrightarrow> fnn b \<Longrightarrow> fnn (fadd a b)"
  by (cases a; cases b) (auto intro: fnn_rnd)

lemma fnn_i2f [f64_fin]: "0 \<le> n \<Longrightarrow> fnn (i2f n)"
  by (simp add: i2f_def fnn_rnd)

lemma fnn_mul [f64_fin]: "fnn (Fin x) \<Longrightarrow> fnn (Fin y) \<Longrightarrow> fnn (fmul (Fin x) (Fin y))"
  by (simp add: fnn_rnd)

lemma fnn_div [f64_fin]: "fnn a \<Longrightarrow> 0 < d \<Longrightarrow> fnn (fdiv a (Fin d))"
  by (cases a) (auto intro: fnn_rnd)

lemma fnn_div_nonneg: "fnn a \<Longrightarrow> fnn b \<Longrightarrow> fdiv a b \<noteq> NaN \<Longrightarrow> fnn (fdiv a b)"
  by (cases a; cases b) (auto intro: fnn_rnd simp: inf_of_def)

lemma fnn_max [f64_fin]: "fnn a \<Longrightarrow> b \<noteq> NaN \<Longrightarrow> fnn (fmax a b)"
  by (cases a; cases b) (auto simp: fmax_def)

lemma fadd_ge: "wf64 a \<Longrightarrow> a \<noteq> NaN \<Longrightarrow> fnn b \<Longrightarrow> fadd a b = NaN \<or> fle a (fadd a b)"
  by (cases a; cases b) (auto intro: rnd_ge_Fin)

lemma fmin_le: "a \<noteq> NaN \<Longrightarrow> b \<noteq> NaN \<Longrightarrow> fle (fmin a b) a \<and> fle (fmin a b) b"
  by (cases a; cases b) (auto simp: fmin_def)

lemma fmax_ge: "a \<noteq> NaN \<Longrightarrow> b \<noteq> NaN \<Longrightarrow> fle a (fmax a b) \<and> fle b (fmax a b)"
  by (cases a; cases b) (auto simp: fmax_def)

lemma f2i64_range: "- (2 ^ 63) \<le> f2i64 a" "f2i64 a < 2 ^ 63"
  by (cases a; simp)+

lemma f2i32_range: "- (2 ^ 31) \<le> f2i32 a" "f2i32 a < 2 ^ 31"
  by (cases a; simp)+

lemma f2i64_of_int: "- (2 ^ 63) \<le> n \<Longrightarrow> n < 2 ^ 63 \<Longrightarrow> f2i64 (Fin (of_int n)) = n"
  by (simp add: trunc_def)

text \<open>The familiar \<open>0.1 + 0.2 = 0.30000000000000004\<close>.\<close>

lemma tenth_plus_fifth: "fadd (lit (1/10)) (lit (2/10)) = Fin (5404319552844596 / 18014398509481984)"
  by (simp add: f64_eval)

text \<open>A quotient of representable numbers below one does not round up to one.\<close>

lemma rep_below_pow:
  assumes "rep x" "0 < x" "x < 2 powi e" shows "x \<le> 2 powi e - 2 powi (e - 53)"
proof (cases "2 powi (e - 1) \<le> x")
  case False
  have "(2::rat) powi e = 2 powi (e - 1) + 2 powi (e - 1)"
    using powi2_split [of "e - 1" 1] by simp
  moreover have "(2::rat) powi (e - 53) \<le> 2 powi (e - 1)" by (intro powi2_mono) simp
  ultimately show ?thesis using False by linarith
next
  case True
  have "ilog2 x = e - 1" using True assms(3) by (intro ilog2_eqI) auto
  then have k: "e - 53 \<le> ulp_exp x" "ulp_exp x = e - 53 \<or> ulp_exp x = -1074"
    by (auto simp: ulp_exp_def)
  let ?k = "ulp_exp x" and ?m = "rne (x / 2 powi ulp_exp x)"
  have x: "x = of_int ?m * 2 powi ?k"
    using assms(1,2) by (simp add: rep_def rq_def round_pos_def)
  show ?thesis
  proof (cases "?k \<le> e")
    case True
    have "(of_int ?m :: rat) < 2 powi (e - ?k)"
      using assms(3) by (subst (asm) x) (simp add: powi2_diff less_divide_eq)
    then have "?m < 2 ^ nat (e - ?k)"
      using True by (simp only: powi2_int diff_ge_0_iff_ge of_int_less_iff)
    then have "?m \<le> 2 ^ nat (e - ?k) - 1" by simp
    then have "(of_int ?m :: rat) \<le> of_int (2 ^ nat (e - ?k) - 1)" by (simp only: of_int_le_iff)
    also have "\<dots> = 2 powi (e - ?k) - 1" using True by (simp add: powi2_int)
    finally have "x \<le> (2 powi (e - ?k) - 1) * 2 powi ?k"
      by (subst x) (simp add: mult_right_mono)
    also have "\<dots> = 2 powi e - 2 powi ?k" by (simp add: left_diff_distrib powi2_split [symmetric])
    also have "\<dots> \<le> 2 powi e - 2 powi (e - 53)" using powi2_mono [OF k(1)] by simp
    finally show ?thesis .
  next
    case False
    then have "(2::rat) powi e \<le> 2 powi ?k" by (intro powi2_mono) simp
    then have "of_int ?m * (2 powi ?k :: rat) < 1 * 2 powi ?k" using x assms(3) by linarith
    then have "(of_int ?m :: rat) < 1" by (simp only: mult_less_cancel_right_pos powi2_pos)
    moreover have "(0::rat) < of_int ?m" using x assms(2) by (metis powi2_pos zero_less_mult_pos2)
    ultimately show ?thesis by simp
  qed
qed

lemma rep_gap:
  assumes "rep x" "rep y" "0 < x" "x < y" shows "x \<le> y * (1 - 1 / 2 ^ 53)"
proof -
  let ?e = "ilog2 y"
  have y: "2 powi ?e \<le> y" "y < 2 powi (?e + 1)" using ilog2_bounds [of y] assms by auto
  have p: "(2::rat) powi (?e + 1 - 53) = 2 * 2 powi ?e / 2 ^ 53" "(2::rat) powi (?e - 53) = 2 powi ?e / 2 ^ 53"
    by (simp_all add: powi2_diff powi2_split)
  show ?thesis
  proof (cases "x < 2 powi ?e")
    case True
    then have "x \<le> 2 powi ?e - 2 powi (?e - 53)" using rep_below_pow assms by blast
    also have "\<dots> = 2 powi ?e * (1 - 1 / 2 ^ 53)" unfolding p by (simp add: algebra_simps)
    also have "\<dots> \<le> y * (1 - 1 / 2 ^ 53)" using y by (intro mult_right_mono) auto
    finally show ?thesis .
  next
    case False
    let ?d = "y - x"
    have ex: "ilog2 x = ?e" "ilog2 y = ?e" using False assms(4) y by (auto intro!: ilog2_eqI)
    then have u: "ulp_exp x = ulp_exp y" "?e - 52 \<le> ulp_exp y" by (simp_all add: ulp_exp_def)
    let ?k = "ulp_exp y" and ?m = "rne (x / 2 powi ulp_exp y)" and ?n = "rne (y / 2 powi ulp_exp y)"
    have xy: "x = of_int ?m * 2 powi ?k" "y = of_int ?n * 2 powi ?k"
      using assms u(1) by (simp_all add: rep_def rq_def round_pos_def)
    have "of_int ?m * (2 powi ?k :: rat) < of_int ?n * 2 powi ?k" using xy assms(4) by linarith
    then have "?m < ?n" by simp
    then have "(of_int ?m + 1 :: rat) \<le> of_int ?n" by (metis of_int_1 of_int_add of_int_le_iff zless_imp_add1_zle)
    then have "(of_int ?m + 1) * (2 powi ?k :: rat) \<le> of_int ?n * 2 powi ?k" by (intro mult_right_mono) auto
    then have "x + 2 powi ?k \<le> y" using xy by (simp add: algebra_simps)
    moreover have "(2::rat) powi (?e - 52) \<le> 2 powi ?k" using u(2) by (rule powi2_mono)
    moreover have "(2::rat) powi (?e - 52) = 2 powi (?e + 1) / 2 ^ 53" by (simp add: powi2_diff powi2_split)
    ultimately show ?thesis using y by (simp add: algebra_simps)
  qed
qed

lemma rnd_ratio_below_one:
  assumes "rep x" "rep y" "0 \<le> x" "x < y"
  obtains r where "rnd (x / y) = Fin r" "0 \<le> r" "r \<le> 1 - 1 / 2 ^ 53"
proof -
  have r: "rep (1 - 1 / 2 ^ 53)"
    by (rule rep_dyadic [of _ "2 ^ 53 - 1" "-53"]) (simp_all add: power_int_minus field_simps)
  have "x / y \<le> 1 - 1 / 2 ^ 53"
    using rep_gap [of x y] assms by (cases "x = 0") (auto simp: divide_le_eq mult.commute)
  then have "fle (rnd (x / y)) (Fin (1 - 1 / 2 ^ 53))"
    using r by (intro rnd_le_Fin) auto
  moreover have "fnn (rnd (x / y))" using assms by (intro fnn_rnd) auto
  ultimately show thesis using that by (cases "rnd (x / y)") auto
qed

end
