(* ===== verification/Api_Types.thy ===== *)
theory Api_Types
  imports Go_Float
begin

text \<open>
  The custom resources of \<open>api/v1alpha1\<close>: the specification and status of a
  \<open>ResourceClaimAutoscaler\<close>. A pointer field is an \<^typ>\<open>'a option\<close>; \<open>int32\<close> and \<open>int\<close> fields are
  \<^typ>\<open>int\<close>; a Go map that is only looked up is a map, one that is ranged over is an association list
  in iteration order (Go's order is unspecified, so statements hold for every order). A
  \<open>resource.Quantity\<close> is seen only through the two accessors the controller calls.
\<close>

section \<open>Specification\<close>

record quantity =
  AsApproximateFloat64 :: f64
  QValue :: int

record service_reference =
  ServiceName :: string
  ServiceNamespace :: string

record resource_reference =
  DeviceClassName :: string

record arch_params =
  ParametersB :: f64
  Layers :: int
  KVHeads :: int
  HiddenSize :: int
  QueryHeads :: int
  Precision :: int

record hint =
  ModelID :: string
  ModelParams :: "arch_params option"
  BatchSize :: int
  MaxNumSeqs :: int
  MaxNumBatchedTokens :: "int option"
  PrefixCacheHitRate :: f64
  KVCacheSpeedup :: f64
  GPUName :: string

record target_selector =
  ServiceRef :: service_reference
  ResourceRef :: resource_reference
  Hint :: "hint option"

record target_latency =
  EndToEndLatencyMilliseconds :: "int option"
  TimeToFirstTokenLatencyMilliseconds :: "int option"
  InterTokenLatencyMilliseconds :: "int option"
  ToleranceMilliseconds :: "int option"

record scaling_trigger =
  PeriodSeconds :: int

record scaling_behavior =
  Trigger :: scaling_trigger
  GracePeriodSeconds :: int
  SingleTimeScalingLimit :: "int option"

record behavior =
  ScaleUp :: "scaling_behavior option"
  ScaleDown :: "scaling_behavior option"

record capacity_constraint =
  CapMin :: "quantity option"
  CapMax :: "quantity option"
  CapStep :: "quantity option"

record constraints =
  MinReplicas :: "int option"
  MaxReplicas :: "int option"
  MinCountPerReplica :: "int option"
  MaxCountPerReplica :: "int option"
  CapacityPerCount :: "(string \<rightharpoonup> capacity_constraint) option"

record rca_spec =
  Target :: target_selector
  TargetLatency :: "target_latency option"
  SpecBehavior :: "behavior option"
  SpecConstraints :: "constraints option"
  MinTargetUtilization :: "(string \<times> quantity) list"

section \<open>Status\<close>

text \<open>Times are nanoseconds (the server keeps whole seconds); a zero or absent \<open>metav1.Time\<close> is \<^const>\<open>None\<close>.\<close>

record owner_reference =
  OwnerAPIVersion :: string
  OwnerKind :: string
  OwnerName :: string
  OwnerUID :: string
  OwnerController :: "bool option"
  OwnerBlockDeletion :: "bool option"

record discovery_results =
  Owner :: "owner_reference option"
  ResourceClaim :: string

record latency_estimation =
  EstTTFT :: "int option"
  EstITL :: "int option"
  EstTTFTOffset :: "int option"
  EstITLOffset :: "int option"

record scaling_results =
  LastEstimationTime :: "int option"
  LastEstimation :: "latency_estimation option"

record scaling_status =
  LastApplyTime :: "int option"
  OldestClaimTemplate :: string
  DesiredClaimTemplate :: string
  DesiredReplicas :: "int option"
  ReadyReplicas :: "int option"
  AvailableReplicas :: "int option"

record condition =
  CondType :: string
  CondStatus :: bool
  CondReason :: string
  CondMessage :: string
  CondGeneration :: int

record rca_status =
  Discovery :: "discovery_results option"
  ScalingResults :: "scaling_results option"
  ScalingStatus :: "scaling_status option"
  Conditions :: "condition list"

record autoscaler =
  AsAPIVersion :: string
  AsKind :: string
  AsName :: string
  AsNamespace :: string
  AsUID :: string
  AsGeneration :: int
  AsFinalizers :: "string list"
  AsDeletion :: "int option"
  Spec :: rca_spec
  Status :: rca_status

text \<open>The zero value \<open>&ScalingStatus{}\<close> and \<open>&ScalingResults{}\<close>.\<close>

definition empty_scaling_status :: scaling_status where
  "empty_scaling_status = \<lparr>LastApplyTime = None, OldestClaimTemplate = [], DesiredClaimTemplate = [],
     DesiredReplicas = None, ReadyReplicas = None, AvailableReplicas = None\<rparr>"

definition empty_scaling_results :: scaling_results where
  "empty_scaling_results = \<lparr>LastEstimationTime = None, LastEstimation = None\<rparr>"

text \<open>\<open>len(m) == 0\<close> and the two-value lookup of a capacity map that may be nil.\<close>

definition capacity_of :: "constraints option \<Rightarrow> string \<Rightarrow> capacity_constraint option" where
  "capacity_of c k = (case c of None \<Rightarrow> None | Some c \<Rightarrow>
     (case CapacityPerCount c of None \<Rightarrow> None | Some m \<Rightarrow> m k))"

text \<open>What the CRD schema's validation markers guarantee of an admitted specification.\<close>

definition valid_hint :: "hint \<Rightarrow> bool" where
  "valid_hint h \<longleftrightarrow> 1 \<le> BatchSize h \<and> BatchSize h < 2 ^ 31 \<and> 1 \<le> MaxNumSeqs h \<and> MaxNumSeqs h < 2 ^ 31 \<and>
     (\<forall>n. MaxNumBatchedTokens h = Some n \<longrightarrow> 1 \<le> n)"

end
