(* ===== verification/Queue_Analyzer.thy ===== *)
theory Queue_Analyzer
  imports Api_Types
begin

text \<open>
  \<open>internal/optimizer/queue.go\<close> and \<open>latency.go\<close>: the latency record and the M/M/c queue analysis
  that adds waiting time to it. \<open>math.Pow\<close> at natural exponents follows the standard library's
  repeated squaring of the fraction and exponent; at other exponents it goes through \<open>math.Exp\<close> and
  \<open>math.Log\<close>, whose kernels are platform assembly, and is the parameter \<open>pf\<close>.
\<close>

section \<open>math.Pow\<close>

definition frexp :: "rat \<Rightarrow> rat \<times> int" where
  "frexp q = (if q = 0 then (0, 0) else (q / 2 powi (ilog2 \<bar>q\<bar> + 1), ilog2 \<bar>q\<bar> + 1))"

fun ldexp :: "f64 \<Rightarrow> int \<Rightarrow> f64" where
  "ldexp (Fin m) e = rnd (m * 2 powi e)"
| "ldexp a _ = a"

fun pow_loop :: "nat \<Rightarrow> f64 \<Rightarrow> int \<Rightarrow> f64 \<Rightarrow> int \<Rightarrow> f64 \<times> int" where
  "pow_loop i a1 ae x1 xe =
     (if i = 0 then (a1, ae)
      else if xe < -4096 \<or> 4096 < xe then (a1, ae + xe)
      else if flt (fmul x1 x1) (Fin (1 / 2))
        then pow_loop (i div 2) (if odd i then fmul a1 x1 else a1) (if odd i then ae + xe else ae)
               (fadd (fmul x1 x1) (fmul x1 x1)) (2 * xe - 1)
        else pow_loop (i div 2) (if odd i then fmul a1 x1 else a1) (if odd i then ae + xe else ae)
               (fmul x1 x1) (2 * xe))"

declare pow_loop.simps [simp del]

fun pow_nat :: "f64 \<Rightarrow> nat \<Rightarrow> f64" where
  "pow_nat x n =
     (if n = 0 \<or> x = Fin 1 then Fin 1
      else if n = 1 then x
      else case x of
        NaN \<Rightarrow> NaN
      | PInf \<Rightarrow> PInf
      | NInf \<Rightarrow> (if odd n then NInf else PInf)
      | Fin q \<Rightarrow>
          (if q = 0 then Fin 0
           else case frexp q of (f, e) \<Rightarrow> case pow_loop n (Fin 1) 0 (Fin f) e of (a, k) \<Rightarrow> ldexp a k))"

declare pow_nat.simps [simp del]

definition math_Pow :: "(f64 \<Rightarrow> f64 \<Rightarrow> f64) \<Rightarrow> f64 \<Rightarrow> f64 \<Rightarrow> f64" where
  "math_Pow pf x y = (case y of
     Fin q \<Rightarrow> (if 0 \<le> q \<and> q < 2 ^ 63 \<and> q = of_int \<lfloor>q\<rfloor> then pow_nat x (nat \<lfloor>q\<rfloor>) else pf x y)
   | _ \<Rightarrow> pf x y)"

section \<open>Latency results\<close>

record latency_result =
  ITL :: f64
  Prefill :: f64
  Decode :: f64
  KVCacheReduction :: f64
  TTFT :: f64
  E2E :: f64
  Utilization :: f64
  ServiceTimeSeconds :: f64
  QueueWaitTime :: f64
  AvgQueueLength :: f64
  AvgSystemLength :: f64
  ProbabilityOfWait :: f64
  AllocationImpact :: f64

text \<open>\<open>LatencyResult{}\<close>, every field zero.\<close>

definition zero_latency :: latency_result where
  "zero_latency = \<lparr>ITL = Fin 0, Prefill = Fin 0, Decode = Fin 0, KVCacheReduction = Fin 0,
     TTFT = Fin 0, E2E = Fin 0, Utilization = Fin 0, ServiceTimeSeconds = Fin 0,
     QueueWaitTime = Fin 0, AvgQueueLength = Fin 0, AvgSystemLength = Fin 0,
     ProbabilityOfWait = Fin 0, AllocationImpact = Fin 0\<rparr>"

definition ServiceTime :: "latency_result \<Rightarrow> f64" where
  "ServiceTime r = fadd (Prefill r) (Decode r)"

section \<open>Queue analysis\<close>

record queue_analyzer =
  qa_arrivalRate :: f64

definition NewQueueAnalyzer :: "f64 \<Rightarrow> queue_analyzer" where
  "NewQueueAnalyzer rate = \<lparr>qa_arrivalRate = rate\<rparr>"

definition factorial :: "int \<Rightarrow> f64" where
  "factorial n = (if n \<le> 1 then Fin 1 else foldl (\<lambda>r i. fmul r (i2f i)) (Fin 1) [2..n])"

definition erlang_sum :: "(f64 \<Rightarrow> f64 \<Rightarrow> f64) \<Rightarrow> f64 \<Rightarrow> int \<Rightarrow> f64" where
  "erlang_sum pf rho n =
     foldl (\<lambda>s k. fadd s (fdiv (math_Pow pf rho (i2f k)) (factorial k))) (Fin 0) [0..n - 1]"

definition erlangC :: "(f64 \<Rightarrow> f64 \<Rightarrow> f64) \<Rightarrow> f64 \<Rightarrow> f64 \<Rightarrow> f64" where
  "erlangC pf rho c =
     (if fge rho c then Fin 1
      else let numerator = fdiv (math_Pow pf rho c) (factorial (f2i64 c));
               denominator = fadd (erlang_sum pf rho (f2i64 c))
                               (fdiv numerator (fsub (Fin 1) (fdiv rho c)))
           in fdiv numerator denominator)"

text \<open>The error carries the utilization, the arrival rate and the capacity of its message. The
  record is updated in place, so it is returned in both cases.\<close>

datatype queue_error = Unstable f64 f64 f64

definition AddQueuingResults ::
  "(f64 \<Rightarrow> f64 \<Rightarrow> f64) \<Rightarrow> queue_analyzer \<Rightarrow> int \<Rightarrow> latency_result \<Rightarrow> queue_error option \<times> latency_result" where
  "AddQueuingResults pf a numServers results =
     (let serviceTimeSeconds = fdiv (ServiceTime results) (Fin 1000);
          results = results\<lparr>ServiceTimeSeconds := serviceTimeSeconds\<rparr>;
          serviceRate = fdiv (Fin 1) serviceTimeSeconds;
          totalServiceRate = fmul (i2f numServers) serviceRate;
          utilization = fdiv (qa_arrivalRate a) totalServiceRate
      in if fge utilization (Fin 1)
         then (Some (Unstable utilization (qa_arrivalRate a) totalServiceRate), results)
         else
           let results = results\<lparr>Utilization := utilization\<rparr>;
               rho = fdiv (qa_arrivalRate a) serviceRate;
               probabilityOfWait = erlangC pf rho (i2f numServers);
               queueWaitSeconds =
                 fmul (fdiv probabilityOfWait (fsub serviceRate (qa_arrivalRate a))) serviceTimeSeconds;
               queueWaitTime = (if fgt probabilityOfWait (Fin 0)
                                then fmul queueWaitSeconds (Fin 1000) else Fin 0);
               results = (if fgt probabilityOfWait (Fin 0)
                  then results\<lparr>AvgQueueLength := fmul (qa_arrivalRate a) queueWaitSeconds,
                     AvgSystemLength := fmul (qa_arrivalRate a) (fadd queueWaitSeconds serviceTimeSeconds),
                     ProbabilityOfWait := probabilityOfWait\<rparr>
                  else results);
               results = results\<lparr>TTFT := Prefill results\<rparr>
           in (None, results\<lparr>E2E := fadd (fadd queueWaitTime (TTFT results)) (Decode results)\<rparr>))"

section \<open>math.Pow at natural exponents\<close>

lemma frexp_pos:
  assumes "0 < q" "frexp q = (f, e)"
  shows "q = f * 2 powi e" "0 \<le> f" "f \<le> 1" "e = ilog2 q + 1"
proof -
  have e: "e = ilog2 q + 1" "f = q / 2 powi (ilog2 q + 1)" using assms by (auto simp: frexp_def)
  then show "q = f * 2 powi e" "0 \<le> f" "e = ilog2 q + 1" using assms(1) by auto
  show "f \<le> 1" using ilog2_bounds(2) [OF assms(1)] e by (simp add: divide_le_eq)
qed

lemma unit_mul:
  assumes "0 \<le> x" "x \<le> 1" "0 \<le> y" "y \<le> 1"
  obtains z where "fmul (Fin x) (Fin y) = Fin z" "0 \<le> z" "z \<le> 1"
proof -
  have "0 \<le> x * y" "x * y \<le> 1" using assms by (auto simp: mult_le_one)
  then show thesis using rnd_unit that by (metis fmul.simps(1))
qed

lemma pow_loop_unit:
  "0 \<le> a \<Longrightarrow> a \<le> 1 \<Longrightarrow> 0 \<le> x \<Longrightarrow> x \<le> 1 \<Longrightarrow> xe \<le> E \<Longrightarrow> 0 \<le> E \<Longrightarrow>
   \<exists>a' k. pow_loop i (Fin a) ae (Fin x) xe = (Fin a', k) \<and> 0 \<le> a' \<and> a' \<le> 1 \<and> k \<le> ae + int i * E"
proof (induction i arbitrary: a ae x xe E rule: less_induct)
  case (less i)
  obtain z where z: "fmul (Fin x) (Fin x) = Fin z" "0 \<le> z" "z \<le> 1" using unit_mul less.prems by metis
  obtain b where b: "fmul (Fin a) (Fin x) = Fin b" "0 \<le> b" "b \<le> 1" using unit_mul less.prems by metis
  let ?a = "if odd i then b else a" and ?ae = "if odd i then ae + xe else ae"
  have a: "(if odd i then fmul (Fin a) (Fin x) else Fin a) = Fin ?a" "0 \<le> ?a" "?a \<le> 1"
    using b less.prems by auto
  consider "i = 0" | "0 < i" "xe < -4096 \<or> 4096 < xe" | "0 < i" "\<not> (xe < -4096 \<or> 4096 < xe)" by blast
  then show ?case
  proof cases
    case 1 then show ?thesis using less.prems by (simp add: pow_loop.simps)
  next
    case 2
    have "E \<le> int i * E" using 2 less.prems by (simp add: mult_le_cancel_right1)
    then show ?thesis using 2 less.prems by (auto simp: pow_loop.simps)
  next
    case 3
    obtain x' xe' where s: "pow_loop i (Fin a) ae (Fin x) xe = pow_loop (i div 2) (Fin ?a) ?ae (Fin x') xe'"
      "0 \<le> x'" "x' \<le> 1" "xe' \<le> 2 * E"
    proof (cases "z < 1 / 2")
      case True
      then obtain y where "fadd (Fin z) (Fin z) = Fin y" "0 \<le> y" "y \<le> 1"
        using z rnd_unit [of "z + z"] by auto
      then show thesis using 3 True less.prems z a
        by (intro that [of y "2 * xe - 1"]) (auto simp: pow_loop.simps [of i])
    next
      case False
      then show thesis using 3 less.prems z a
        by (intro that [of z "2 * xe"]) (auto simp: pow_loop.simps [of i])
    qed
    have "i div 2 < i" "0 \<le> 2 * E" using 3 less.prems by auto
    then obtain a' k where r: "pow_loop (i div 2) (Fin ?a) ?ae (Fin x') xe' = (Fin a', k)"
      "0 \<le> a'" "a' \<le> 1" "k \<le> ?ae + int (i div 2) * (2 * E)"
      using less.IH [OF _ a(2,3) s(2,3,4)] by blast
    have "?ae + int (i div 2) * (2 * E) \<le> ae + int i * E"
    proof (cases "odd i")
      case True
      then have "int i = 2 * int (i div 2) + 1" by presburger
      then have "int i * E = int (i div 2) * (2 * E) + E" by (simp add: algebra_simps)
      then show ?thesis using True less.prems by simp
    next
      case False
      then have "int i = 2 * int (i div 2)" by presburger
      then have "int i * E = int (i div 2) * (2 * E)" by (metis mult.assoc mult.commute)
      then show ?thesis using False by (simp only: if_False order_refl)
    qed
    then show ?thesis using s(1) r by auto
  qed
qed

lemma pow_nat_bound:
  assumes "0 \<le> q" "q < 2 ^ b" "rep q" "0 < b" "b * n < 1024"
  obtains p where "pow_nat (Fin q) n = Fin p" "0 \<le> p" "p \<le> 2 ^ (b * n)"
proof (cases "n = 0 \<or> q = 1 \<or> q = 0")
  case True
  then consider "n = 0 \<or> q = 1" | "n \<noteq> 0" "q = 0" by blast
  then show thesis
  proof cases
    case 1 then show thesis using that [of 1] by (simp add: pow_nat.simps)
  next
    case 2 then show thesis using that [of 0] by (simp add: pow_nat.simps)
  qed
next
  case False
  then have q: "0 < q" "n \<noteq> 0" "q \<noteq> 1" using assms(1) by auto
  obtain f e where fe: "frexp q = (f, e)" by (cases "frexp q")
  note f = frexp_pos [OF q(1) fe]
  have "(2::rat) powi ilog2 q < 2 powi int b"
    using ilog2_bounds(1) [OF q(1)] assms(2) by simp
  then have "e \<le> int b" using f(4) powi2_mono [of "int b" "ilog2 q"] by fastforce
  then obtain a k where l: "pow_loop n (Fin 1) 0 (Fin f) e = (Fin a, k)" "0 \<le> a" "a \<le> 1" "k \<le> int n * int b"
    using pow_loop_unit [of 1 f e "int b" n 0, OF _ _ f(2,3)] by auto
  have "a * 2 powi k \<le> 1 * 2 powi (int n * int b)"
    using l by (intro mult_mono powi2_mono) auto
  then have up: "a * 2 powi k \<le> 2 ^ (b * n)" by (simp add: power_int_def nat_mult_distrib mult.commute)
  have wf: "wf64 (Fin (2 ^ (b * n)))" by (rule wf64_pow2 [OF assms(5)])
  have "pow_nat (Fin q) n = (if n = 1 then Fin q else rnd (a * 2 powi k))"
    using q fe l by (simp add: pow_nat.simps)
  moreover have "fle (rnd (a * 2 powi k)) (Fin (2 ^ (b * n)))" using rnd_le_Fin [OF up wf] .
  moreover have "fnn (rnd (a * 2 powi k))" using l by (intro fnn_rnd) auto
  ultimately consider "n = 1" "pow_nat (Fin q) n = Fin q"
    | p where "pow_nat (Fin q) n = Fin p" "0 \<le> p" "p \<le> 2 ^ (b * n)"
    by (cases "rnd (a * 2 powi k)") (simp_all split: if_splits)
  then show thesis
  proof cases
    case 1 then show thesis using that assms(1,2) by simp
  next
    case 2 then show thesis using that by blast
  qed
qed

section \<open>Factorial and the Erlang terms\<close>

lemma factorial_step: "1 \<le> n \<Longrightarrow> factorial (n + 1) = fmul (factorial n) (i2f (n + 1))"
proof (cases "n = 1")
  case True then show ?thesis by (simp add: factorial_def)
next
  case False
  assume "1 \<le> n"
  with False have "[2..n + 1] = [2..n] @ [n + 1]" by (intro upto_rec2 [of 2 "n + 1", simplified]) 
  then show ?thesis using False \<open>1 \<le> n\<close> by (simp add: factorial_def)
qed

lemma rnd_between:
  assumes "wf64 (Fin l)" "wf64 (Fin u)" "l \<le> q" "q \<le> u"
  obtains r where "rnd q = Fin r" "l \<le> r" "r \<le> u" "rep r"
proof -
  have "fle (Fin l) (rnd q)" "fle (rnd q) (Fin u)" using assms rnd_ge_Fin rnd_le_Fin by blast+
  then show thesis using that wf64_rnd [of q] by (cases "rnd q") auto
qed

lemma factorial_bound: "n \<le> 127 \<Longrightarrow> \<exists>f. factorial (int n + 1) = Fin f \<and> 1 \<le> f \<and> f \<le> 2 ^ (7 * n)"
proof (induction n)
  case 0 then show ?case by (simp add: factorial_def)
next
  case (Suc n)
  then obtain f where f: "factorial (int n + 1) = Fin f" "1 \<le> f" "f \<le> 2 ^ (7 * n)" by auto
  have i: "i2f (int n + 2) = Fin (of_nat n + 2)" using i2f_exact [of "int n + 2"] Suc.prems by simp
  have n: "(of_nat n + 2 :: rat) \<le> 2 ^ 7" using Suc.prems by (simp add: of_nat_le_iff [of n 126, symmetric] del: of_nat_le_iff)
  have "f * (of_nat n + 2) \<le> 2 ^ (7 * n) * 2 ^ 7" using f n by (intro mult_mono) auto
  then have u: "f * (of_nat n + 2) \<le> 2 ^ (7 * Suc n)" by (simp add: power_add mult.commute)
  have "1 * 1 \<le> f * (of_nat n + 2)" using f by (intro mult_mono) auto
  then obtain r where "rnd (f * (of_nat n + 2)) = Fin r" "1 \<le> r" "r \<le> 2 ^ (7 * Suc n)"
    using rnd_between [of 1 "2 ^ (7 * Suc n)"] u wf64_pow2 [of "7 * Suc n"] Suc.prems by auto
  moreover have "factorial (int (Suc n) + 1) = fmul (factorial (int n + 1)) (i2f (int n + 2))"
    using factorial_step [of "int n + 1"] by (simp add: algebra_simps)
  ultimately show ?case using f(1) i by simp
qed

lemma math_Pow_nat: "k \<le> 2 ^ 53 \<Longrightarrow> math_Pow pf x (i2f (int k)) = pow_nat x k"
proof -
  assume k: "k \<le> 2 ^ 53"
  have "(of_nat k :: rat) \<le> of_nat (2 ^ 53)" using k by (simp only: of_nat_le_iff)
  then have "(of_nat k :: rat) < 2 ^ 63" by simp
  then show ?thesis using i2f_exact [of "int k"] k by (simp add: math_Pow_def)
qed

text \<open>One summand: finite, non-negative, at most \<open>2 ^ 896\<close>.\<close>

lemma erlang_term:
  assumes "0 \<le> q" "q < 2 ^ 7" "rep q" "k \<le> 127"
  obtains p where "fdiv (pow_nat (Fin q) k) (factorial (int k)) = Fin p" "0 \<le> p" "p \<le> 2 ^ 896" "rep p"
    "k = 0 \<Longrightarrow> p = 1"
proof -
  obtain b where b: "pow_nat (Fin q) k = Fin b" "0 \<le> b" "b \<le> 2 ^ (7 * k)"
    using pow_nat_bound [OF assms(1,2,3), of k] assms(4) by auto
  have fx: "\<exists>f. factorial (int k) = Fin f \<and> 1 \<le> f"
  proof (cases "k = 0")
    case True then show ?thesis by (simp add: factorial_def)
  next
    case False
    then have "k - 1 \<le> 127" "int (k - 1) + 1 = int k" using assms(4) by auto
    then show ?thesis using factorial_bound [of "k - 1"] by metis
  qed
  then obtain f where f: "factorial (int k) = Fin f" "1 \<le> f" by blast
  have "b / f \<le> b / 1" using b f by (intro divide_left_mono) auto
  also have "\<dots> \<le> 2 ^ 896"
    using b(3) power_increasing [of "7 * k" 896 "2::rat"] assms(4) by simp
  finally have "b / f \<le> 2 ^ 896" .
  then obtain r where r: "rnd (b / f) = Fin r" "0 \<le> r" "r \<le> 2 ^ 896" "rep r"
    using rnd_between [of 0 "2 ^ 896" "b / f"] wf64_pow2 [of 896] b f by auto
  have "k = 0 \<Longrightarrow> r = 1"
  proof -
    assume "k = 0"
    then have "b = 1" "f = 1" using b(1) f(1) by (simp_all add: pow_nat.simps factorial_def)
    then show "r = 1" using r(1) rnd_rep [of 1] by simp
  qed
  then show thesis using that [of r] r b f by auto
qed

lemma erlang_sum_Suc:
  "erlang_sum pf rho (int n + 1) = fadd (erlang_sum pf rho (int n))
     (fdiv (math_Pow pf rho (i2f (int n))) (factorial (int n)))"
proof -
  have "[0..int n] = [0..int n - 1] @ [int n]" by (rule upto_rec2) simp
  then show ?thesis by (simp add: erlang_sum_def)
qed

lemma wf64_mult_pow2: "\<bar>m\<bar> \<le> 2 ^ 53 \<Longrightarrow> n \<le> 970 \<Longrightarrow> wf64 (Fin (of_int m * 2 ^ n))"
proof -
  assume m: "\<bar>m\<bar> \<le> 2 ^ 53" and n: "n \<le> 970"
  have "rep (of_int m * 2 ^ n)" by (rule rep_dyadic [of _ m "int n"]) (use m in simp_all)
  moreover have "\<bar>of_int m * (2::rat) ^ n\<bar> \<le> 2 ^ 53 * 2 ^ 970"
    unfolding abs_mult using m n power_increasing [of n 970 "2::rat"]
    by (intro mult_mono) (simp_all flip: of_int_abs)
  ultimately show ?thesis by simp
qed

lemma erlang_sum_bound:
  assumes "0 \<le> q" "q < 2 ^ 7" "rep q" "n \<le> 127"
  shows "\<exists>s. erlang_sum pf (Fin q) (int n + 1) = Fin s \<and> rep s \<and> 1 \<le> s \<and> s \<le> of_int (int n + 1) * 2 ^ 896"
  using assms(4)
proof (induction n)
  case 0
  obtain p where p: "fdiv (pow_nat (Fin q) 0) (factorial 0) = Fin p" "p = 1"
    using erlang_term [OF assms(1-3), of 0] by auto
  have "erlang_sum pf (Fin q) (int 0 + 1) = fadd (erlang_sum pf (Fin q) (int 0)) (fdiv (math_Pow pf (Fin q) (i2f 0)) (factorial 0))"
    using erlang_sum_Suc [of pf "Fin q" 0] by simp
  also have "\<dots> = rnd 1" using p math_Pow_nat [of 0] by (simp add: erlang_sum_def)
  finally show ?case using rnd_rep [of 1] by (intro exI [of _ 1]) simp
next
  case (Suc n)
  then obtain s where s: "erlang_sum pf (Fin q) (int n + 1) = Fin s" "1 \<le> s" "s \<le> of_int (int n + 1) * 2 ^ 896" by auto
  obtain p where p: "fdiv (pow_nat (Fin q) (Suc n)) (factorial (int (Suc n))) = Fin p" "0 \<le> p" "p \<le> 2 ^ 896"
    using erlang_term [OF assms(1-3) Suc.prems] by auto
  let ?u = "of_int (int (Suc n) + 1) * 2 ^ 896 :: rat"
  have u: "s + p \<le> ?u" using s p by (simp add: algebra_simps)
  have "wf64 (Fin ?u)" using Suc.prems by (intro wf64_mult_pow2) auto
  then obtain r where r: "rnd (s + p) = Fin r" "1 \<le> r" "r \<le> ?u" "rep r"
    using rnd_between [of 1 ?u "s + p"] u s(2) p(2) by auto
  have "erlang_sum pf (Fin q) (int (Suc n) + 1) = fadd (Fin s) (Fin p)"
    using erlang_sum_Suc [of pf "Fin q" "Suc n"] s(1) p(1) math_Pow_nat [of "Suc n"] Suc.prems by (simp add: add.commute)
  then show ?case using r by auto
qed

text \<open>The Erlang C value of a stable system of up to 127 servers is a finite probability.\<close>

lemma erlangC_unit:
  assumes "0 \<le> q" "q < of_nat n" "rep q" "n \<le> 127"
  shows "\<exists>p. erlangC pf (Fin q) (i2f (int n)) = Fin p \<and> 0 \<le> p \<and> p \<le> 1"
proof -
  have n: "0 < n" using assms by (cases n) auto
  have c: "i2f (int n) = Fin (of_nat n)" using i2f_exact [of "int n"] assms(4) by simp
  have nq: "(of_nat n :: rat) \<le> 127" using assms(4) of_nat_le_iff [of n 127, where 'a = rat] by simp
  then have q: "q < 2 ^ 7" using assms(2) by simp
  have fi: "f2i64 (i2f (int n)) = int n" using f2i64_of_int [of "int n"] c assms(4) by simp
  obtain p where p: "fdiv (pow_nat (Fin q) n) (factorial (int n)) = Fin p" "0 \<le> p" "p \<le> 2 ^ 896" "rep p"
    using erlang_term [OF assms(1) q assms(3), of n] assms(4) by auto
  have n1: "n - 1 \<le> 127" "int (n - 1) + 1 = int n" using n assms(4) by auto
  obtain s where s: "erlang_sum pf (Fin q) (int n) = Fin s" "1 \<le> s" "s \<le> of_int (int n) * 2 ^ 896"
    using erlang_sum_bound [OF assms(1) q assms(3) n1(1), of pf] unfolding n1(2) by blast
  have "rep (of_nat n)" using rep_of_int [of "int n"] assms(4) by simp
  then obtain x where x: "rnd (q / of_nat n) = Fin x" "0 \<le> x" "x \<le> 1 - 1 / 2 ^ 53"
    using rnd_ratio_below_one [of q "of_nat n"] assms by blast
  have w53: "wf64 (Fin (1 / 2 ^ 53))" using rep_dyadic [of "1 / 2 ^ 53" 1 "-53"] by (simp add: power_int_minus inverse_eq_divide)
  then obtain y where y: "rnd (1 - x) = Fin y" "1 / 2 ^ 53 \<le> y" "y \<le> 1" "rep y"
    using rnd_between [of "1 / 2 ^ 53" 1 "1 - x"] x by auto
  have yp: "0 < y" using y(2) by (rule less_le_trans [rotated]) simp
  have "p / y \<le> 2 ^ 896 / (1 / 2 ^ 53)" using p y by (intro frac_le) auto
  moreover have "p \<le> p / y" using p y yp by (simp add: pos_le_divide_eq mult_left_le)
  ultimately obtain z where z: "rnd (p / y) = Fin z" "p \<le> z" "z \<le> 2 ^ 949"
    using rnd_between [of p "2 ^ 949" "p / y"] wf64_pow2 [of 949] p wf64_div [of "pow_nat (Fin q) n" "factorial (int n)"] by auto
  have "of_int (int n) * (2::rat) ^ 896 \<le> 2 ^ 7 * 2 ^ 896" using nq by (intro mult_right_mono) auto
  then have sz: "s + z \<le> 2 ^ 950" using s(3) z(3) by simp
  have wz: "wf64 (Fin z)" using wf64_rnd [of "p / y"] z(1) by simp
  obtain d where d: "rnd (s + z) = Fin d" "1 \<le> d"
    using rnd_between [of 1 "2 ^ 950" "s + z"] sz wf64_pow2 [of 950] s(2) z(2) p(2) by auto
  have "z \<le> d" using rnd_ge_Fin [of z "s + z"] wz s(2) d(1) by simp
  then have "0 \<le> p / d" "p / d \<le> 1" using p(2) z(2) d(2) by (auto simp: divide_le_eq)
  then obtain r where "rnd (p / d) = Fin r" "0 \<le> r" "r \<le> 1" by (rule rnd_unit)
  moreover have "erlangC pf (Fin q) (i2f (int n)) = rnd (p / d)"
    using assms(2) n yp d p x y z s fi c math_Pow_nat [of n pf "Fin q"] assms(4)
    by (simp add: erlangC_def fsub_def Let_def)
  ultimately show ?thesis by simp
qed

section \<open>What the analysis guarantees\<close>

text \<open>The stability test decides the outcome: an error is returned exactly at a utilization of at
  least one, and then only the service time has been written.\<close>

lemma AddQueuingResults_error_iff:
  "(fst (AddQueuingResults pf a n r) \<noteq> None) =
   fge (fdiv (qa_arrivalRate a) (fmul (i2f n) (fdiv (Fin 1) (fdiv (ServiceTime r) (Fin 1000))))) (Fin 1)"
  by (simp add: AddQueuingResults_def Let_def)

lemma AddQueuingResults_keeps:
  "Prefill (snd (AddQueuingResults pf a n r)) = Prefill r"
  "Decode (snd (AddQueuingResults pf a n r)) = Decode r"
  "ITL (snd (AddQueuingResults pf a n r)) = ITL r"
  "QueueWaitTime (snd (AddQueuingResults pf a n r)) = QueueWaitTime r"
  "AllocationImpact (snd (AddQueuingResults pf a n r)) = AllocationImpact r"
  by (simp_all add: AddQueuingResults_def Let_def)

lemma AddQueuingResults_ttft:
  "fst (AddQueuingResults pf a n r) = None \<Longrightarrow> TTFT (snd (AddQueuingResults pf a n r)) = Prefill r"
  by (auto simp: AddQueuingResults_def Let_def split: if_splits)

lemma AddQueuingResults_utilization:
  "AddQueuingResults pf a n r = (None, r') \<Longrightarrow>
   Utilization r' = fdiv (qa_arrivalRate a) (fmul (i2f n) (fdiv (Fin 1) (fdiv (ServiceTime r) (Fin 1000)))) \<and>
   \<not> fge (Utilization r') (Fin 1)"
  by (auto simp: AddQueuingResults_def Let_def split: if_splits)

lemma fle_inf: "a \<noteq> NaN \<Longrightarrow> fle a PInf" "a \<noteq> NaN \<Longrightarrow> fle NInf a"
  by (cases a; simp)+

lemma fadd_mono_left: "fle a b \<Longrightarrow> c \<noteq> NaN \<Longrightarrow> fadd a c \<noteq> NaN \<Longrightarrow> fadd b c \<noteq> NaN \<Longrightarrow> fle (fadd a c) (fadd b c)"
  by (cases "a = b"; cases a; cases b; cases c) (auto intro: rnd_mono fle_refl fle_inf)

lemma fnn_wait:
  assumes "fnn P" "fgt P (Fin 0)" "P \<noteq> PInf" "fnn d" "0 < s"
  shows "fnn (fmul (fmul (fdiv P d) (Fin s)) (Fin 1000))"
proof -
  have "fnn (fdiv P d)" using assms by (cases P; cases d) (auto simp: inf_of_def intro: fnn_rnd)
  then have "fnn (fmul (fdiv P d) (Fin s))"
    using assms(5) by (cases "fdiv P d") (auto simp: inf_of_def intro: fnn_rnd)
  then show ?thesis by (cases "fmul (fdiv P d) (Fin s)") (auto simp: inf_of_def intro: fnn_rnd)
qed

text \<open>On one replica with a finite, positive service time the wait is non-negative, so the
  end-to-end estimate is at least the service time.\<close>

lemma server_load:
  assumes "0 < l" "rep l" "0 < s"
    and st: "\<not> fge (fdiv (Fin l) (fmul (i2f 1) (fdiv (Fin 1) (Fin s)))) (Fin 1)"
  shows "\<exists>x. fdiv (Fin l) (fdiv (Fin 1) (Fin s)) = Fin x \<and> 0 \<le> x \<and> x < 1 \<and> rep x \<and> fnn (fsub (fdiv (Fin 1) (Fin s)) (Fin l))"
proof -
  have one: "i2f 1 = Fin 1" using i2f_exact [of 1] by simp
  show ?thesis
  proof (cases "fdiv (Fin 1) (Fin s)")
    case (Fin t)
    have t: "rep t" "0 \<le> t" "wf64 (Fin t)"
      using Fin wf64_div [of "Fin 1" "Fin s"] fnn_div [of "Fin 1" s] assms(3) by auto
    have tm: "fmul (i2f 1) (Fin t) = Fin t" using one t by (simp add: rnd_rep)
    have "l < t"
    proof (rule ccontr)
      assume n: "\<not> l < t"
      then have "t \<noteq> 0 \<Longrightarrow> 1 \<le> l / t" using t by (simp add: le_divide_eq)
      then show False using st Fin tm assms(1) rnd_ge_Fin [of 1 "l / t"]
        by (cases "t = 0") (simp_all add: inf_of_def fle_def)
    qed
    moreover obtain x where x: "rnd (l / t) = Fin x" "0 \<le> x" "x \<le> 1 - 1 / 2 ^ 53"
      using rnd_ratio_below_one [OF assms(2) t(1)] assms(1) \<open>l < t\<close> by auto
    moreover have "rep x" using wf64_rnd [of "l / t"] x(1) by simp
    moreover have "x < 1" using x(3) by (rule le_less_trans) simp
    ultimately show ?thesis using Fin t assms(1) by (auto simp: fsub_def intro: fnn_rnd)
  next
    case PInf then show ?thesis by (simp add: fsub_def)
  next
    case NInf then show ?thesis using fnn_div [of "Fin 1" s] assms(3) by simp
  next
    case NaN then show ?thesis using fnn_div [of "Fin 1" s] assms(3) by simp
  qed
qed

lemma single_server_P:
  assumes "0 < l" "rep l" "0 < s"
    and st: "\<not> fge (fdiv (Fin l) (fmul (i2f 1) (fdiv (Fin 1) (Fin s)))) (Fin 1)"
  shows "fnn (erlangC pf (fdiv (Fin l) (fdiv (Fin 1) (Fin s))) (i2f 1)) \<and>
    erlangC pf (fdiv (Fin l) (fdiv (Fin 1) (Fin s))) (i2f 1) \<noteq> PInf \<and>
    fle (erlangC pf (fdiv (Fin l) (fdiv (Fin 1) (Fin s))) (i2f 1)) (Fin 1) \<and>
    fnn (fsub (fdiv (Fin 1) (Fin s)) (Fin l))"
proof -
  obtain x where x: "fdiv (Fin l) (fdiv (Fin 1) (Fin s)) = Fin x" "0 \<le> x" "x < 1" "rep x" "fnn (fsub (fdiv (Fin 1) (Fin s)) (Fin l))"
    using server_load [OF assms] by blast
  obtain q where "erlangC pf (Fin x) (i2f 1) = Fin q" "0 \<le> q" "q \<le> 1" using erlangC_unit [of x 1 pf] x(2-4) by auto
  then show ?thesis using x(1,5) by simp
qed

lemma fadd_ge_right: "fnn q \<Longrightarrow> wf64 (Fin p) \<Longrightarrow> fle (Fin p) (fadd q (Fin p))"
  by (cases q) (auto intro: rnd_ge_Fin)

lemma single_server_wait:
  assumes a: "qa_arrivalRate a = Fin l" "0 < l" "rep l"
    and pd: "Prefill r = Fin p" "wf64 (Prefill r)" "Decode r = Fin d" "0 \<le> p" 
    and s: "fdiv (ServiceTime r) (Fin 1000) = Fin s" "0 < s"
    and ok: "AddQueuingResults pf a 1 r = (None, r')"
  shows "fle (ServiceTime r) (E2E r')"
proof -
  let ?rate = "fdiv (Fin 1) (Fin s)" and ?P = "erlangC pf (fdiv (Fin l) (fdiv (Fin 1) (Fin s))) (i2f 1)"
  let ?q = "if fgt ?P (Fin 0) then fmul (fmul (fdiv ?P (fsub ?rate (Fin l))) (Fin s)) (Fin 1000) else Fin 0"
  have r: "E2E r' = fadd (fadd ?q (Fin p)) (Fin d)"
    and st: "\<not> fge (fdiv (Fin l) (fmul (i2f 1) ?rate)) (Fin 1)"
    using ok s(1) a(1) pd(1,3) by (auto simp: AddQueuingResults_def Let_def split: if_splits)
  have "fnn ?q" using single_server_P [OF a(2,3) s(2) st] s(2) fnn_wait [of ?P "fsub ?rate (Fin l)" s] by simp
  then have q: "fle (Fin p) (fadd ?q (Fin p))" using fadd_ge_right pd(1,2) by metis
  have nn: "fadd (fadd ?q (Fin p)) (Fin d) \<noteq> NaN" using q by (cases "fadd ?q (Fin p)") auto
  have "ServiceTime r = fadd (Fin p) (Fin d)" using pd by (simp add: ServiceTime_def)
  then show ?thesis unfolding r using fadd_mono_left [OF q _ _ nn] by simp
qed

text \<open>With more than one replica the wait is computed as for a single server: an arrival rate
  between one server's rate and the total rate gives a negative wait. (Here: service time one second,
  1.5 requests per second, two replicas.)\<close>

lemmas erlang_eval = erlangC_def erlang_sum_def math_Pow_def factorial_def pow_nat.simps pow_loop.simps
  frexp_def f64_eval

lemma erlangC_example:
  "erlangC pf (Fin (3 / 2)) (Fin 2) = Fin (5790342378047781 / 36028797018963968)"
  by (simp add: erlang_eval)

lemma multi_server_negative_wait:
  "\<exists>r r'. ServiceTime r = Fin 1000 \<and>
     AddQueuingResults pf (NewQueueAnalyzer (Fin (3 / 2))) 2 r = (None, r') \<and> flt (E2E r') (ServiceTime r)"
  by (rule exI [of _ "zero_latency\<lparr>Prefill := Fin 500, Decode := Fin 500\<rparr>"])
     (simp add: AddQueuingResults_def NewQueueAnalyzer_def ServiceTime_def zero_latency_def
       Let_def erlangC_example f64_eval)

text \<open>For one server the Erlang C probability is the load itself; \<open>erlangC\<close> gives \<open>rho * (1 - rho)\<close>.\<close>

lemma erlangC_half_load: "erlangC pf (Fin (1 / 2)) (i2f 1) = Fin (1 / 4)"
  by (simp add: erlang_eval)

end
