(* ===== verification/Resource_Estimator.thy ===== *)
theory Resource_Estimator
  imports Queue_Analyzer
begin

text \<open>
  \<open>internal/optimizer/resource_estimator.go\<close>: the GPU and model registries, the inference of model
  parameters from a model name, the estimate of thread occupancy and memory per GPU, and its tuning
  from measured metrics. The two registries are Go maps ranged over in unspecified order; the
  iteration order is an argument (\<open>gs\<close>, \<open>ms\<close>), a rearrangement of the literal.
\<close>

section \<open>Registries\<close>

record gpu_specs =
  GpuName :: string
  VRAM :: int
  MemoryBW :: f64
  PeakTFLOPS :: f64
  PeakFP8 :: f64
  MaxThreads :: int
  UnderprovisionContentionImpact :: f64
  OverprovisionSpeedUp :: f64

definition MinMaxThreads :: int where "MinMaxThreads = 30720"
definition MinHiddenSize :: int where "MinHiddenSize = 128"
definition MaxMemoryOverheadFactor :: f64 where "MaxMemoryOverheadFactor = lit (13 / 10)"

definition a100_spec :: gpu_specs where
  "a100_spec = \<lparr>GpuName = ''A100 80GB'', VRAM = 80, MemoryBW = lit 2, PeakTFLOPS = lit 312,
     PeakFP8 = lit 0, MaxThreads = 108544, UnderprovisionContentionImpact = lit (3 / 10),
     OverprovisionSpeedUp = lit (2 / 10)\<rparr>"

definition gpuRegistry :: "(string \<times> gpu_specs) list" where
  "gpuRegistry =
    [(''h200'', \<lparr>GpuName = ''H200 SXM'', VRAM = 141, MemoryBW = lit (48 / 10), PeakTFLOPS = lit 989,
       PeakFP8 = lit 3958, MaxThreads = 249856, UnderprovisionContentionImpact = lit (8 / 100),
       OverprovisionSpeedUp = lit (5 / 10)\<rparr>),
     (''h100'', \<lparr>GpuName = ''H100 SXM'', VRAM = 80, MemoryBW = lit (335 / 100), PeakTFLOPS = lit 989,
       PeakFP8 = lit 1979, MaxThreads = 184320, UnderprovisionContentionImpact = lit (15 / 100),
       OverprovisionSpeedUp = lit (35 / 100)\<rparr>),
     (''a100'', a100_spec),
     (''l4'', \<lparr>GpuName = ''L4 Tensor Core'', VRAM = 24, MemoryBW = lit (3 / 10), PeakTFLOPS = lit 121,
       PeakFP8 = lit 242, MaxThreads = 30720, UnderprovisionContentionImpact = lit (7 / 10),
       OverprovisionSpeedUp = lit (5 / 100)\<rparr>)]"

definition arch :: "f64 \<Rightarrow> int \<Rightarrow> int \<Rightarrow> int \<Rightarrow> int \<Rightarrow> int \<Rightarrow> arch_params" where
  "arch b l kv h q p = \<lparr>ParametersB = b, Layers = l, KVHeads = kv, HiddenSize = h, QueryHeads = q, Precision = p\<rparr>"

definition modelFamilyMap :: "(string \<times> arch_params) list" where
  "modelFamilyMap =
    [(''llama-3-8b'', arch (lit 8) 32 8 4096 32 2),
     (''llama-3.1-8b'', arch (lit 8) 32 8 4096 32 2),
     (''llama-3-70b'', arch (lit 70) 80 8 8192 64 2),
     (''mistral-nemo'', arch (lit 12) 40 8 5120 32 2),
     (''phi-3-mini'', arch (lit (38 / 10)) 32 8 3072 32 2),
     (''phi-3-medium'', arch (lit 14) 40 8 5120 40 2)]"

text \<open>The first entry, in iteration order, whose key occurs in the lower-cased name.\<close>

definition lookup_sub :: "(string \<times> 'a) list \<Rightarrow> string \<Rightarrow> 'a option" where
  "lookup_sub es name = map_option snd (find (\<lambda>(key, _). contains name key) es)"

definition getGPUSpecs :: "(string \<times> gpu_specs) list \<Rightarrow> string \<Rightarrow> bool \<times> gpu_specs" where
  "getGPUSpecs gs name =
     (case lookup_sub gs (to_lower name) of
        Some spec \<Rightarrow> (True, spec)
      | None \<Rightarrow> (False, a100_spec))"

section \<open>Parameters from the model name\<close>

definition is_digit :: "char \<Rightarrow> bool" where
  "is_digit c = (48 \<le> (of_char c :: nat) \<and> (of_char c :: nat) \<le> 57)"

text \<open>A match of \<open>(\d+\.?\d*)b\<close> that starts at the head: its digits before and after the point.\<close>

definition match_b_here :: "string \<Rightarrow> (string \<times> string) option" where
  "match_b_here s =
     (let d1 = takeWhile is_digit s; r1 = dropWhile is_digit s in
      if d1 = [] then None
      else if has_prefix r1 ''b'' then Some (d1, [])
      else if has_prefix r1 ''.'' then
        (let d2 = takeWhile is_digit (tl r1); r2 = dropWhile is_digit (tl r1) in
         if has_prefix r2 ''b'' then Some (d1, d2) else None)
      else None)"

text \<open>\<open>FindStringSubmatch\<close>: the leftmost match.\<close>

fun match_b :: "string \<Rightarrow> (string \<times> string) option" where
  "match_b [] = None"
| "match_b (c # s) = (case match_b_here (c # s) of Some m \<Rightarrow> Some m | None \<Rightarrow> match_b s)"

text \<open>\<open>strconv.ParseFloat\<close> on digits with an optional point: the correctly rounded decimal, with
  \<open>ErrRange\<close> when it overflows.\<close>

definition digits_val :: "string \<Rightarrow> int" where
  "digits_val = foldl (\<lambda>n c. 10 * n + int (of_char c - 48)) 0"

definition parse_decimal :: "string \<Rightarrow> string \<Rightarrow> f64 option" where
  "parse_decimal d1 d2 =
     (case lit (of_int (digits_val (d1 @ d2)) / 10 ^ length d2) of PInf \<Rightarrow> None | v \<Rightarrow> Some v)"

definition extractParams :: "string \<Rightarrow> bool \<times> f64" where
  "extractParams modelID =
     (case match_b (to_lower modelID) of
        Some (d1, d2) \<Rightarrow> (case parse_decimal d1 d2 of Some v \<Rightarrow> (True, v) | None \<Rightarrow> (False, lit 8))
      | None \<Rightarrow> (False, lit 8))"

definition inferredPrecisionBytes :: "string \<Rightarrow> int" where
  "inferredPrecisionBytes modelID =
     (let id = to_lower modelID in
      if contains id ''fp8'' \<or> contains id ''int8'' then 1
      else if contains id ''fp16'' \<or> contains id ''bf16'' \<or> contains id ''half'' then 2
      else if contains id ''awq'' \<or> contains id ''gptq'' \<or> contains id ''4bit'' then 2
      else 2)"

definition inferredArchParams :: "(string \<times> arch_params) list \<Rightarrow> string \<Rightarrow> bool \<times> arch_params" where
  "inferredArchParams ms modelID =
     (case lookup_sub ms (to_lower modelID) of
        Some p \<Rightarrow> (True, p)
      | None \<Rightarrow> (False, arch (snd (extractParams modelID)) 32 8 4096 32 (inferredPrecisionBytes modelID)))"

section \<open>The estimator\<close>

record complexity_metrics =
  FlopsPerToken :: f64
  ArithmeticIntensity :: f64
  MinThreads :: int

record resource_requirements =
  ThreadOccupancy :: f64
  MemoryGB :: f64

record resource_estimator =
  re_modelID :: string
  validParamsInBillions :: bool
  paramsFound :: bool
  params :: arch_params
  complexity :: complexity_metrics
  effectiveBatchSize :: f64
  maxNumBatchedTokens :: "int option"
  modelSize :: f64
  memoryPerToken :: f64
  activeMemoryPerPerfillToken :: f64
  gpuFound :: bool
  gpuSpec :: gpu_specs
  memoryOverheadFactor :: f64
  minMemoryUsage :: f64

definition estimateModelComplexity :: "f64 \<Rightarrow> int \<Rightarrow> complexity_metrics" where
  "estimateModelComplexity paramsInBillions hiddenSize =
     \<lparr>FlopsPerToken = fmul (fmul (lit 2) paramsInBillions) (lit (10 ^ 9)),
      ArithmeticIntensity = lit 1, MinThreads = hiddenSize\<rparr>"

definition estimateModelSize :: "f64 \<Rightarrow> int \<Rightarrow> f64" where
  "estimateModelSize paramsInBillions precisionBytes = fmul paramsInBillions (i2f precisionBytes)"

text \<open>Integer division by zero panics.\<close>

definition go_div :: "int \<Rightarrow> int \<Rightarrow> int res" where
  "go_div a b = (if b = 0 then Crash ''integer divide by zero'' else Ok (wrap64 (a sdiv b)))"

definition estimateMemoryPerTokenFromID :: "arch_params \<Rightarrow> int \<Rightarrow> f64 res" where
  "estimateMemoryPerTokenFromID p precisionBytes =
     (case go_div (HiddenSize p) (QueryHeads p) of
        Inl e \<Rightarrow> Inl e
      | Inr headDim \<Rightarrow>
          Ok (i2f (wrap64 (wrap64 (wrap64 (wrap64 (2 * Layers p) * KVHeads p) * headDim) * precisionBytes))))"

definition estimateActiveMemoryPerTokenFromID :: "f64 \<Rightarrow> arch_params \<Rightarrow> int \<Rightarrow> f64" where
  "estimateActiveMemoryPerTokenFromID effectiveBatch p precisionBytes =
     fadd (fmul effectiveBatch (i2f (wrap64 (HiddenSize p * precisionBytes))))
          (fmul effectiveBatch (i2f (wrap64 (wrap64 (HiddenSize p * 4) * precisionBytes))))"

text \<open>\<open>NewResourceEstimator\<close> and \<open>NewResourceEstimatorWithArchParam\<close> share the GPU lookup and the
  derived quantities; an empty GPU name is the a100 default and counts as not found.\<close>

definition choose_gpu :: "(string \<times> gpu_specs) list \<Rightarrow> string \<Rightarrow> bool \<times> gpu_specs" where
  "choose_gpu gs gpuName =
     (if gpuName = [] then (False, snd (getGPUSpecs gs ''a100'')) else getGPUSpecs gs gpuName)"

definition mk_estimator ::
  "(string \<times> gpu_specs) list \<Rightarrow> string \<Rightarrow> string \<Rightarrow> f64 \<Rightarrow> int option \<Rightarrow> bool \<Rightarrow> bool \<Rightarrow> arch_params \<Rightarrow> resource_estimator res" where
  "mk_estimator gs modelID gpuName batch maxTokens validB found p =
     (case estimateMemoryPerTokenFromID p (Precision p) of
        Inl e \<Rightarrow> Inl e
      | Inr perToken \<Rightarrow> Ok
         \<lparr>re_modelID = modelID, validParamsInBillions = validB, paramsFound = found, params = p,
          complexity = estimateModelComplexity (ParametersB p) (HiddenSize p),
          effectiveBatchSize = batch, maxNumBatchedTokens = maxTokens,
          modelSize = estimateModelSize (ParametersB p) (Precision p),
          memoryPerToken = perToken,
          activeMemoryPerPerfillToken = estimateActiveMemoryPerTokenFromID batch p (Precision p),
          gpuFound = fst (choose_gpu gs gpuName), gpuSpec = snd (choose_gpu gs gpuName),
          memoryOverheadFactor = lit (12 / 10), minMemoryUsage = Fin 0\<rparr>)"

definition NewResourceEstimator where
  "NewResourceEstimator gs ms modelID gpuName batch maxTokens =
     mk_estimator gs modelID gpuName batch maxTokens (fst (extractParams modelID))
       (fst (inferredArchParams ms modelID)) (snd (inferredArchParams ms modelID))"

definition NewResourceEstimatorWithArchParam where
  "NewResourceEstimatorWithArchParam gs modelID gpuName batch maxTokens p =
     mk_estimator gs modelID gpuName batch maxTokens False True p"

definition NewResourceEstimatorWithHint ::
  "(string \<times> gpu_specs) list \<Rightarrow> (string \<times> arch_params) list \<Rightarrow> hint \<Rightarrow> resource_estimator res" where
  "NewResourceEstimatorWithHint gs ms h =
     (let batch = fmin (i2f (BatchSize h)) (i2f (MaxNumSeqs h)) in
      case ModelParams h of
        Some p \<Rightarrow> NewResourceEstimatorWithArchParam gs (ModelID h) (GPUName h) batch (MaxNumBatchedTokens h) p
      | None \<Rightarrow> NewResourceEstimator gs ms (ModelID h) (GPUName h) batch (MaxNumBatchedTokens h))"

definition SetGPUSpec :: "(string \<times> gpu_specs) list \<Rightarrow> resource_estimator \<Rightarrow> string \<Rightarrow> resource_estimator" where
  "SetGPUSpec gs r gpuName =
     r\<lparr>gpuFound := fst (getGPUSpecs gs gpuName), gpuSpec := snd (getGPUSpecs gs gpuName)\<rparr>"

section \<open>Requirements per GPU\<close>

definition estimateThreadOccupancy :: "resource_estimator \<Rightarrow> f64 \<Rightarrow> f64 \<Rightarrow> int \<Rightarrow> f64" where
  "estimateThreadOccupancy r effectiveBatch prefillTokens numGPU =
     (let prefillThreads = fmul prefillTokens (i2f (MinThreads (complexity r)));
          decodeThreads = fmul effectiveBatch (i2f (MinThreads (complexity r)));
          totalActiveThreads = fmax prefillThreads decodeThreads;
          occupancy = fmul (fdiv totalActiveThreads (i2f (wrap64 (MaxThreads (gpuSpec r) * numGPU)))) (Fin 100)
      in if fgt occupancy (Fin 100) then Fin 100 else occupancy)"

definition estimateAttentionMemory :: "(f64 \<Rightarrow> f64 \<Rightarrow> f64) \<Rightarrow> resource_estimator \<Rightarrow> int \<Rightarrow> f64 \<Rightarrow> f64" where
  "estimateAttentionMemory pf r seqLen prefillTokens =
     (if seqLen \<le> 8192 then Fin 0
      else
        let longContextFactor = math_Pow pf (fdiv (i2f seqLen) (lit 8192)) (lit (13 / 10));
            attentionOverhead = fmul (fmul (fmul (fmul prefillTokens (i2f (HiddenSize (params r))))
              (i2f (Precision (params r)))) longContextFactor) (lit (1 / 10))
        in fdiv attentionOverhead (lit (10 ^ 9)))"

definition estimateMemoryUsage :: "(f64 \<Rightarrow> f64 \<Rightarrow> f64) \<Rightarrow> resource_estimator \<Rightarrow> int \<Rightarrow> int \<Rightarrow> f64 \<Rightarrow> int \<Rightarrow> f64" where
  "estimateMemoryUsage pf r promptLen outputLen prefillTokens numGPU =
     (let totalTokens = fmul (i2f (wrap64 (promptLen + outputLen))) (effectiveBatchSize r);
          modelWeight = fdiv (modelSize r) (i2f numGPU);
          kvCacheMem = fdiv (fdiv (fmul (fmul (effectiveBatchSize r) totalTokens) (memoryPerToken r))
                         (i2f numGPU)) (lit (10 ^ 9));
          activationMem = fdiv (fdiv (fmul (activeMemoryPerPerfillToken r) prefillTokens) (i2f numGPU)) (lit (10 ^ 9));
          attentionMem = fdiv (estimateAttentionMemory pf r promptLen prefillTokens) (i2f numGPU)
      in fmul (fadd (fadd (fadd modelWeight kvCacheMem) activationMem) attentionMem) (memoryOverheadFactor r))"

definition CalculateResourceRequirementsPerGPU ::
  "(f64 \<Rightarrow> f64 \<Rightarrow> f64) \<Rightarrow> resource_estimator \<Rightarrow> int \<Rightarrow> int \<Rightarrow> f64 \<Rightarrow> int \<Rightarrow> resource_requirements" where
  "CalculateResourceRequirementsPerGPU pf r promptLen outputLen cachedHitRatio numGPU =
     (let prefillTokens = fmul (fmul (i2f promptLen) (fsub (Fin 1) cachedHitRatio)) (effectiveBatchSize r);
          prefillTokens = (case maxNumBatchedTokens r of None \<Rightarrow> prefillTokens | Some m \<Rightarrow> fmin prefillTokens (i2f m))
      in \<lparr>ThreadOccupancy = estimateThreadOccupancy r (effectiveBatchSize r) prefillTokens numGPU,
          MemoryGB = estimateMemoryUsage pf r promptLen outputLen prefillTokens numGPU\<rparr>)"

section \<open>Tuning from metrics\<close>

definition tuneWithComputeMetric :: "resource_estimator \<Rightarrow> f64 \<Rightarrow> f64 \<Rightarrow> int \<Rightarrow> resource_estimator" where
  "tuneWithComputeMetric r prefillTokens computeThreadUtilization numGPU =
     (if gpuFound r then r
      else if fgt computeThreadUtilization (Fin 100) then r
      else
        let totalActiveThreads = fmul (fadd prefillTokens (effectiveBatchSize r)) (i2f (HiddenSize (params r)));
            maxThreads = f2i64 (fdiv (fdiv (fmul totalActiveThreads (Fin 100)) computeThreadUtilization) (i2f numGPU))
        in if MinMaxThreads < maxThreads then r\<lparr>gpuSpec := (gpuSpec r)\<lparr>MaxThreads := maxThreads\<rparr>\<rparr> else r)"

definition tuneDynamicMemory :: "resource_estimator \<Rightarrow> int \<Rightarrow> f64 \<Rightarrow> f64 \<Rightarrow> f64 \<Rightarrow> resource_estimator" where
  "tuneDynamicMemory r outputLen prefillTokens dynamicMemory totalTokens =
     (let r = (if 1 < outputLen then
                 (let calculatedPerToken = fdiv (fmul dynamicMemory (lit (10 ^ 9))) totalTokens;
                      perToken = fdiv (fadd (memoryPerToken r) calculatedPerToken) (Fin 2)
                  in if fgt perToken (Fin 0) then r\<lparr>memoryPerToken := perToken\<rparr> else r)
               else r)
      in if fgt prefillTokens (Fin 0) then
           (let calculatedActiveFactor = fdiv (fmul dynamicMemory (lit (10 ^ 9))) prefillTokens;
                active = fdiv (fadd (activeMemoryPerPerfillToken r) calculatedActiveFactor) (Fin 2);
                hiddenSize = f2i64 (fceil (fdiv (fdiv active (effectiveBatchSize r)) (i2f (Precision (params r)))))
            in if fgt active (Fin 0) \<and> MinHiddenSize < hiddenSize
               then r\<lparr>activeMemoryPerPerfillToken := active, params := (params r)\<lparr>HiddenSize := hiddenSize\<rparr>\<rparr>
               else r)
         else r)"

definition tuneModelParams :: "resource_estimator \<Rightarrow> f64 \<Rightarrow> int \<Rightarrow> int \<Rightarrow> f64 \<Rightarrow> int \<Rightarrow> resource_estimator" where
  "tuneModelParams r prefillTokens promptLen outputLen measuredMemoryUsage numGPU =
     (let rawMemoryUsage = fdiv measuredMemoryUsage (memoryOverheadFactor r);
          numGPUF = i2f numGPU;
          totalTokens = fmul (i2f (wrap64 (promptLen + outputLen))) (effectiveBatchSize r);
          r = (if validParamsInBillions r then r
               else
                 let kvCacheMem = fdiv (fdiv (fmul totalTokens (memoryPerToken r)) numGPUF) (lit (10 ^ 9));
                     activationMem = fdiv (fdiv (fmul (activeMemoryPerPerfillToken r) prefillTokens) numGPUF) (lit (10 ^ 9));
                     perGPU = fsub (fsub rawMemoryUsage kvCacheMem) activationMem
                 in if feq (minMemoryUsage r) (Fin 0) \<or> (fgt perGPU (Fin 0) \<and> fgt (minMemoryUsage r) perGPU)
                    then r\<lparr>minMemoryUsage := perGPU, modelSize := fmul perGPU (i2f numGPU)\<rparr>
                    else r);
          modelWeightPerGPU = fdiv (modelSize r) numGPUF;
          dynamicMemory = fsub rawMemoryUsage modelWeightPerGPU
      in if fgt dynamicMemory (Fin 0) then tuneDynamicMemory r outputLen prefillTokens dynamicMemory totalTokens else r)"

definition tuneWithMemoryMetric ::
  "(f64 \<Rightarrow> f64 \<Rightarrow> f64) \<Rightarrow> resource_estimator \<Rightarrow> f64 \<Rightarrow> int \<Rightarrow> int \<Rightarrow> f64 \<Rightarrow> int \<Rightarrow> resource_estimator" where
  "tuneWithMemoryMetric pf r prefillTokens promptLen outputLen measuredMemoryUsage numGPU =
     (let r = (if paramsFound r then r
               else tuneModelParams r prefillTokens promptLen outputLen measuredMemoryUsage numGPU);
          estimated = estimateMemoryUsage pf r promptLen outputLen prefillTokens numGPU
      in if fgt estimated (Fin 0) then
           (let factor = fmin MaxMemoryOverheadFactor (fdiv measuredMemoryUsage estimated)
            in if fgt (memoryOverheadFactor r) (Fin 1) \<and> fgt factor (memoryOverheadFactor r)
               then r\<lparr>memoryOverheadFactor := factor\<rparr> else r)
         else r)"

end
