(* ===== verification/Latency_Estimator.thy ===== *)
theory Latency_Estimator
  imports Resource_Estimator
begin

text \<open>
  \<open>internal/optimizer/latency_estimator.go\<close>: the roofline estimate of prefill and inter-token
  latency of one replica, in milliseconds. The fields of the Go struct that no function of the
  package reads or writes are kept, at their zero value.
\<close>

section \<open>State\<close>

record latency_estimator =
  le_PrefixCacheHitRate :: f64
  PrefillTimePerToken :: f64
  InterTokenLatency :: f64
  KVCacheHitRate :: f64
  le_KVCacheSpeedup :: f64
  le_ArrivalRate :: f64
  AvgPromptTokens :: f64
  AvgOutputTokens :: f64
  itlOffset :: f64
  ttftOffset :: f64
  effectiveBatch :: f64
  kernelOverhead :: f64
  prefillLatencyPerPromptLen :: f64
  kvReadTimePerPromptToken :: f64
  totalWeightReadTime :: f64

section \<open>Operations\<close>

definition calculateKVCacheBytesPerToken :: "arch_params \<Rightarrow> f64 res" where
  "calculateKVCacheBytesPerToken p =
     (let kvHeads = (if KVHeads p = 0 then QueryHeads p else KVHeads p) in
      case go_div (HiddenSize p) (QueryHeads p) of
        Inl e \<Rightarrow> Inl e
      | Inr headDim \<Rightarrow>
          Ok (fmul (lit 2) (i2f (wrap64 (wrap64 (wrap64 (Layers p * kvHeads) * headDim) * Precision p)))))"

definition calculateKernelOverhead :: "arch_params \<Rightarrow> f64" where
  "calculateKernelOverhead p =
     fadd (fmul (i2f (Layers p)) (lit (1 / 10))) (fmul (i2f (wrap64 (Layers p * KVHeads p))) (lit (5 / 100)))"

definition NewLatencyEstimatorWithHint :: "hint \<Rightarrow> arch_params \<Rightarrow> gpu_specs \<Rightarrow> latency_estimator res" where
  "NewLatencyEstimatorWithHint h p g =
     (let modelBytes = fmul (fmul (ParametersB p) (lit (10 ^ 9))) (i2f (Precision p));
          bandwidth = fdiv (fmul (MemoryBW g) (lit (10 ^ 12))) (lit 1000);
          weightReadTime = fdiv modelBytes bandwidth;
          prefill = fmul (fdiv (fmul (fmul (lit 2) (ParametersB p)) (lit (10 ^ 9)))
                            (fmul (PeakTFLOPS g) (lit (10 ^ 12)))) (lit 1000);
          batch = fmin (i2f (BatchSize h)) (i2f (MaxNumSeqs h))
      in case calculateKVCacheBytesPerToken p of
           Inl e \<Rightarrow> Inl e
         | Inr kvBytes \<Rightarrow> Ok
             \<lparr>le_PrefixCacheHitRate = PrefixCacheHitRate h, PrefillTimePerToken = Fin 0,
              InterTokenLatency = Fin 0, KVCacheHitRate = Fin 0, le_KVCacheSpeedup = KVCacheSpeedup h,
              le_ArrivalRate = Fin 0, AvgPromptTokens = Fin 0, AvgOutputTokens = Fin 0,
              itlOffset = Fin 0, ttftOffset = Fin 0, effectiveBatch = batch,
              kernelOverhead = calculateKernelOverhead p, prefillLatencyPerPromptLen = prefill,
              kvReadTimePerPromptToken = fdiv (fmul kvBytes batch) bandwidth,
              totalWeightReadTime = weightReadTime\<rparr>)"

definition le_SetLatencyOffsets :: "latency_estimator \<Rightarrow> f64 \<Rightarrow> f64 \<Rightarrow> latency_estimator" where
  "le_SetLatencyOffsets r itl ttft = r\<lparr>itlOffset := itl, ttftOffset := ttft\<rparr>"

definition estimateStructuralOverhead :: "latency_estimator \<Rightarrow> f64 \<Rightarrow> f64" where
  "estimateStructuralOverhead r numGPUF =
     fadd (kernelOverhead r) (if fgt numGPUF (Fin 1) then fmul (lit 2) numGPUF else Fin 0)"

definition computePrefillLatencyByPrompt :: "latency_estimator \<Rightarrow> int \<Rightarrow> f64 \<Rightarrow> f64 \<Rightarrow> f64 \<times> f64" where
  "computePrefillLatencyByPrompt r promptLen numGPUF impact =
     (let totalPrefillTokens = fmul (i2f promptLen) (effectiveBatch r);
          basePrefill = fdiv (fmul (prefillLatencyPerPromptLen r) totalPrefillTokens) numGPUF;
          speedUp = fmul (le_KVCacheSpeedup r) (le_PrefixCacheHitRate r);
          applies = fgt (le_PrefixCacheHitRate r) (Fin 0) \<and> fle speedUp (Fin 1);
          reduction = (if applies then fmul basePrefill speedUp else Fin 0);
          prefill = (if applies then fsub basePrefill reduction else basePrefill);
          prefill = fadd (fmul prefill (fadd (Fin 1) impact)) (ttftOffset r)
      in (if flt prefill (Fin 0) then Fin 0 else prefill, reduction))"

definition computeInterTokenLatency :: "latency_estimator \<Rightarrow> int \<Rightarrow> int \<Rightarrow> f64 \<Rightarrow> f64" where
  "computeInterTokenLatency r promptLen numGPU impact =
     (let kvRead = fmul (kvReadTimePerPromptToken r) (i2f promptLen);
          itl = fdiv (fadd (totalWeightReadTime r) kvRead) (i2f numGPU);
          itl = fadd (fmul itl (fadd (Fin 1) impact)) (itlOffset r)
      in if flt itl (Fin 0) then Fin 0 else itl)"

definition estimateLatency :: "latency_estimator \<Rightarrow> int \<Rightarrow> int \<Rightarrow> int \<Rightarrow> f64 \<Rightarrow> latency_result" where
  "estimateLatency r promptLen outputLen numGPU impact =
     (let numGPUF = i2f numGPU;
          overhead = estimateStructuralOverhead r numGPUF;
          (byPrompt, reduction) = computePrefillLatencyByPrompt r promptLen numGPUF impact;
          itl = computeInterTokenLatency r promptLen numGPU impact
      in zero_latency\<lparr>ITL := itl, Prefill := fadd byPrompt overhead, Decode := fmul itl (i2f outputLen),
           KVCacheReduction := reduction, AllocationImpact := impact\<rparr>)"

section \<open>Estimates are never negative\<close>

text \<open>Whatever offsets, impact and parameters are supplied, a latency is NaN or non-negative.\<close>

abbreviation nonneg :: "f64 \<Rightarrow> bool" where "nonneg a \<equiv> \<not> flt a (Fin 0)"

lemma nonneg_iff: "nonneg a \<longleftrightarrow> a = NaN \<or> fnn a"
  by (cases a) auto

lemma nonneg_mul: "nonneg a \<Longrightarrow> nonneg b \<Longrightarrow> nonneg (fmul a b)"
  unfolding nonneg_iff by (cases a; cases b) (auto simp: inf_of_def intro: fnn_rnd)

lemma nonneg_add: "nonneg a \<Longrightarrow> nonneg b \<Longrightarrow> nonneg (fadd a b)"
  unfolding nonneg_iff by (cases a; cases b) (auto intro: fnn_rnd)

lemma nonneg_div: "nonneg a \<Longrightarrow> nonneg b \<Longrightarrow> nonneg (fdiv a b)"
  unfolding nonneg_iff by (cases a; cases b) (auto simp: inf_of_def intro: fnn_rnd)

lemma nonneg_i2f: "0 \<le> n \<Longrightarrow> nonneg (i2f n)"
  using fnn_i2f [of n] by (simp add: nonneg_iff)

lemma prefill_nonneg: "nonneg (fst (computePrefillLatencyByPrompt r n g i))"
  by (simp add: computePrefillLatencyByPrompt_def Let_def)

lemma itl_nonneg: "nonneg (computeInterTokenLatency r n g i)"
  by (simp add: computeInterTokenLatency_def Let_def)

lemma estimateLatency_fields:
  "ITL (estimateLatency r p o' g i) = computeInterTokenLatency r p g i"
  "Decode (estimateLatency r p o' g i) = fmul (computeInterTokenLatency r p g i) (i2f o')"
  "Prefill (estimateLatency r p o' g i) =
     fadd (fst (computePrefillLatencyByPrompt r p (i2f g) i)) (estimateStructuralOverhead r (i2f g))"
  "AllocationImpact (estimateLatency r p o' g i) = i"
  by (simp_all add: estimateLatency_def Let_def split_def zero_latency_def)

lemma estimateLatency_nonneg:
  assumes "nonneg (kernelOverhead r)" "0 \<le> g" "0 \<le> o'"
  shows "nonneg (ITL (estimateLatency r p o' g i))" "nonneg (Prefill (estimateLatency r p o' g i))"
    "nonneg (Decode (estimateLatency r p o' g i))" "nonneg (ServiceTime (estimateLatency r p o' g i))"
proof -
  have "nonneg (lit 2)" by (simp add: lit_def nonneg_iff fnn_rnd)
  then have "nonneg (estimateStructuralOverhead r (i2f g))"
    unfolding estimateStructuralOverhead_def using assms(1) nonneg_i2f [OF assms(2)]
    by (intro nonneg_add) (simp_all add: nonneg_mul)
  then show p: "nonneg (Prefill (estimateLatency r p o' g i))"
    unfolding estimateLatency_fields using prefill_nonneg by (intro nonneg_add) auto
  show "nonneg (ITL (estimateLatency r p o' g i))" unfolding estimateLatency_fields by (rule itl_nonneg)
  show d: "nonneg (Decode (estimateLatency r p o' g i))"
    unfolding estimateLatency_fields using itl_nonneg nonneg_i2f [OF assms(3)] by (intro nonneg_mul) auto
  show "nonneg (ServiceTime (estimateLatency r p o' g i))"
    unfolding ServiceTime_def using p d by (intro nonneg_add) auto
qed

lemma kernelOverhead_nonneg:
  assumes "NewLatencyEstimatorWithHint h p g = Ok r" "0 \<le> Layers p" "0 \<le> KVHeads p" "Layers p * KVHeads p < 2 ^ 63"
  shows "nonneg (kernelOverhead r)"
proof -
  have "nonneg (lit (1 / 10))" "nonneg (lit (5 / 100))" by (simp_all add: lit_def nonneg_iff fnn_rnd)
  moreover have "0 \<le> wrap64 (Layers p * KVHeads p)"
    using assms by (subst wrap64_id) (auto simp: order_trans [of _ "0::int"])
  ultimately have "nonneg (calculateKernelOverhead p)"
    using assms(2) unfolding calculateKernelOverhead_def by (intro nonneg_add nonneg_mul nonneg_i2f)
  then show ?thesis
    using assms(1) by (auto simp: NewLatencyEstimatorWithHint_def Let_def split: sum.splits)
qed

text \<open>The constructor fails only through the head-dimension division.\<close>

lemma NewLatencyEstimator_panics:
  "(\<exists>e. NewLatencyEstimatorWithHint h p g = Inl e) \<longleftrightarrow> QueryHeads p = 0"
  by (auto simp: NewLatencyEstimatorWithHint_def calculateKVCacheBytesPerToken_def go_div_def Let_def
      split: sum.splits)

section \<open>Monotonicity in the impact\<close>

text \<open>On a fixed replica shape, a larger allocation impact never gives a smaller latency.\<close>

lemma fle_PInf_iff: "fle PInf a \<longleftrightarrow> a = PInf" and fle_NInf_iff: "fle a NInf \<longleftrightarrow> a = NInf"
  by (cases a; simp add: fle_def feq_def)+

lemma fmul_mono_right:
  assumes "fle a b" "nonneg c" "fmul c a \<noteq> NaN" "fmul c b \<noteq> NaN"
  shows "fle (fmul c a) (fmul c b)"
  using assms unfolding nonneg_iff
  by (cases a; cases b; cases c)
     (auto simp: inf_of_def fle_inf fle_PInf_iff fle_NInf_iff intro: rnd_mono mult_left_mono split: if_splits)

lemma fadd_comm: "fadd a b = fadd b a"
  by (cases a; cases b) (simp_all add: add.commute)

lemma fadd_NaN: "fadd a b \<noteq> NaN \<Longrightarrow> a \<noteq> NaN \<and> b \<noteq> NaN"
  by (cases a; cases b) auto

lemma fmul_NaN: "fmul a b \<noteq> NaN \<Longrightarrow> a \<noteq> NaN \<and> b \<noteq> NaN"
  by (cases a; cases b) auto

lemma scale_mono:
  assumes i: "fle i j" and c: "nonneg c"
    and nn: "fadd (fmul c (fadd (Fin 1) i)) t \<noteq> NaN" "fadd (fmul c (fadd (Fin 1) j)) t \<noteq> NaN"
  shows "fle (fadd (fmul c (fadd (Fin 1) i)) t) (fadd (fmul c (fadd (Fin 1) j)) t)"
proof -
  note n1 = fadd_NaN [OF nn(1)] and n2 = fadd_NaN [OF nn(2)]
  have "fle (fadd (Fin 1) i) (fadd (Fin 1) j)"
    using fadd_mono_left [OF i, of "Fin 1"] n1 n2 fmul_NaN by (metis f64.distinct(5) fadd_comm)
  then show ?thesis using n1 n2 nn c by (intro fadd_mono_left fmul_mono_right) auto
qed

lemma clamp_mono: "fle a b \<Longrightarrow> fle (if flt a (Fin 0) then Fin 0 else a) (if flt b (Fin 0) then Fin 0 else b)"
  using fle_trans [of "Fin 0" a b] fle_trans [of a b] by (cases a; cases b) (auto simp: fle_inf fle_NInf_iff fle_PInf_iff)

lemma itl_mono_impact:
  assumes "fle i j" "nonneg (fdiv (fadd (totalWeightReadTime r) (fmul (kvReadTimePerPromptToken r) (i2f p))) (i2f g))"
    and "computeInterTokenLatency r p g i \<noteq> NaN" "computeInterTokenLatency r p g j \<noteq> NaN"
  shows "fle (computeInterTokenLatency r p g i) (computeInterTokenLatency r p g j)"
proof -
  let ?c = "fdiv (fadd (totalWeightReadTime r) (fmul (kvReadTimePerPromptToken r) (i2f p))) (i2f g)"
  have "fadd (fmul ?c (fadd (Fin 1) i)) (itlOffset r) \<noteq> NaN" "fadd (fmul ?c (fadd (Fin 1) j)) (itlOffset r) \<noteq> NaN"
    using assms(3,4) by (auto simp: computeInterTokenLatency_def Let_def split: if_splits)
  then show ?thesis using scale_mono [OF assms(1,2)]
    unfolding computeInterTokenLatency_def Let_def by (intro clamp_mono) auto
qed

end
