(* ===== verification/Resource_Optimizer.thy ===== *)
theory Resource_Optimizer
  imports Latency_Estimator
begin

text \<open>
  \<open>internal/optimizer/resource_optimizer.go\<close>: the search for the smallest configuration (replicas,
  GPUs per replica, compute and memory per GPU) whose estimated latency meets the targets. The two
  nested loops are recursions over the ranges they count through; \<open>goto searchComplete\<close> is the
  constructor \<open>Done\<close> of a loop outcome. The shrinking of the compute request counts down in float64
  and need not end, so it is a \<open>partial_function\<close>: \<^const>\<open>None\<close> stands for a search that does not
  return.
\<close>

section \<open>Data\<close>

record gpu_constraints =
  MinThreadPercentage :: f64
  MaxThreadPercentage :: f64
  StepThreadPercentage :: f64
  MinMemoryBytes :: int
  MaxMemoryBytes :: int
  StepMemoryBytes :: int
  BudgetGPUs :: int
  MaxGPUsPerReplica :: int

record resource_configuration =
  Replicas :: int
  GPUsPerReplica :: int
  RequestedCompute :: f64
  RequestedMemoryGB :: f64

record optimal_configuration = resource_configuration +
  TotalGPUs :: int
  EstimatedLatency :: latency_result
  ResourceRequirements :: resource_requirements
  MeetsConstraints :: bool

record latency_targets =
  TargetE2E :: "f64 option"
  TargetTTFT :: "f64 option"
  TargetITL :: "f64 option"

record resource_optimizer =
  queueAnalyzer :: "queue_analyzer option"
  latencyEstimator :: latency_estimator
  resourceEstimator :: resource_estimator
  maxReplicas :: int
  prefixCacheHitRate :: f64
  gpuConstraints :: gpu_constraints
  currentConfig :: resource_configuration
  o_arrivalRate :: f64
  avgPromptTokens :: int
  avgOutputTokens :: int
  o_maxNumSeqs :: int

definition zero_config :: optimal_configuration where
  "zero_config = \<lparr>Replicas = 0, GPUsPerReplica = 0, RequestedCompute = Fin 0, RequestedMemoryGB = Fin 0,
     TotalGPUs = 0, EstimatedLatency = zero_latency,
     ResourceRequirements = \<lparr>ThreadOccupancy = Fin 0, MemoryGB = Fin 0\<rparr>, MeetsConstraints = False\<rparr>"

section \<open>Construction\<close>

definition getMaxReplicas :: "constraints option \<Rightarrow> int" where
  "getMaxReplicas c = (case c of None \<Rightarrow> 10 | Some c \<Rightarrow> get_or (MaxReplicas c) 10)"

definition getDefaultHint :: hint where
  "getDefaultHint = \<lparr>ModelID = [], ModelParams = None, BatchSize = 1, MaxNumSeqs = 10,
     MaxNumBatchedTokens = None, PrefixCacheHitRate = Fin 0, KVCacheSpeedup = Fin 1, GPUName = []\<rparr>"

definition default_gpu_constraints :: gpu_constraints where
  "default_gpu_constraints = \<lparr>MinThreadPercentage = lit 1, MaxThreadPercentage = lit 100,
     StepThreadPercentage = lit 1, MinMemoryBytes = 8 * 1024 * 1024 * 1024,
     MaxMemoryBytes = 80 * 1024 * 1024 * 1024, StepMemoryBytes = 1024 * 1024 * 1024,
     BudgetGPUs = 0, MaxGPUsPerReplica = 8\<rparr>"

definition extractGPUConstraints :: "rca_spec \<Rightarrow> gpu_constraints" where
  "extractGPUConstraints spec =
     (let g = default_gpu_constraints in
      case SpecConstraints spec of None \<Rightarrow> g | Some c \<Rightarrow>
        let g = (case MaxCountPerReplica c of None \<Rightarrow> g
                 | Some n \<Rightarrow> g\<lparr>MaxGPUsPerReplica := n, BudgetGPUs := wrap64 (n * getMaxReplicas (Some c))\<rparr>);
            g = (case capacity_of (Some c) ''compute'' of None \<Rightarrow> g
                 | Some k \<Rightarrow> g\<lparr>MinThreadPercentage := get_or (map_option AsApproximateFloat64 (CapMin k)) (MinThreadPercentage g),
                     MaxThreadPercentage := get_or (map_option AsApproximateFloat64 (CapMax k)) (MaxThreadPercentage g),
                     StepThreadPercentage := get_or (map_option AsApproximateFloat64 (CapStep k)) (StepThreadPercentage g)\<rparr>)
        in case capacity_of (Some c) ''memory'' of None \<Rightarrow> g
           | Some k \<Rightarrow> g\<lparr>MinMemoryBytes := get_or (map_option QValue (CapMin k)) (MinMemoryBytes g),
               MaxMemoryBytes := get_or (map_option QValue (CapMax k)) (MaxMemoryBytes g),
               StepMemoryBytes := get_or (map_option QValue (CapStep k)) (StepMemoryBytes g)\<rparr>)"

definition NewResourceOptimizer ::
  "(string \<times> gpu_specs) list \<Rightarrow> (string \<times> arch_params) list \<Rightarrow> rca_spec \<Rightarrow> resource_optimizer res" where
  "NewResourceOptimizer gs ms spec =
     (let h = get_or (Hint (Target spec)) getDefaultHint in
      case NewResourceEstimatorWithHint gs ms h of
        Inl e \<Rightarrow> Inl e
      | Inr re \<Rightarrow>
          (case NewLatencyEstimatorWithHint h (params re) (gpuSpec re) of
             Inl e \<Rightarrow> Inl e
           | Inr le \<Rightarrow> Ok
               \<lparr>queueAnalyzer = None, latencyEstimator = le, resourceEstimator = re,
                maxReplicas = getMaxReplicas (SpecConstraints spec),
                prefixCacheHitRate = PrefixCacheHitRate h,
                gpuConstraints = extractGPUConstraints spec,
                currentConfig = \<lparr>Replicas = 0, GPUsPerReplica = 0, RequestedCompute = Fin 0,
                  RequestedMemoryGB = Fin 0\<rparr>,
                o_arrivalRate = Fin 0, avgPromptTokens = 0, avgOutputTokens = 0, o_maxNumSeqs = 0\<rparr>))"

definition SetWorkloadParameters :: "resource_optimizer \<Rightarrow> f64 \<Rightarrow> int \<Rightarrow> int \<Rightarrow> int \<Rightarrow> resource_optimizer" where
  "SetWorkloadParameters s rate prompt output seqs =
     s\<lparr>o_arrivalRate := rate, avgPromptTokens := prompt, avgOutputTokens := output,
       o_maxNumSeqs := seqs, queueAnalyzer := Some (NewQueueAnalyzer rate)\<rparr>"

definition SetLatencyOffsets :: "resource_optimizer \<Rightarrow> f64 \<Rightarrow> f64 \<Rightarrow> resource_optimizer" where
  "SetLatencyOffsets s itl ttft = s\<lparr>latencyEstimator := le_SetLatencyOffsets (latencyEstimator s) itl ttft\<rparr>"

definition SetRequestedResources :: "resource_optimizer \<Rightarrow> int \<Rightarrow> int \<Rightarrow> f64 \<Rightarrow> f64 \<Rightarrow> resource_optimizer" where
  "SetRequestedResources s replicas gpus compute memory =
     s\<lparr>currentConfig := \<lparr>Replicas = replicas, GPUsPerReplica = gpus, RequestedCompute = compute,
       RequestedMemoryGB = memory\<rparr>\<rparr>"

definition TuneWithMetrics ::
  "(f64 \<Rightarrow> f64 \<Rightarrow> f64) \<Rightarrow> resource_optimizer \<Rightarrow> f64 \<Rightarrow> int \<Rightarrow> int \<Rightarrow> f64 \<Rightarrow> f64 \<Rightarrow> int \<Rightarrow> resource_optimizer" where
  "TuneWithMetrics pf s prefillTokens promptLen outputTokens computeUtil measuredMemory numGPU =
     (let re = tuneWithComputeMetric (resourceEstimator s) prefillTokens computeUtil numGPU
      in s\<lparr>resourceEstimator := tuneWithMemoryMetric pf re prefillTokens promptLen outputTokens measuredMemory numGPU\<rparr>)"

section \<open>Evaluation of one configuration\<close>

definition meetsAllTargets :: "latency_targets option \<Rightarrow> latency_result \<Rightarrow> bool" where
  "meetsAllTargets t r = (case t of None \<Rightarrow> True | Some t \<Rightarrow>
     \<not> (case TargetE2E t of None \<Rightarrow> False | Some x \<Rightarrow> fgt (E2E r) x) \<and>
     \<not> (case TargetTTFT t of None \<Rightarrow> False | Some x \<Rightarrow> fgt (TTFT r) x) \<and>
     \<not> (case TargetITL t of None \<Rightarrow> False | Some x \<Rightarrow> fgt (ITL r) x))"

definition CalculateResourceAllocationImpact :: "resource_optimizer \<Rightarrow> f64 \<Rightarrow> f64" where
  "CalculateResourceAllocationImpact s ratio =
     (let ratio = (if flt ratio (Fin 0) then Fin 0 else ratio);
          ratio = (if fgt ratio (Fin 1) then Fin 1 else ratio)
      in if flt ratio (lit (1 / 2))
         then fmul (fneg (fsub (Fin 1) ratio)) (OverprovisionSpeedUp (gpuSpec (resourceEstimator s)))
         else if fgt ratio (lit (8 / 10))
         then fmul (fsub ratio (lit (8 / 10))) (UnderprovisionContentionImpact (gpuSpec (resourceEstimator s)))
         else Fin 0)"

definition evaluate_with ::
  "(f64 \<Rightarrow> f64 \<Rightarrow> f64) \<Rightarrow> resource_optimizer \<Rightarrow> queue_analyzer \<Rightarrow> latency_targets option \<Rightarrow>
   int \<Rightarrow> int \<Rightarrow> f64 \<Rightarrow> int \<Rightarrow> resource_requirements \<Rightarrow> queue_error option \<times> optimal_configuration" where
  "evaluate_with pf s qa targets replicas gpusPerReplica compute memoryBytes req =
     (let ratio = fdiv (ThreadOccupancy req) compute;
          impact = CalculateResourceAllocationImpact s ratio;
          latency = estimateLatency (latencyEstimator s) (avgPromptTokens s) (avgOutputTokens s) gpusPerReplica impact;
          config = \<lparr>Replicas = replicas, GPUsPerReplica = gpusPerReplica, RequestedCompute = compute,
             RequestedMemoryGB = fdiv (i2f memoryBytes) (lit 1073741824),
             TotalGPUs = wrap64 (replicas * gpusPerReplica), EstimatedLatency = latency,
             ResourceRequirements = req, MeetsConstraints = False\<rparr>
      in case AddQueuingResults pf qa replicas latency of
           (Some err, latency) \<Rightarrow> (Some err, config\<lparr>EstimatedLatency := latency\<rparr>)
         | (None, latency) \<Rightarrow> (None, config\<lparr>EstimatedLatency := latency,
              MeetsConstraints := meetsAllTargets targets latency\<rparr>))"

text \<open>The queue analyzer is a pointer that only \<open>SetWorkloadParameters\<close> and the search set.\<close>

definition evaluateConfiguration where
  "evaluateConfiguration pf s targets replicas gpusPerReplica compute memoryBytes req =
     (case deref (queueAnalyzer s) of
        Inl e \<Rightarrow> Inl e
      | Inr qa \<Rightarrow> Ok (evaluate_with pf s qa targets replicas gpusPerReplica compute memoryBytes req))"

section \<open>The search\<close>

type_synonym evaluator = "int \<Rightarrow> int \<Rightarrow> f64 \<Rightarrow> int \<Rightarrow> resource_requirements \<Rightarrow> queue_error option \<times> optimal_configuration"

definition accepts :: "queue_error option \<times> optimal_configuration \<Rightarrow> bool" where
  "accepts r = (fst r = None \<and> MeetsConstraints (snd r))"

text \<open>The loop that shrinks the compute request.\<close>

partial_function (option) shrink ::
  "(f64 \<Rightarrow> queue_error option \<times> optimal_configuration) \<Rightarrow> f64 \<Rightarrow> f64 \<Rightarrow> f64 \<Rightarrow> optimal_configuration \<Rightarrow> optimal_configuration option" where
  "shrink ev step lo compute best =
     (if fge compute lo
      then if accepts (ev compute) then shrink ev step lo (fsub compute step) (snd (ev compute)) else Some best
      else Some best)"

record search_state =
  bestConfig :: optimal_configuration
  lastTested :: "optimal_configuration option"
  lastError :: "queue_error option"

datatype outcome = Next search_state | Done search_state

definition requiredMemoryBytes :: "resource_requirements \<Rightarrow> f64" where
  "requiredMemoryBytes req = fceil (fmul (MemoryGB req) (lit (10 ^ 9)))"

definition alignedMinMemoryBytes :: "gpu_constraints \<Rightarrow> resource_requirements \<Rightarrow> int" where
  "alignedMinMemoryBytes c req =
     (let minRequested = fmax (requiredMemoryBytes req) (i2f (MinMemoryBytes c));
          stepsNeeded = fceil (fdiv (fsub minRequested (i2f (MinMemoryBytes c))) (i2f (StepMemoryBytes c)))
      in f2i64 (fadd (i2f (MinMemoryBytes c)) (fmul stepsNeeded (i2f (StepMemoryBytes c)))))"

definition fits_memory :: "gpu_constraints \<Rightarrow> resource_requirements \<Rightarrow> bool" where
  "fits_memory c req \<longleftrightarrow> \<not> MaxMemoryBytes c < f2i64 (requiredMemoryBytes req)"

text \<open>What follows an accepted evaluation at maximum resources.\<close>

definition minimise ::
  "evaluator \<Rightarrow> gpu_constraints \<Rightarrow> resource_requirements \<Rightarrow> int \<Rightarrow> int \<Rightarrow> optimal_configuration \<Rightarrow> optimal_configuration option" where
  "minimise ev c req replicas gpus config =
     (let minCompute = fmax (ThreadOccupancy req) (MinThreadPercentage c);
          mem = alignedMinMemoryBytes c req;
          minMem = ev replicas gpus (MaxThreadPercentage c) mem req
      in if \<not> accepts minMem then Some config
         else shrink (\<lambda>compute. ev replicas gpus compute mem req) (StepThreadPercentage c) minCompute
                (fsub (MaxThreadPercentage c) (StepThreadPercentage c)) (snd minMem))"

fun try_gpus ::
  "evaluator \<Rightarrow> (int \<Rightarrow> resource_requirements) \<Rightarrow> gpu_constraints \<Rightarrow> int \<Rightarrow> int list \<Rightarrow> search_state \<Rightarrow> outcome option" where
  "try_gpus ev req c replicas [] st = Some (Next st)"
| "try_gpus ev req c replicas (gpus # rest) st =
     (if 0 < BudgetGPUs c \<and> BudgetGPUs c < wrap64 (replicas * gpus) then Some (Next st)
      else if \<not> fits_memory c (req gpus) then try_gpus ev req c replicas rest st
      else
        let r = ev replicas gpus (MaxThreadPercentage c) (MaxMemoryBytes c) (req gpus);
            st = st\<lparr>lastTested := Some (snd r)\<rparr>;
            st = (case fst r of Some e \<Rightarrow> st\<lparr>lastError := Some e\<rparr> | None \<Rightarrow> st)
        in if accepts r
           then map_option (\<lambda>best. Done (st\<lparr>bestConfig := best\<rparr>)) (minimise ev c (req gpus) replicas gpus (snd r))
           else try_gpus ev req c replicas rest st)"

definition maxGPUs :: "gpu_constraints \<Rightarrow> int \<Rightarrow> int" where
  "maxGPUs c replicas =
     (if 0 < BudgetGPUs c then min (MaxGPUsPerReplica c) (BudgetGPUs c sdiv replicas) else MaxGPUsPerReplica c)"

fun try_replicas ::
  "evaluator \<Rightarrow> (int \<Rightarrow> resource_requirements) \<Rightarrow> gpu_constraints \<Rightarrow> int list \<Rightarrow> search_state \<Rightarrow> search_state option" where
  "try_replicas ev req c [] st = Some st"
| "try_replicas ev req c (replicas # rest) st =
     (if 0 < BudgetGPUs c \<and> maxGPUs c replicas < 1 then Some st
      else case try_gpus ev req c replicas [1..maxGPUs c replicas] st of
        None \<Rightarrow> None
      | Some (Done st) \<Rightarrow> Some st
      | Some (Next st) \<Rightarrow> try_replicas ev req c rest st)"

definition search_result :: "search_state \<Rightarrow> optimal_configuration res" where
  "search_result st =
     (if Replicas (bestConfig st) \<noteq> 0 then Ok (bestConfig st)
      else case lastTested st of
        Some cfg \<Rightarrow> Ok cfg
      | None \<Rightarrow> Fail ''no configuration found within search space'')"

definition start_search :: search_state where
  "start_search = \<lparr>bestConfig = zero_config, lastTested = None, lastError = None\<rparr>"

definition FindOptimalConfiguration ::
  "(f64 \<Rightarrow> f64 \<Rightarrow> f64) \<Rightarrow> resource_optimizer \<Rightarrow> f64 \<Rightarrow> latency_targets option \<Rightarrow>
   (optimal_configuration res \<times> resource_optimizer) option" where
  "FindOptimalConfiguration pf s rate targets =
     (let qa = NewQueueAnalyzer rate;
          s = s\<lparr>o_arrivalRate := rate, queueAnalyzer := Some qa\<rparr>;
          req = CalculateResourceRequirementsPerGPU pf (resourceEstimator s) (avgPromptTokens s)
                  (avgOutputTokens s) (prefixCacheHitRate s)
      in map_option (\<lambda>st. (search_result st, s))
           (try_replicas (evaluate_with pf s qa targets) req (gpuConstraints s) [1..maxReplicas s] start_search))"

section \<open>The loops search a finite list\<close>

text \<open>The pairs the two loops visit and do not skip for lack of memory, in visiting order: replica
  counts outermost, so more GPUs per replica are tried before more replicas.\<close>

definition search_space :: "(int \<Rightarrow> resource_requirements) \<Rightarrow> gpu_constraints \<Rightarrow> int \<Rightarrow> (int \<times> int) list" where
  "search_space req c maxR =
     concat (map (\<lambda>r. map (Pair r) (filter (\<lambda>g. fits_memory c (req g)) [1..maxGPUs c r])) [1..maxR])"

definition at_max :: "evaluator \<Rightarrow> (int \<Rightarrow> resource_requirements) \<Rightarrow> gpu_constraints \<Rightarrow> int \<times> int \<Rightarrow> queue_error option \<times> optimal_configuration" where
  "at_max ev req c p = ev (fst p) (snd p) (MaxThreadPercentage c) (MaxMemoryBytes c) (req (snd p))"

definition reference_search ::
  "evaluator \<Rightarrow> (int \<Rightarrow> resource_requirements) \<Rightarrow> gpu_constraints \<Rightarrow> int \<Rightarrow> optimal_configuration res option" where
  "reference_search ev req c maxR =
     (case find (\<lambda>p. accepts (at_max ev req c p)) (search_space req c maxR) of
        Some p \<Rightarrow> map_option Ok (minimise ev c (req (snd p)) (fst p) (snd p) (snd (at_max ev req c p)))
      | None \<Rightarrow> Some (if search_space req c maxR = [] then Fail ''no configuration found within search space''
                       else Ok (snd (at_max ev req c (last (search_space req c maxR))))))"

lemma le_div_iff: "0 < (r::int) \<Longrightarrow> g \<le> b div r \<longleftrightarrow> r * g \<le> b"
proof
  assume r: "0 < r" and "g \<le> b div r"
  then have "r * g \<le> r * (b div r)" by (intro mult_left_mono) auto
  also have "\<dots> \<le> b" using r pos_mod_sign [of r b] by (simp add: minus_mod_eq_mult_div [symmetric])
  finally show "r * g \<le> b" .
next
  assume r: "0 < r" and "r * g \<le> b"
  then have "(r * g) div r \<le> b div r" by (intro zdiv_mono1)
  then show "g \<le> b div r" using r by simp
qed

lemma maxGPUs_le: "maxGPUs c r \<le> MaxGPUsPerReplica c"
  by (simp add: maxGPUs_def)

lemma maxGPUs_budget:
  assumes "0 < BudgetGPUs c" "1 \<le> r"
  shows "g \<le> maxGPUs c r \<longleftrightarrow> g \<le> MaxGPUsPerReplica c \<and> r * g \<le> BudgetGPUs c"
proof -
  have "maxGPUs c r = min (MaxGPUsPerReplica c) (BudgetGPUs c div r)"
    using assms sdiv_nonneg [of "BudgetGPUs c" r] by (simp add: maxGPUs_def)
  moreover have "g \<le> BudgetGPUs c div r \<longleftrightarrow> r * g \<le> BudgetGPUs c"
    using assms by (simp add: le_div_iff)
  ultimately show ?thesis by simp
qed

lemma search_space_iff:
  "(r, g) \<in> set (search_space req c maxR) \<longleftrightarrow>
     1 \<le> r \<and> r \<le> maxR \<and> 1 \<le> g \<and> g \<le> MaxGPUsPerReplica c \<and>
     (0 < BudgetGPUs c \<longrightarrow> r * g \<le> BudgetGPUs c) \<and> fits_memory c (req g)"
proof (cases "0 < BudgetGPUs c")
  case True
  then show ?thesis using maxGPUs_budget [of c r g] by (auto simp: search_space_def image_iff)
next
  case False
  then have "maxGPUs c r = MaxGPUsPerReplica c" by (simp add: maxGPUs_def)
  then show ?thesis using False by (auto simp: search_space_def image_iff)
qed

lemma no_break:
  assumes "g \<in> set [1..maxGPUs c r]" "1 \<le> r" "BudgetGPUs c < 2 ^ 63"
  shows "\<not> (0 < BudgetGPUs c \<and> BudgetGPUs c < wrap64 (r * g))"
proof
  assume b: "0 < BudgetGPUs c \<and> BudgetGPUs c < wrap64 (r * g)"
  then have "r * g \<le> BudgetGPUs c" "0 \<le> r * g" using assms maxGPUs_budget [of c r g] by auto
  then show False using b assms(3) wrap64_id [of "r * g"] by auto
qed

lemma empty_after_stop:
  assumes "0 < BudgetGPUs c" "maxGPUs c r < 1" "1 \<le> r" "r \<le> r'"
  shows "maxGPUs c r' < 1"
proof (rule ccontr)
  assume "\<not> maxGPUs c r' < 1"
  then have "1 \<le> MaxGPUsPerReplica c" "r' \<le> BudgetGPUs c" using maxGPUs_budget [of c r' 1] assms by auto
  then have "1 \<le> maxGPUs c r" using maxGPUs_budget [of c r 1] assms by auto
  then show False using assms(2) by simp
qed

lemma try_gpus_next:
  assumes "\<forall>g \<in> set gs. \<not> (0 < BudgetGPUs c \<and> BudgetGPUs c < wrap64 (r * g))"
    and "find (\<lambda>g. accepts (at_max ev req c (r, g))) (filter (\<lambda>g. fits_memory c (req g)) gs) = None"
  shows "\<exists>e. try_gpus ev req c r gs st = Some (Next (st\<lparr>lastError := e,
     lastTested := (if filter (\<lambda>g. fits_memory c (req g)) gs = [] then lastTested st
        else Some (snd (at_max ev req c (r, last (filter (\<lambda>g. fits_memory c (req g)) gs)))))\<rparr>))"
  using assms
proof (induction gs arbitrary: st)
  case Nil
  have "st = st\<lparr>lastError := lastError st, lastTested := lastTested st\<rparr>" by simp
  then show ?case by (metis filter.simps(1) try_gpus.simps(1))
next
  case (Cons g gs)
  show ?case
  proof (cases "fits_memory c (req g)")
    case False then show ?thesis using Cons by auto
  next
    case True
    let ?st = "st\<lparr>lastTested := Some (snd (at_max ev req c (r, g))),
      lastError := (case fst (at_max ev req c (r, g)) of Some e \<Rightarrow> Some e | None \<Rightarrow> lastError st)\<rparr>"
    have "\<not> accepts (at_max ev req c (r, g))" using Cons.prems(2) True by (auto split: if_splits)
    then have s: "try_gpus ev req c r (g # gs) st = try_gpus ev req c r gs ?st"
      using True Cons.prems(1) by (auto simp: at_max_def Let_def split: option.splits)
    have "find (\<lambda>g. accepts (at_max ev req c (r, g))) (filter (\<lambda>g. fits_memory c (req g)) gs) = None"
      using Cons.prems(2) True by (auto split: if_splits)
    then obtain e where "try_gpus ev req c r gs ?st = Some (Next (?st\<lparr>lastError := e,
     lastTested := (if filter (\<lambda>g. fits_memory c (req g)) gs = [] then lastTested ?st
        else Some (snd (at_max ev req c (r, last (filter (\<lambda>g. fits_memory c (req g)) gs)))))\<rparr>))"
      using Cons.IH Cons.prems(1) by (metis list.set_intros(2))
    then show ?thesis using True s by (auto intro!: exI [of _ e])
  qed
qed

lemma try_gpus_done:
  assumes "\<forall>g \<in> set gs. \<not> (0 < BudgetGPUs c \<and> BudgetGPUs c < wrap64 (r * g))"
    and "find (\<lambda>g. accepts (at_max ev req c (r, g))) (filter (\<lambda>g. fits_memory c (req g)) gs) = Some g"
  shows "\<exists>st'. try_gpus ev req c r gs st = map_option (\<lambda>best. Done (st'\<lparr>bestConfig := best\<rparr>))
     (minimise ev c (req g) r g (snd (at_max ev req c (r, g))))"
  using assms
proof (induction gs arbitrary: st)
  case Nil then show ?case by simp
next
  case (Cons h gs)
  let ?st = "st\<lparr>lastTested := Some (snd (at_max ev req c (r, h))),
      lastError := (case fst (at_max ev req c (r, h)) of Some e \<Rightarrow> Some e | None \<Rightarrow> lastError st)\<rparr>"
  consider "\<not> fits_memory c (req h)" | "fits_memory c (req h)" "h = g" "accepts (at_max ev req c (r, h))"
    | "fits_memory c (req h)" "\<not> accepts (at_max ev req c (r, h))"
    using Cons.prems(2) by (cases "fits_memory c (req h)") (auto split: if_splits)
  then show ?case
  proof cases
    case 1 then show ?thesis using Cons by auto
  next
    case 2
    then show ?thesis using Cons.prems(1) by (auto simp: at_max_def Let_def accepts_def)
  next
    case 3
    then have "try_gpus ev req c r (h # gs) st = try_gpus ev req c r gs ?st"
      using Cons.prems(1) by (auto simp: at_max_def Let_def split: option.splits)
    then show ?thesis using Cons.IH [of ?st] Cons.prems 3 by auto
  qed
qed

definition space_from :: "(int \<Rightarrow> resource_requirements) \<Rightarrow> gpu_constraints \<Rightarrow> int list \<Rightarrow> (int \<times> int) list" where
  "space_from req c rs = concat (map (\<lambda>r. map (Pair r) (filter (\<lambda>g. fits_memory c (req g)) [1..maxGPUs c r])) rs)"

lemma space_from_Cons:
  "space_from req c (r # rs) = map (Pair r) (filter (\<lambda>g. fits_memory c (req g)) [1..maxGPUs c r]) @ space_from req c rs"
  by (simp add: space_from_def)

lemma space_from_stop:
  "0 < BudgetGPUs c \<Longrightarrow> maxGPUs c r < 1 \<Longrightarrow> 1 \<le> r \<Longrightarrow> \<forall>r' \<in> set rs. r \<le> r' \<Longrightarrow> space_from req c rs = []"
proof (induction rs)
  case Nil then show ?case by (simp add: space_from_def)
next
  case (Cons r' rs)
  then have "maxGPUs c r' < 1" using empty_after_stop [of c r r'] by simp
  then have "[1..maxGPUs c r'] = []" by simp
  moreover have "space_from req c rs = []" using Cons by (meson list.set_intros(2))
  ultimately show ?case by (simp only: space_from_Cons filter.simps list.map append_Nil)
qed

lemma find_append: "find P (xs @ ys) = (case find P xs of Some x \<Rightarrow> Some x | None \<Rightarrow> find P ys)"
  by (induction xs) auto

lemma find_map: "find P (map f xs) = map_option f (find (\<lambda>x. P (f x)) xs)"
  by (induction xs) auto

lemma try_replicas_exhausted:
  assumes "BudgetGPUs c < 2 ^ 63" "sorted rs" "\<forall>r \<in> set rs. 1 \<le> r"
    and "find (\<lambda>p. accepts (at_max ev req c p)) (space_from req c rs) = None"
  shows "\<exists>e. try_replicas ev req c rs st = Some (st\<lparr>lastError := e,
     lastTested := (if space_from req c rs = [] then lastTested st
       else Some (snd (at_max ev req c (last (space_from req c rs)))))\<rparr>)"
  using assms
proof (induction rs arbitrary: st)
  case Nil
  then show ?case by (auto simp: space_from_def intro: exI [of _ "lastError st"])
next
  case (Cons r rs)
  let ?fs = "filter (\<lambda>g. fits_memory c (req g)) [1..maxGPUs c r]"
  show ?case
  proof (cases "0 < BudgetGPUs c \<and> maxGPUs c r < 1")
    case True
    then have "space_from req c (r # rs) = []" using Cons.prems by (intro space_from_stop [of c r]) auto
    then show ?thesis using True by (auto intro: exI [of _ "lastError st"])
  next
    case False
    have nb: "\<forall>g \<in> set [1..maxGPUs c r]. \<not> (0 < BudgetGPUs c \<and> BudgetGPUs c < wrap64 (r * g))"
      using no_break [of _ c r] Cons.prems(1,3) by simp
    have n: "find (\<lambda>g. accepts (at_max ev req c (r, g))) ?fs = None"
      "find (\<lambda>p. accepts (at_max ev req c p)) (space_from req c rs) = None"
      using Cons.prems(4) by (auto simp: space_from_Cons find_append find_map split: option.splits)
    obtain e where e: "try_gpus ev req c r [1..maxGPUs c r] st = Some (Next (st\<lparr>lastError := e,
     lastTested := (if ?fs = [] then lastTested st else Some (snd (at_max ev req c (r, last ?fs))))\<rparr>))"
      (is "_ = Some (Next ?st)") using try_gpus_next [OF nb n(1)] by blast
    obtain e' where "try_replicas ev req c rs ?st = Some (?st\<lparr>lastError := e',
     lastTested := (if space_from req c rs = [] then lastTested ?st
       else Some (snd (at_max ev req c (last (space_from req c rs)))))\<rparr>)"
      using Cons.IH [of ?st] Cons.prems n by auto
    moreover have "(if space_from req c (r # rs) = [] then lastTested st
         else Some (snd (at_max ev req c (last (space_from req c (r # rs)))))) =
       (if space_from req c rs = [] then lastTested ?st
         else Some (snd (at_max ev req c (last (space_from req c rs)))))"
      by (cases "?fs = []") (simp_all add: space_from_Cons last_map)
    ultimately show ?thesis using False e by (simp del: upto.simps) blast
  qed
qed

lemma try_replicas_found:
  assumes "BudgetGPUs c < 2 ^ 63" "sorted rs" "\<forall>r \<in> set rs. 1 \<le> r"
    and "find (\<lambda>p. accepts (at_max ev req c p)) (space_from req c rs) = Some p"
  shows "\<exists>st'. try_replicas ev req c rs st = map_option (\<lambda>best. st'\<lparr>bestConfig := best\<rparr>)
     (minimise ev c (req (snd p)) (fst p) (snd p) (snd (at_max ev req c p)))"
  using assms
proof (induction rs arbitrary: st)
  case Nil then show ?case by (simp add: space_from_def)
next
  case (Cons r rs)
  let ?fs = "filter (\<lambda>g. fits_memory c (req g)) [1..maxGPUs c r]"
  have False: "\<not> (0 < BudgetGPUs c \<and> maxGPUs c r < 1)"
  proof
    assume "0 < BudgetGPUs c \<and> maxGPUs c r < 1"
    then have "space_from req c (r # rs) = []" using Cons.prems by (intro space_from_stop [of c r]) auto
    then show False using Cons.prems(4) by simp
  qed
  have nb: "\<forall>g \<in> set [1..maxGPUs c r]. \<not> (0 < BudgetGPUs c \<and> BudgetGPUs c < wrap64 (r * g))"
    using no_break [of _ c r] Cons.prems(1,3) by simp
  show ?case
  proof (cases "find (\<lambda>g. accepts (at_max ev req c (r, g))) ?fs")
    case None
    then obtain st2 where "try_gpus ev req c r [1..maxGPUs c r] st = Some (Next st2)"
      using try_gpus_next [OF nb None] by blast
    moreover have "find (\<lambda>p. accepts (at_max ev req c p)) (space_from req c rs) = Some p"
      using Cons.prems(4) None by (simp add: space_from_Cons find_append find_map)
    ultimately show ?thesis using False Cons.IH [of st2] Cons.prems by auto
  next
    case (Some g)
    then have p: "p = (r, g)" using Cons.prems(4) by (simp add: space_from_Cons find_append find_map)
    obtain st' where t: "try_gpus ev req c r [1..maxGPUs c r] st = map_option (\<lambda>best. Done (st'\<lparr>bestConfig := best\<rparr>))
     (minimise ev c (req g) r g (snd (at_max ev req c (r, g))))" using try_gpus_done [OF nb Some] by blast
    show ?thesis
      by (cases "minimise ev c (req g) r g (snd (at_max ev req c (r, g)))") (use False t p in auto)
  qed
qed

lemma shrink_result:
  "shrink ev step lo k best = Some y \<Longrightarrow> y = best \<or> (\<exists>k'. fle lo k' \<and> accepts (ev k') \<and> y = snd (ev k'))"
  by (rule shrink.raw_induct [of "\<lambda>ev step lo k best y. y = best \<or> (\<exists>k'. fle lo k' \<and> accepts (ev k') \<and> y = snd (ev k'))"])
     (simp split: if_splits, metis, blast)

section \<open>Evaluators\<close>

text \<open>What the search relies on: an evaluation describes the configuration it was asked for, and
  accepts it only when its latency is good.\<close>

locale config_evaluator =
  fixes ev :: evaluator and good :: "latency_result \<Rightarrow> bool"
  assumes ev_replicas: "Replicas (snd (ev r g k m q)) = r"
    and ev_gpus: "GPUsPerReplica (snd (ev r g k m q)) = g"
    and ev_compute: "RequestedCompute (snd (ev r g k m q)) = k"
    and ev_good: "accepts (ev r g k m q) \<Longrightarrow> good (EstimatedLatency (snd (ev r g k m q)))"
    and ev_error: "fst (ev r g k m q) \<noteq> None \<Longrightarrow> \<not> MeetsConstraints (snd (ev r g k m q))"
begin

lemma minimise_result:
  assumes "accepts (ev r g (MaxThreadPercentage c) m q)"
    and "minimise ev c q r g (snd (ev r g (MaxThreadPercentage c) m q)) = Some y"
  obtains k m' where "accepts (ev r g k m' q)" "y = snd (ev r g k m' q)"
  using assms shrink_result unfolding minimise_def Let_def by (metis option.inject)

lemma search_is_reference:
  assumes "BudgetGPUs c < 2 ^ 63"
  shows "map_option search_result (try_replicas ev req c [1..maxR] start_search) = reference_search ev req c maxR"
proof -
  have sp: "space_from req c [1..maxR] = search_space req c maxR"
    by (simp add: space_from_def search_space_def)
  have ok: "sorted [1..maxR]" "\<forall>r \<in> set [1..maxR]. 1 \<le> r" by auto
  show ?thesis
  proof (cases "find (\<lambda>p. accepts (at_max ev req c p)) (search_space req c maxR)")
    case None
    then obtain e where "try_replicas ev req c [1..maxR] start_search = Some (start_search\<lparr>lastError := e,
     lastTested := (if search_space req c maxR = [] then lastTested start_search
       else Some (snd (at_max ev req c (last (search_space req c maxR)))))\<rparr>)"
      using try_replicas_exhausted [OF assms ok, of ev req] sp by metis
    then show ?thesis using None
      by (auto simp: reference_search_def search_result_def start_search_def zero_config_def)
  next
    case (Some p)
    then obtain st' where t: "try_replicas ev req c [1..maxR] start_search = map_option (\<lambda>best. st'\<lparr>bestConfig := best\<rparr>)
     (minimise ev c (req (snd p)) (fst p) (snd p) (snd (at_max ev req c p)))"
      using try_replicas_found [OF assms ok, of ev req] sp by metis
    have "p \<in> set (search_space req c maxR)" "accepts (at_max ev req c p)"
      using Some by (auto simp: find_Some_iff)
    then have "1 \<le> fst p" "accepts (at_max ev req c p)" using search_space_iff by (metis prod.collapse)+
    then have "Replicas y \<noteq> 0" if "minimise ev c (req (snd p)) (fst p) (snd p) (snd (at_max ev req c p)) = Some y" for y
      using minimise_result that ev_replicas unfolding at_max_def by (metis not_one_le_zero)
    then show ?thesis using Some t
      by (cases "minimise ev c (req (snd p)) (fst p) (snd p) (snd (at_max ev req c p))")
         (auto simp: reference_search_def search_result_def)
  qed
qed

end

section \<open>The evaluation is such an evaluator\<close>

text \<open>What the targets ask of an estimate: no latency is above its target, if it has one. A NaN is above
  nothing.\<close>

definition not_above :: "f64 option \<Rightarrow> f64 \<Rightarrow> bool" where
  "not_above target x = (case target of None \<Rightarrow> True | Some t \<Rightarrow> \<not> fgt x t)"

definition targets_hold :: "latency_targets option \<Rightarrow> latency_result \<Rightarrow> bool" where
  "targets_hold targets r = (case targets of None \<Rightarrow> True | Some t \<Rightarrow>
     not_above (TargetE2E t) (E2E r) \<and> not_above (TargetTTFT t) (TTFT r) \<and> not_above (TargetITL t) (ITL r))"

lemma meetsAllTargets_iff: "meetsAllTargets targets r \<longleftrightarrow> targets_hold targets r"
  by (simp add: meetsAllTargets_def targets_hold_def not_above_def split: option.split)

definition good_latency :: "latency_targets option \<Rightarrow> latency_result \<Rightarrow> bool" where
  "good_latency targets r \<longleftrightarrow> targets_hold targets r \<and> \<not> fge (Utilization r) (Fin 1)"

interpretation opt: config_evaluator "evaluate_with pf s qa targets" "good_latency targets"
  for pf s qa targets
proof unfold_locales
  fix r g :: int and k :: f64 and m :: int and q :: resource_requirements
  let ?l = "estimateLatency (latencyEstimator s) (avgPromptTokens s) (avgOutputTokens s) g
    (CalculateResourceAllocationImpact s (fdiv (ThreadOccupancy q) k))"
  let ?e = "evaluate_with pf s qa targets r g k m q"
  obtain e l where a: "AddQueuingResults pf qa r ?l = (e, l)" by (cases "AddQueuingResults pf qa r ?l")
  show "Replicas (snd ?e) = r" "GPUsPerReplica (snd ?e) = g" "RequestedCompute (snd ?e) = k"
    using a by (auto simp: evaluate_with_def Let_def split: option.splits)
  show "good_latency targets (EstimatedLatency (snd ?e))" if "accepts ?e"
    using a that AddQueuingResults_utilization [of pf qa r ?l]
    by (auto simp: evaluate_with_def accepts_def good_latency_def meetsAllTargets_iff Let_def split: option.splits)
  show "\<not> MeetsConstraints (snd ?e)" if "fst ?e \<noteq> None"
    using a that by (auto simp: evaluate_with_def Let_def split: option.splits)
qed

text \<open>The space and the evaluator of one call.\<close>

definition requirements :: "(f64 \<Rightarrow> f64 \<Rightarrow> f64) \<Rightarrow> resource_optimizer \<Rightarrow> int \<Rightarrow> resource_requirements" where
  "requirements pf s = CalculateResourceRequirementsPerGPU pf (resourceEstimator s) (avgPromptTokens s)
     (avgOutputTokens s) (prefixCacheHitRate s)"

definition space :: "(f64 \<Rightarrow> f64 \<Rightarrow> f64) \<Rightarrow> resource_optimizer \<Rightarrow> (int \<times> int) list" where
  "space pf s = search_space (requirements pf s) (gpuConstraints s) (maxReplicas s)"

definition feasible :: "(f64 \<Rightarrow> f64 \<Rightarrow> f64) \<Rightarrow> resource_optimizer \<Rightarrow> f64 \<Rightarrow> latency_targets option \<Rightarrow> int \<times> int \<Rightarrow> bool" where
  "feasible pf s rate targets p =
     accepts (at_max (evaluate_with pf s (NewQueueAnalyzer rate) targets) (requirements pf s) (gpuConstraints s) p)"

lemma evaluate_with_state:
  "evaluate_with pf (s\<lparr>o_arrivalRate := rate, queueAnalyzer := q\<rparr>) = evaluate_with pf s"
proof -
  let ?s = "s\<lparr>o_arrivalRate := rate, queueAnalyzer := q\<rparr>"
  have e: "resourceEstimator ?s = resourceEstimator s" "latencyEstimator ?s = latencyEstimator s"
    "avgPromptTokens ?s = avgPromptTokens s" "avgOutputTokens ?s = avgOutputTokens s" by simp_all
  show ?thesis
    unfolding fun_eq_iff evaluate_with_def CalculateResourceAllocationImpact_def e by (intro allI refl)
qed

lemma FindOptimal_reference:
  assumes "BudgetGPUs (gpuConstraints s) < 2 ^ 63"
  shows "map_option fst (FindOptimalConfiguration pf s rate targets) =
    reference_search (evaluate_with pf s (NewQueueAnalyzer rate) targets) (requirements pf s)
      (gpuConstraints s) (maxReplicas s)"
  using opt.search_is_reference [OF assms, of pf s "NewQueueAnalyzer rate" targets]
  by (simp add: FindOptimalConfiguration_def Let_def evaluate_with_state requirements_def option.map_comp comp_def)

text \<open>The three outcomes of a search that returns.\<close>

lemma FindOptimal_cases:
  assumes "BudgetGPUs (gpuConstraints s) < 2 ^ 63" "FindOptimalConfiguration pf s rate targets = Some (res, s')"
  obtains (found) p k m cfg where "find (feasible pf s rate targets) (space pf s) = Some p" "res = Ok cfg"
      "accepts (evaluate_with pf s (NewQueueAnalyzer rate) targets (fst p) (snd p) k m (requirements pf s (snd p)))"
      "cfg = snd (evaluate_with pf s (NewQueueAnalyzer rate) targets (fst p) (snd p) k m (requirements pf s (snd p)))"
  | (infeasible) "find (feasible pf s rate targets) (space pf s) = None" "space pf s \<noteq> []"
      "res = Ok (snd (at_max (evaluate_with pf s (NewQueueAnalyzer rate) targets) (requirements pf s)
         (gpuConstraints s) (last (space pf s))))"
  | (empty) "space pf s = []" "res = Fail ''no configuration found within search space''"
proof -
  let ?ev = "evaluate_with pf s (NewQueueAnalyzer rate) targets" and ?c = "gpuConstraints s"
    and ?req = "requirements pf s"
  have r: "reference_search ?ev ?req ?c (maxReplicas s) = Some res"
    using FindOptimal_reference [OF assms(1), of pf rate targets] assms(2) by simp
  have f: "(\<lambda>p. accepts (at_max ?ev ?req ?c p)) = feasible pf s rate targets"
    by (simp add: feasible_def fun_eq_iff)
  show thesis
  proof (cases "find (feasible pf s rate targets) (space pf s)")
    case None
    then show thesis using r infeasible empty
      by (cases "space pf s = []") (simp_all add: reference_search_def f space_def [symmetric])
  next
    case (Some p)
    then obtain cfg where cfg: "res = Ok cfg"
      "minimise ?ev ?c (?req (snd p)) (fst p) (snd p) (snd (at_max ?ev ?req ?c p)) = Some cfg"
      using r by (auto simp: reference_search_def f space_def [symmetric])
    have "accepts (at_max ?ev ?req ?c p)" using Some by (auto simp: find_Some_iff feasible_def)
    then show thesis using opt.minimise_result cfg found [OF Some cfg(1)] unfolding at_max_def by metis
  qed
qed

section \<open>Termination of the shrinking\<close>

text \<open>If the step is at least \<open>1 / 2 ^ k\<close> and the compute request at most \<open>2 ^ (53 - k)\<close>, one
  subtraction lowers the request past a multiple of \<open>1 / 2 ^ k\<close>, whatever the rounding.\<close>

lemma wf64_grid:
  assumes "k \<le> 53" "\<bar>n\<bar> \<le> 2 ^ 53"
  shows "wf64 (Fin (of_int n / 2 ^ k))"
proof -
  have "(of_int \<bar>n\<bar> :: rat) \<le> of_int (2 ^ 53)" using assms(2) by (simp only: of_int_le_iff)
  then have n: "\<bar>of_int n :: rat\<bar> \<le> 2 ^ 53" by simp
  have e: "of_int n / 2 ^ k = of_int n * (2::rat) powi (- int k)" by (simp add: power_int_minus field_simps)
  have "rep (of_int n / 2 ^ k)" unfolding e using assms by (intro rep_dyadic [of _ n "- int k"]) auto
  moreover have "\<bar>of_int n\<bar> / 2 ^ k \<le> \<bar>of_int n :: rat\<bar> / 1" by (intro divide_left_mono) auto
  then have "\<bar>of_int n\<bar> / 2 ^ k < (2::rat) ^ 1024" using n by (auto intro: order.strict_trans1)
  ultimately show ?thesis by (simp add: wf64_def)
qed

lemma shrink_returns:
  assumes "k \<le> 53" "1 / 2 ^ k \<le> st" "lo = NaN \<or> fle (Fin (of_int l / 2 ^ k)) lo" "- (2 ^ 53) < l"
    and "c = NaN \<or> fle c (Fin (of_int n / 2 ^ k))" "n \<le> 2 ^ 53"
  shows "\<exists>y. shrink ev (Fin st) lo c best = Some y"
  using assms(5,6)
proof (induction "nat (n - l + 1)" arbitrary: n c best rule: less_induct)
  case less
  show ?case
  proof (cases "fle lo c \<and> accepts (ev c)")
    case False then show ?thesis by (subst shrink.simps) auto
  next
    case True
    then have c: "c \<noteq> NaN" "lo \<noteq> NaN" by (auto simp: fle_def feq_def)
    then have lc: "fle (Fin (of_int l / 2 ^ k)) c" "fle c (Fin (of_int n / 2 ^ k))"
      using True assms(3) less.prems fle_trans by blast+
    then obtain q where q: "c = Fin q" "of_int l / 2 ^ k \<le> q" "q \<le> of_int n / 2 ^ k"
      by (cases c) (auto simp: fle_def feq_def)
    have "(of_int l / 2 ^ k :: rat) \<le> of_int n / 2 ^ k" using q by simp
    then have ln: "l \<le> n" by (simp add: divide_le_cancel)
    have "wf64 (Fin (of_int (n - 1) / 2 ^ k))" using ln assms(1,4) less.prems(2) by (intro wf64_grid) auto
    moreover have "q - st \<le> of_int (n - 1) / 2 ^ k" using q(3) assms(2) by (simp add: diff_divide_distrib)
    ultimately have "fle (fsub c (Fin st)) (Fin (of_int (n - 1) / 2 ^ k))"
      using q(1) by (simp add: fsub_def rnd_le_Fin)
    moreover have "nat (n - 1 - l + 1) < nat (n - l + 1)" using ln by simp
    ultimately have "\<exists>y. shrink ev (Fin st) lo (fsub c (Fin st)) (snd (ev c)) = Some y"
      using less.hyps [of "n - 1" "fsub c (Fin st)" "snd (ev c)"] less.prems(2) by simp
    then show ?thesis using True by (subst shrink.simps) simp
  qed
qed

lemma fmax_lower: "fmax a (Fin l) = NaN \<or> fle (Fin l) (fmax a (Fin l))"
  by (cases a) (auto simp: fmax_def fle_inf)

text \<open>A step of zero: the request never changes, and an accepted one is evaluated for ever.\<close>

lemma shrink_diverges:
  assumes "wf64 (Fin q)" "fle lo (Fin q)" "accepts (ev (Fin q))"
  shows "shrink ev (Fin 0) lo (Fin q) best = None"
proof (cases "shrink ev (Fin 0) lo (Fin q) best")
  case (Some y)
  have q: "fsub (Fin q) (Fin 0) = Fin q" using assms(1) by (simp add: fsub_def rnd_rep wf64_def)
  have "\<not> (Fin 0 = Fin 0 \<and> Fin q = Fin q \<and> fle lo (Fin q) \<and> accepts (ev (Fin q)))"
    by (rule shrink.raw_induct [of "\<lambda>ev' step lo' k best y.
          \<not> (step = Fin 0 \<and> k = Fin q \<and> fle lo' k \<and> accepts (ev' k))", OF _ Some])
       (auto simp: q split: if_splits)
  then show ?thesis using assms by simp
qed simp

text \<open>Where the shrinking stops, the next smaller request is too small or not accepted.\<close>

lemma shrink_stop:
  "shrink ev step lo k best = Some y \<Longrightarrow>
   \<exists>k'. (k' = k \<and> y = best \<or> (\<exists>k0. k' = fsub k0 step \<and> accepts (ev k0) \<and> y = snd (ev k0))) \<and>
     \<not> (fle lo k' \<and> accepts (ev k'))"
proof (rule shrink.raw_induct [of "\<lambda>ev step lo k best y.
   \<exists>k'. (k' = k \<and> y = best \<or> (\<exists>k0. k' = fsub k0 step \<and> accepts (ev k0) \<and> y = snd (ev k0))) \<and>
     \<not> (fle lo k' \<and> accepts (ev k'))"])
  fix f ev step lo k best y
  assume IH: "\<And>ev step lo k best y. f ev step lo k best = Some y \<Longrightarrow>
      \<exists>k'. (k' = k \<and> y = best \<or> (\<exists>k0. k' = fsub k0 step \<and> accepts (ev k0) \<and> y = snd (ev k0))) \<and>
        \<not> (fle lo k' \<and> accepts (ev k'))"
    and eq: "(if fge k lo then if accepts (ev k) then f ev step lo (fsub k step) (snd (ev k)) else Some best
       else Some best) = Some y"
  show "\<exists>k'. (k' = k \<and> y = best \<or> (\<exists>k0. k' = fsub k0 step \<and> accepts (ev k0) \<and> y = snd (ev k0))) \<and>
     \<not> (fle lo k' \<and> accepts (ev k'))"
  proof (cases "fle lo k \<and> accepts (ev k)")
    case True
    then have "f ev step lo (fsub k step) (snd (ev k)) = Some y" using eq by simp
    from IH [OF this] show ?thesis using True by blast
  next
    case False then show ?thesis using eq by (auto split: if_splits)
  qed
qed

section \<open>The impact of an allocation\<close>

lemma lit_08: "lit (4 / 5) = Fin (3602879701896397 / 4503599627370496)"
  by (simp add: f64_eval)

lemma lit_half: "lit (1 / 2) = Fin (1 / 2)"
  by (simp add: f64_eval)

text \<open>The three branches on a ratio clamped to the unit interval.\<close>

definition impact_of :: "rat \<Rightarrow> rat \<Rightarrow> rat \<Rightarrow> f64" where
  "impact_of sp u x =
     (if x < 1 / 2 then fmul (fneg (rnd (1 - x))) (Fin sp)
      else if 3602879701896397 / 4503599627370496 < x then fmul (rnd (x - 3602879701896397 / 4503599627370496)) (Fin u)
      else Fin 0)"

lemma impact_clamped:
  assumes "OverprovisionSpeedUp (gpuSpec (resourceEstimator s)) = Fin sp"
    and "UnderprovisionContentionImpact (gpuSpec (resourceEstimator s)) = Fin u" and "ratio \<noteq> NaN"
  shows "\<exists>x. 0 \<le> x \<and> x \<le> 1 \<and> CalculateResourceAllocationImpact s ratio = impact_of sp u x \<and>
    (\<forall>r'. fle ratio r' \<longrightarrow> (\<exists>x'. x \<le> x' \<and> x' \<le> 1 \<and> CalculateResourceAllocationImpact s r' = impact_of sp u x'))"
proof -
  let ?clamp = "\<lambda>r. case r of PInf \<Rightarrow> 1 | Fin q \<Rightarrow> max 0 (min 1 q) | _ \<Rightarrow> (0::rat)"
  have c: "CalculateResourceAllocationImpact s r = impact_of sp u (?clamp r)" if "r \<noteq> NaN" for r
    using assms(1,2) that
    by (cases r) (auto simp: CalculateResourceAllocationImpact_def impact_of_def Let_def lit_08 lit_half fsub_def)
  have "?clamp ratio \<le> ?clamp r'" if "fle ratio r'" for r'
    using that assms(3) by (cases ratio; cases r') (auto simp: fle_def feq_def)
  moreover have "0 \<le> ?clamp ratio" "\<And>r. ?clamp r \<le> 1" by (auto split: f64.split)
  moreover have "r' \<noteq> NaN" if "fle ratio r'" for r' using that by auto
  ultimately show ?thesis using c assms(3) by (intro exI [of _ "?clamp ratio"]) blast
qed

lemma impact_of_low:
  assumes "0 \<le> x" "x < 1 / 2"
  obtains a where "rnd (1 - x) = Fin a" "0 \<le> a" "a \<le> 1" "impact_of sp u x = rnd (- (a * sp))"
proof -
  obtain a where a: "rnd (1 - x) = Fin a" "0 \<le> a" "a \<le> 1" using rnd_unit [of "1 - x"] assms by auto
  then show thesis using assms(2) that by (simp add: impact_of_def)
qed

lemma impact_of_high:
  assumes "3602879701896397 / 4503599627370496 < x" "x \<le> 1"
  obtains a where "rnd (x - 3602879701896397 / 4503599627370496) = Fin a" "0 \<le> a" "a \<le> 1"
    "impact_of sp u x = rnd (a * u)"
proof -
  obtain a where a: "rnd (x - 3602879701896397 / 4503599627370496) = Fin a" "0 \<le> a" "a \<le> 1"
    using rnd_unit [of "x - 3602879701896397 / 4503599627370496"] assms by auto
  then show thesis using assms(1) that by (simp add: impact_of_def)
qed

lemma impact_of_bounds:
  assumes "0 \<le> x" "x \<le> 1" "0 \<le> sp" "0 \<le> u" "wf64 (Fin sp)" "wf64 (Fin u)"
  shows "fle (Fin (- sp)) (impact_of sp u x)" "fle (impact_of sp u x) (Fin u)"
    "x < 1 / 2 \<Longrightarrow> fle (impact_of sp u x) (Fin 0)" "\<not> x < 1 / 2 \<Longrightarrow> fle (Fin 0) (impact_of sp u x)"
proof -
  have ns: "wf64 (Fin (- sp))" using assms(5) by (simp add: wf64_def)
  consider (lo) "x < 1 / 2" | (mid) "\<not> x < 1 / 2" "\<not> 3602879701896397 / 4503599627370496 < x"
    | (hi) "\<not> x < 1 / 2" "3602879701896397 / 4503599627370496 < x" by blast
  then have "fle (Fin (- sp)) (impact_of sp u x) \<and> fle (impact_of sp u x) (Fin u) \<and>
    (x < 1 / 2 \<longrightarrow> fle (impact_of sp u x) (Fin 0)) \<and> (\<not> x < 1 / 2 \<longrightarrow> fle (Fin 0) (impact_of sp u x))"
  proof cases
    case lo
    obtain a where a: "0 \<le> a" "a \<le> 1" "impact_of sp u x = rnd (- (a * sp))"
      using impact_of_low [OF assms(1) lo] by metis
    have m: "a * sp \<le> sp" "0 \<le> a * sp" using a assms(3) by (auto simp: mult_left_le_one_le)
    have z: "fle (rnd (- (a * sp))) (Fin 0)" using m by (intro rnd_le_Fin) (auto simp: wf64_def)
    then have "fle (rnd (- (a * sp))) (Fin u)" using assms(4) fle_trans [OF z, of "Fin u"] by simp
    then show ?thesis using a(3) lo z m ns rnd_ge_Fin [of "- sp" "- (a * sp)"] by simp
  next
    case mid then show ?thesis using assms by (simp add: impact_of_def)
  next
    case hi
    obtain a where a: "0 \<le> a" "a \<le> 1" "impact_of sp u x = rnd (a * u)"
      using impact_of_high [OF hi(2) assms(2)] by metis
    have m: "a * u \<le> u" "0 \<le> a * u" using a assms(4) by (auto simp: mult_left_le_one_le)
    have z: "fle (Fin 0) (rnd (a * u))" using m by (intro rnd_ge_Fin) (auto simp: wf64_def)
    then have "fle (Fin (- sp)) (rnd (a * u))" using assms(3) fle_trans [of "Fin (- sp)" "Fin 0"] by simp
    then show ?thesis using a(3) hi z m assms(6) rnd_le_Fin [of "a * u" u] by simp
  qed
  then show "fle (Fin (- sp)) (impact_of sp u x)" "fle (impact_of sp u x) (Fin u)"
    "x < 1 / 2 \<Longrightarrow> fle (impact_of sp u x) (Fin 0)" "\<not> x < 1 / 2 \<Longrightarrow> fle (Fin 0) (impact_of sp u x)" by auto
qed

lemma impact_of_mono:
  assumes "0 \<le> x" "x \<le> y" "y \<le> 1" "0 \<le> sp" "0 \<le> u" "wf64 (Fin sp)" "wf64 (Fin u)"
  shows "fle (impact_of sp u x) (impact_of sp u y)"
proof -
  note bx = impact_of_bounds [OF assms(1) order_trans [OF assms(2,3)] assms(4-7)]
  note bn = impact_of_bounds [OF order_trans [OF assms(1,2)] assms(3,4-7)]
  consider (ll) "y < 1 / 2" | (lh) "x < 1 / 2" "\<not> y < 1 / 2"
    | (m) "\<not> x < 1 / 2" "\<not> 3602879701896397 / 4503599627370496 < x"
    | (hh) "3602879701896397 / 4503599627370496 < x" by blast
  then show ?thesis
  proof cases
    case ll
    then have l: "x < 1 / 2" "0 \<le> y" using assms by auto
    obtain a b where a: "rnd (1 - x) = Fin a" "impact_of sp u x = rnd (- (a * sp))"
      and b: "rnd (1 - y) = Fin b" "impact_of sp u y = rnd (- (b * sp))"
      using impact_of_low [OF assms(1) l(1)] impact_of_low [OF l(2) ll] by metis
    have "b \<le> a" using rnd_mono [of "1 - y" "1 - x"] a(1) b(1) assms(2) by simp
    then show ?thesis unfolding a(2) b(2) using assms(4) by (intro rnd_mono) (simp add: mult_right_mono)
  next
    case lh then show ?thesis using bx(3) bn(4) fle_trans by blast
  next
    case m
    then have "\<not> y < 1 / 2" "impact_of sp u x = Fin 0" using assms(2) by (auto simp: impact_of_def)
    then show ?thesis using bn(4) by simp
  next
    case hh
    then have h: "3602879701896397 / 4503599627370496 < y" "x \<le> 1" using assms by auto
    obtain a b where a: "rnd (x - 3602879701896397 / 4503599627370496) = Fin a" "impact_of sp u x = rnd (a * u)"
      and b: "rnd (y - 3602879701896397 / 4503599627370496) = Fin b" "impact_of sp u y = rnd (b * u)"
      using impact_of_high [OF hh h(2)] impact_of_high [OF h(1) assms(3)] by metis
    have "a \<le> b" using rnd_mono [of "x - 3602879701896397 / 4503599627370496" "y - 3602879701896397 / 4503599627370496"]
      a(1) b(1) assms(2) by simp
    then show ?thesis unfolding a(2) b(2) using assms(5) by (intro rnd_mono) (simp add: mult_right_mono)
  qed
qed

text \<open>A GPU specification as the registry has them.\<close>

definition sane_gpu :: "gpu_specs \<Rightarrow> rat \<Rightarrow> rat \<Rightarrow> bool" where
  "sane_gpu g sp u \<longleftrightarrow> OverprovisionSpeedUp g = Fin sp \<and> UnderprovisionContentionImpact g = Fin u \<and>
     0 \<le> sp \<and> 0 \<le> u \<and> wf64 (Fin sp) \<and> wf64 (Fin u)"

lemma impact_range:
  assumes "sane_gpu (gpuSpec (resourceEstimator s)) sp u" "ratio \<noteq> NaN"
  shows "fle (Fin (- sp)) (CalculateResourceAllocationImpact s ratio)"
    "fle (CalculateResourceAllocationImpact s ratio) (Fin u)"
  using impact_clamped [of s sp u ratio] impact_of_bounds [of _ sp u] assms
  by (auto simp: sane_gpu_def)

lemma impact_mono:
  assumes "sane_gpu (gpuSpec (resourceEstimator s)) sp u" "fle ratio ratio'"
  shows "fle (CalculateResourceAllocationImpact s ratio) (CalculateResourceAllocationImpact s ratio')"
proof -
  have "ratio \<noteq> NaN" using assms(2) by auto
  then obtain x x' where "0 \<le> x" "x \<le> x'" "x' \<le> 1" "CalculateResourceAllocationImpact s ratio = impact_of sp u x"
    "CalculateResourceAllocationImpact s ratio' = impact_of sp u x'"
    using impact_clamped [of s sp u ratio] assms by (auto simp: sane_gpu_def)
  moreover have "0 \<le> sp" "0 \<le> u" "wf64 (Fin sp)" "wf64 (Fin u)" using assms(1) by (auto simp only: sane_gpu_def)
  ultimately show ?thesis using impact_of_mono [of x x' sp u] by metis
qed

end
