(* ===== verification/Estimator_Properties.thy ===== *)
theory Estimator_Properties
  imports Latency_Estimator
begin

text \<open>
  The properties of the queue analysis, the resource estimator and the latency estimator, with their
  witnesses.
\<close>

section \<open>Queue analysis\<close>

text \<open>C40: For up to 127 replicas and any offered load below the replica count, the Erlang computation
  neither overflows nor leaves the unit interval in float64: it yields a probability.\<close>

theorem erlangC_is_probability:
  assumes "0 \<le> q" "q < of_nat n" "rep q" "n \<le> 127"
  shows "\<exists>r. erlangC pf (Fin q) (i2f (int n)) = Fin r \<and> 0 \<le> r \<and> r \<le> 1"
  by (rule erlangC_unit [OF assms])

theorem erlangC_is_probability_witness:
  "\<exists>r. erlangC (\<lambda>_ _. NaN) (Fin (3 / 2)) (i2f 2) = Fin r \<and> 0 \<le> r \<and> r \<le> 1"
proof -
  have "rep (3 / 2)" using rep_dyadic [of "3 / 2" 3 "-1"] by (simp add: power_int_minus)
  from erlangC_is_probability [OF _ _ this, of 2 "\<lambda>_ _. NaN"] show ?thesis by simp
qed








text \<open>With two replicas the same formula can give a negative wait: there is a stable input whose
  estimated end-to-end latency is below its own service time.\<close>

lemma two_replicas_negative_wait:
  "\<exists>r r'. ServiceTime r = Fin 1000 \<and>
     AddQueuingResults pf (NewQueueAnalyzer (Fin (3 / 2))) 2 r = (None, r') \<and> flt (E2E r') (ServiceTime r)"
  by (rule multi_server_negative_wait)

section \<open>Latency estimates\<close>

text \<open>Built from a hint with non-negative layer and head counts, the estimator never gives a negative
  latency, whatever offsets the tuning has set and whatever the allocation impact is.\<close>

lemma latency_estimates_nonneg:
  assumes "NewLatencyEstimatorWithHint h p g = Ok r" "0 \<le> Layers p" "0 \<le> KVHeads p" "Layers p * KVHeads p < 2 ^ 63"
    and "0 \<le> gpus" "0 \<le> out" "l = estimateLatency (le_SetLatencyOffsets r itl ttft) prompt out gpus impact"
  shows "nonneg (ITL l) \<and> nonneg (Prefill l) \<and> nonneg (Decode l) \<and> nonneg (ServiceTime l)"
proof -
  have "kernelOverhead (le_SetLatencyOffsets r itl ttft) = kernelOverhead r" by (simp add: le_SetLatencyOffsets_def)
  then have "nonneg (kernelOverhead (le_SetLatencyOffsets r itl ttft))" using kernelOverhead_nonneg [OF assms(1-4)] by simp
  then show ?thesis using estimateLatency_nonneg [of "le_SetLatencyOffsets r itl ttft" gpus out] assms(5,6) unfolding assms(7) by blast
qed

theorem latency_estimates_nonneg_witness:
  "\<exists>r. NewLatencyEstimatorWithHint
     \<lparr>ModelID = [], ModelParams = None, BatchSize = 1, MaxNumSeqs = 10, MaxNumBatchedTokens = None,
      PrefixCacheHitRate = Fin 0, KVCacheSpeedup = Fin 1, GPUName = []\<rparr> (arch (Fin 8) 32 8 4096 32 2) a100_spec = Ok r \<and>
     nonneg (ITL (estimateLatency (le_SetLatencyOffsets r (Fin (- 500)) (Fin (- 900))) 100 10 1 (Fin 0)))"
proof -
  have "\<exists>r. NewLatencyEstimatorWithHint
     \<lparr>ModelID = [], ModelParams = None, BatchSize = 1, MaxNumSeqs = 10, MaxNumBatchedTokens = None,
      PrefixCacheHitRate = Fin 0, KVCacheSpeedup = Fin 1, GPUName = []\<rparr> (arch (Fin 8) 32 8 4096 32 2) a100_spec = Ok r"
    using NewLatencyEstimator_panics [of _ "arch (Fin 8) 32 8 4096 32 2" a100_spec] by (metis arch_def arch_params.select_convs(5) old.sum.exhaust zero_neq_numeral)
  then obtain r where r: "NewLatencyEstimatorWithHint
     \<lparr>ModelID = [], ModelParams = None, BatchSize = 1, MaxNumSeqs = 10, MaxNumBatchedTokens = None,
      PrefixCacheHitRate = Fin 0, KVCacheSpeedup = Fin 1, GPUName = []\<rparr> (arch (Fin 8) 32 8 4096 32 2) a100_spec = Ok r" ..
  from latency_estimates_nonneg [OF r _ _ _ _ _ refl, of 1 10 "Fin (- 500)" "Fin (- 900)" 100 "Fin 0"]
  show ?thesis using r by (auto simp: arch_def)
qed

text \<open>Constructing either estimator panics exactly when the parameters give zero query heads (an
  integer division by zero); every other hint succeeds.\<close>

lemma estimators_panic_iff:
  "(is_ok (NewResourceEstimatorWithArchParam gs m g b t p) \<longleftrightarrow> QueryHeads p \<noteq> 0) \<and>
   (is_ok (NewLatencyEstimatorWithHint h p spec) \<longleftrightarrow> QueryHeads p \<noteq> 0)"
  by (auto simp: NewResourceEstimatorWithArchParam_def mk_estimator_def estimateMemoryPerTokenFromID_def
      NewLatencyEstimatorWithHint_def calculateKVCacheBytesPerToken_def go_div_def Let_def)

section \<open>Resource estimates\<close>

text \<open>The occupancy is NaN or a percentage between 0 and 100 for every non-negative workload.\<close>

lemma occupancy_percent:
  assumes "0 \<le> MinThreads (complexity r)" "0 \<le> MaxThreads (gpuSpec r) * n" "MaxThreads (gpuSpec r) * n < 2 ^ 63"
    and "nonneg batch" "nonneg prefill" "occ = estimateThreadOccupancy r batch prefill n"
  shows "occ = NaN \<or> fle (Fin 0) occ \<and> fle occ (Fin 100)"
proof -
  have w: "wrap64 (MaxThreads (gpuSpec r) * n) = MaxThreads (gpuSpec r) * n" using assms(2,3) by (intro wrap64_id) auto
  have mx: "nonneg (fmax a b)" if "nonneg a" "nonneg b" for a b using that by (auto simp: fmax_def)
  let ?x = "fmul (fdiv (fmax (fmul prefill (i2f (MinThreads (complexity r)))) (fmul batch (i2f (MinThreads (complexity r)))))
      (i2f (wrap64 (MaxThreads (gpuSpec r) * n)))) (Fin 100)"
  have "nonneg ?x"
    using assms(1,2,4,5) unfolding w by (intro nonneg_mul nonneg_div nonneg_i2f mx) auto
  then have x: "?x = NaN \<or> fle (Fin 0) ?x" by (simp add: nonneg_iff fnn_iff)
  have occ: "occ = (if fgt ?x (Fin 100) then Fin 100 else ?x)"
    unfolding assms(6) estimateThreadOccupancy_def Let_def ..
  show ?thesis
  proof (cases "fgt ?x (Fin 100)")
    case True then show ?thesis unfolding occ by simp
  next
    case False
    then have "?x \<noteq> NaN \<Longrightarrow> fle ?x (Fin 100)" using not_flt [of "Fin 100" ?x] by simp
    then show ?thesis using x False unfolding occ by auto
  qed
qed

definition sample_estimator :: resource_estimator where
  "sample_estimator = \<lparr>re_modelID = [], validParamsInBillions = False, paramsFound = False,
     params = arch (Fin 8) 32 8 4096 32 2, complexity = estimateModelComplexity (Fin 8) 4096,
     effectiveBatchSize = Fin 1, maxNumBatchedTokens = None, modelSize = Fin 16, memoryPerToken = Fin 131072,
     activeMemoryPerPerfillToken = Fin 40960, gpuFound = False, gpuSpec = a100_spec,
     memoryOverheadFactor = lit (12 / 10), minMemoryUsage = Fin 0\<rparr>"

theorem occupancy_percent_witness:
  "estimateThreadOccupancy sample_estimator (Fin 4) (Fin 1000) 2 = NaN \<or>
   fle (Fin 0) (estimateThreadOccupancy sample_estimator (Fin 4) (Fin 1000) 2) \<and>
   fle (estimateThreadOccupancy sample_estimator (Fin 4) (Fin 1000) 2) (Fin 100)"
  by (rule occupancy_percent [OF _ _ _ _ _ refl])
     (simp_all add: sample_estimator_def a100_spec_def estimateModelComplexity_def)

section \<open>Memory is sharded\<close>

lemma fmul_comm: "fmul a b = fmul b a"
  by (cases a; cases b) (auto simp: mult.commute inf_of_def)

lemma fdiv_NaN: "fdiv a b \<noteq> NaN \<Longrightarrow> a \<noteq> NaN \<and> b \<noteq> NaN"
  by (cases a; cases b) auto

lemma fdiv_mono_left:
  "fle a b \<Longrightarrow> 0 < d \<Longrightarrow> fle (fdiv a (Fin d)) (fdiv b (Fin d))"
  by (cases a; cases b) (auto simp: inf_of_def fle_inf fle_PInf_iff fle_NInf_iff intro!: rnd_mono divide_right_mono)

lemma fdiv_antimono_right:
  "nonneg a \<Longrightarrow> a \<noteq> NaN \<Longrightarrow> 0 < d \<Longrightarrow> d \<le> d' \<Longrightarrow> fle (fdiv a (Fin d')) (fdiv a (Fin d))"
  by (cases a) (auto simp: inf_of_def intro!: rnd_mono divide_left_mono mult_pos_pos)

lemma fadd_mono:
  assumes "fle a b" "fle c d" "fadd a c \<noteq> NaN" "fadd b d \<noteq> NaN" "nonneg b" "nonneg c"
  shows "fle (fadd a c) (fadd b d)"
proof -
  have "a \<noteq> NaN \<and> c \<noteq> NaN" "b \<noteq> NaN \<and> d \<noteq> NaN" using fadd_NaN assms(3,4) by blast+
  then have bc: "fadd b c \<noteq> NaN" using assms(5,6) unfolding nonneg_iff by (cases b; cases c) auto
  have "fle (fadd a c) (fadd b c)" using fadd_mono_left [OF assms(1) _ assms(3) bc] fadd_NaN [OF assms(3)] by simp
  moreover have "fle (fadd b c) (fadd b d)"
    using fadd_mono_left [OF assms(2), of b] bc assms(4) fadd_NaN [OF assms(4)] by (simp add: fadd_comm)
  ultimately show ?thesis by (rule fle_trans)
qed

text \<open>Spreading a replica over more GPUs never raises the estimated memory per GPU: model weights, KV
  cache, activations and attention buffers are all divided among them.\<close>

lemma memory_sharding:
  assumes "0 < g" "g \<le> g'" "g' \<le> 2 ^ 53"
    and "nonneg (modelSize r)" "nonneg (memoryOverheadFactor r)"
    and "nonneg (fmul (fmul (effectiveBatchSize r) (fmul (i2f (wrap64 (p + out))) (effectiveBatchSize r))) (memoryPerToken r))"
    and "nonneg (fmul (activeMemoryPerPerfillToken r) prefill)" "nonneg (estimateAttentionMemory pf r p prefill)"
    and "mem = estimateMemoryUsage pf r p out prefill" "mem g \<noteq> NaN" "mem g' \<noteq> NaN"
  shows "fle (mem g') (mem g)"
proof -
  let ?kv = "fmul (fmul (effectiveBatchSize r) (fmul (i2f (wrap64 (p + out))) (effectiveBatchSize r))) (memoryPerToken r)"
  let ?act = "fmul (activeMemoryPerPerfillToken r) prefill" and ?att = "estimateAttentionMemory pf r p prefill"
  let ?w = "\<lambda>g. fdiv (modelSize r) (i2f g)" and ?k = "\<lambda>g. fdiv (fdiv ?kv (i2f g)) (lit (10 ^ 9))"
  let ?a = "\<lambda>g. fdiv (fdiv ?act (i2f g)) (lit (10 ^ 9))" and ?t = "\<lambda>g. fdiv ?att (i2f g)"
  let ?s = "\<lambda>g. fadd (fadd (fadd (?w g) (?k g)) (?a g)) (?t g)"
  have mem: "mem g = fmul (?s g) (memoryOverheadFactor r)" for g
    unfolding assms(9) estimateMemoryUsage_def Let_def ..
  have i: "i2f g = Fin (of_int g)" "i2f g' = Fin (of_int g')" using assms(1-3) by (auto intro: i2f_exact)
  have gg: "(0::rat) < of_int g" "(of_int g::rat) \<le> of_int g'" using assms(1,2) by simp_all
  have e9: "lit (10 ^ 9) = Fin 1000000000" by (simp add: f64_eval)
  have g: "0 \<le> g" "0 \<le> g'" using assms(1,2) by auto
  have nn: "nonneg (?w g)" "nonneg (?w g')" "nonneg (?k g)" "nonneg (?k g')" "nonneg (?a g)" "nonneg (?a g')"
    "nonneg (?t g)" "nonneg (?t g')" unfolding e9
    by (intro nonneg_div nonneg_i2f assms(4,6,7,8) g; simp)+
  have N: "\<And>g. mem g \<noteq> NaN \<Longrightarrow> ?s g \<noteq> NaN \<and> memoryOverheadFactor r \<noteq> NaN"
    unfolding mem by (rule fmul_NaN)
  have s3: "fadd (fadd (?w g) (?k g)) (?a g) \<noteq> NaN" "fadd (fadd (?w g') (?k g')) (?a g') \<noteq> NaN"
    "?t g \<noteq> NaN" "?t g' \<noteq> NaN" using N assms(10,11) fadd_NaN by blast+
  then have s2: "fadd (?w g) (?k g) \<noteq> NaN" "fadd (?w g') (?k g') \<noteq> NaN" "?a g \<noteq> NaN" "?a g' \<noteq> NaN" using fadd_NaN by blast+
  then have s1: "?w g \<noteq> NaN" "?w g' \<noteq> NaN" "?k g \<noteq> NaN" "?k g' \<noteq> NaN" using fadd_NaN by blast+
  have n0: "modelSize r \<noteq> NaN" "?kv \<noteq> NaN" "?act \<noteq> NaN" "?att \<noteq> NaN"
    using s1(1,3) s2(3) s3(3) fdiv_NaN by blast+
  have "fle (?w g') (?w g)" "fle (?t g') (?t g)" "fle (?k g') (?k g)" "fle (?a g') (?a g)"
    unfolding i e9 using fdiv_antimono_right [OF assms(4) n0(1) gg] fdiv_antimono_right [OF assms(8) n0(4) gg]
      fdiv_antimono_right [OF assms(6) n0(2) gg] fdiv_antimono_right [OF assms(7) n0(3) gg]
    by (auto intro: fdiv_mono_left)
  then have "fle (?s g') (?s g)"
    using nn s1 s2 s3 N [OF assms(10)] N [OF assms(11)] by (intro fadd_mono nonneg_add) auto
  moreover have "nonneg (memoryOverheadFactor r)" by (rule assms(5))
  ultimately have "fle (fmul (memoryOverheadFactor r) (?s g')) (fmul (memoryOverheadFactor r) (?s g))"
    using assms(10,11) unfolding mem by (intro fmul_mono_right) (simp_all add: fmul_comm)
  then show ?thesis unfolding mem by (simp add: fmul_comm)
qed

theorem memory_sharding_witness:
  "fle (estimateMemoryUsage (\<lambda>_ _. NaN) sample_estimator 100 10 (Fin 100) 4) (estimateMemoryUsage (\<lambda>_ _. NaN) sample_estimator 100 10 (Fin 100) 2)"
  by (rule memory_sharding [OF _ _ _ _ _ _ _ _ refl])
     (simp_all add: sample_estimator_def estimateMemoryUsage_def estimateAttentionMemory_def Let_def f64_eval)

section \<open>Tuning\<close>

lemma tuneDynamicMemory_keeps:
  "memoryOverheadFactor (tuneDynamicMemory r o' p d t) = memoryOverheadFactor r"
  "gpuSpec (tuneDynamicMemory r o' p d t) = gpuSpec r" "gpuFound (tuneDynamicMemory r o' p d t) = gpuFound r"
  "complexity (tuneDynamicMemory r o' p d t) = complexity r"
  by (simp_all add: tuneDynamicMemory_def Let_def)

lemma tuneModelParams_keeps:
  "memoryOverheadFactor (tuneModelParams r p l o' m n) = memoryOverheadFactor r"
  "gpuSpec (tuneModelParams r p l o' m n) = gpuSpec r" "gpuFound (tuneModelParams r p l o' m n) = gpuFound r"
  "complexity (tuneModelParams r p l o' m n) = complexity r"
  by (simp_all add: tuneModelParams_def Let_def tuneDynamicMemory_keeps)

lemma tuneWithMemoryMetric_keeps:
  "gpuSpec (tuneWithMemoryMetric pf r p l o' m n) = gpuSpec r" "gpuFound (tuneWithMemoryMetric pf r p l o' m n) = gpuFound r"
  "complexity (tuneWithMemoryMetric pf r p l o' m n) = complexity r"
  by (simp_all add: tuneWithMemoryMetric_def Let_def tuneModelParams_keeps)

lemma tuneWithMemoryMetric_factor:
  assumes "fle (memoryOverheadFactor r) MaxMemoryOverheadFactor"
  shows "fle (memoryOverheadFactor r) (memoryOverheadFactor (tuneWithMemoryMetric pf r p l o' m n)) \<and>
    fle (memoryOverheadFactor (tuneWithMemoryMetric pf r p l o' m n)) MaxMemoryOverheadFactor"
proof -
  have f: "memoryOverheadFactor r \<noteq> NaN" "MaxMemoryOverheadFactor \<noteq> NaN" using assms by auto
  have "fle (fmin MaxMemoryOverheadFactor x) MaxMemoryOverheadFactor" if "fgt (fmin MaxMemoryOverheadFactor x) y" for x y
  proof -
    have "fmin MaxMemoryOverheadFactor x \<noteq> NaN" using that by auto
    then have "x \<noteq> NaN" using f(2) by (cases "x = NaN") (auto simp: fmin_def MaxMemoryOverheadFactor_def f64_eval)
    then show ?thesis using fmin_le f(2) by blast
  qed
  then show ?thesis using assms f fle_refl [of "memoryOverheadFactor r"]
    by (auto simp: tuneWithMemoryMetric_def Let_def tuneModelParams_keeps intro: flt_fle)
qed

lemma tuneWithComputeMetric_keeps:
  "memoryOverheadFactor (tuneWithComputeMetric r p u n) = memoryOverheadFactor r"
  "gpuFound (tuneWithComputeMetric r p u n) = gpuFound r" "complexity (tuneWithComputeMetric r p u n) = complexity r"
  "gpuFound r \<Longrightarrow> gpuSpec (tuneWithComputeMetric r p u n) = gpuSpec r"
  "MinMaxThreads \<le> MaxThreads (gpuSpec r) \<Longrightarrow> MinMaxThreads \<le> MaxThreads (gpuSpec (tuneWithComputeMetric r p u n))"
  by (simp_all add: tuneWithComputeMetric_def Let_def)

end
