(* ===== verification/Optimizer_Properties.thy ===== *)
theory Optimizer_Properties
  imports Resource_Optimizer Estimator_Properties
begin

text \<open>
  The properties of the search of \<open>resource_optimizer.go\<close>, each with a run of the optimizer that the
  constructor builds for a specification without a hint (the a100 default, an 8B model), on one
  request per second of 100 prompt and 10 output tokens.
\<close>

lemma ceil_eval: "\<lceil>numeral a / numeral b :: rat\<rceil> = - (- numeral a div numeral b)"
  unfolding ceiling_def minus_divide_left
  by (metis floor_divide_of_int_eq of_int_minus of_int_numeral)

section \<open>A sample optimizer\<close>

definition sample_spec :: rca_spec where
  "sample_spec =
     \<lparr>Target = \<lparr>ServiceRef = \<lparr>ServiceName = ''vllm'', ServiceNamespace = ''default''\<rparr>,
        ResourceRef = \<lparr>DeviceClassName = ''gpu''\<rparr>, Hint = None\<rparr>,
      TargetLatency = None, SpecBehavior = None,
      SpecConstraints = Some \<lparr>MinReplicas = None, MaxReplicas = Some 2, MinCountPerReplica = None,
        MaxCountPerReplica = Some 2, CapacityPerCount = Some [''compute'' \<mapsto> \<lparr>CapMin = None, CapMax = None,
          CapStep = Some \<lparr>AsApproximateFloat64 = Fin 60, QValue = 60\<rparr>\<rparr>]\<rparr>,
      MinTargetUtilization = []\<rparr>"

definition sample :: resource_optimizer where
  "sample = (case NewResourceOptimizer gpuRegistry modelFamilyMap sample_spec of
     Inr s \<Rightarrow> SetWorkloadParameters s (Fin 1) 100 10 1)"

lemmas construct_defs = NewResourceOptimizer_def getDefaultHint_def NewResourceEstimatorWithHint_def
  NewResourceEstimator_def mk_estimator_def inferredArchParams_def lookup_sub_def modelFamilyMap_def
  gpuRegistry_def choose_gpu_def getGPUSpecs_def to_lower_def lower_char_def extractParams_def arch_def
  inferredPrecisionBytes_def estimateMemoryPerTokenFromID_def go_div_def estimateModelComplexity_def
  estimateModelSize_def estimateActiveMemoryPerTokenFromID_def a100_spec_def NewLatencyEstimatorWithHint_def
  calculateKVCacheBytesPerToken_def calculateKernelOverhead_def getMaxReplicas_def extractGPUConstraints_def
  default_gpu_constraints_def capacity_of_def SetWorkloadParameters_def NewQueueAnalyzer_def

lemmas estimate_defs = evaluate_with_def CalculateResourceAllocationImpact_def estimateLatency_def
  computePrefillLatencyByPrompt_def computeInterTokenLatency_def estimateStructuralOverhead_def
  AddQueuingResults_def ServiceTime_def zero_latency_def meetsAllTargets_def
  CalculateResourceRequirementsPerGPU_def estimateThreadOccupancy_def estimateMemoryUsage_def
  estimateAttentionMemory_def MinMaxThreads_def

lemmas search_defs = FindOptimalConfiguration_def minimise_def accepts_def fits_memory_def
  alignedMinMemoryBytes_def requiredMemoryBytes_def maxGPUs_def search_result_def start_search_def zero_config_def

lemma sample_eval: "sample = \<lparr>queueAnalyzer = Some \<lparr>qa_arrivalRate = Fin 1\<rparr>,
    latencyEstimator =
      \<lparr>le_PrefixCacheHitRate = Fin 0, PrefillTimePerToken = Fin 0,
         InterTokenLatency = Fin 0, KVCacheHitRate = Fin 0,
         le_KVCacheSpeedup = Fin 1, le_ArrivalRate = Fin 0,
         AvgPromptTokens = Fin 0, AvgOutputTokens = Fin 0,
         itlOffset = Fin 0, ttftOffset = Fin 0, effectiveBatch = Fin 1,
         kernelOverhead = Fin 16,
         prefillLatencyPerPromptLen =
           Fin (3695261232714253 / 72057594037927936),
         kvReadTimePerPromptToken =
           Fin (4835703278458517 / 73786976294838206464),
         totalWeightReadTime = Fin 8\<rparr>,
    resourceEstimator =
      \<lparr>re_modelID = [], validParamsInBillions = False, paramsFound = False,
         params =
           \<lparr>ParametersB = Fin 8, Layers = 32, KVHeads = 8,
              HiddenSize = 4096, QueryHeads = 32, Precision = 2\<rparr>,
         complexity =
           \<lparr>FlopsPerToken = Fin 16000000000, ArithmeticIntensity = Fin 1,
              MinThreads = 4096\<rparr>,
         effectiveBatchSize = Fin 1, maxNumBatchedTokens = None,
         modelSize = Fin 16, memoryPerToken = Fin 131072,
         activeMemoryPerPerfillToken = Fin 40960, gpuFound = False,
         gpuSpec =
           \<lparr>GpuName = ''A100 80GB'', VRAM = 80, MemoryBW = Fin 2,
              PeakTFLOPS = Fin 312, PeakFP8 = Fin 0, MaxThreads = 108544,
              UnderprovisionContentionImpact =
                Fin (5404319552844595 / 18014398509481984),
              OverprovisionSpeedUp =
                Fin (3602879701896397 / 18014398509481984)\<rparr>,
         memoryOverheadFactor = Fin (5404319552844595 / 4503599627370496),
         minMemoryUsage = Fin 0\<rparr>,
    maxReplicas = 2, prefixCacheHitRate = Fin 0,
    gpuConstraints =
      \<lparr>MinThreadPercentage = Fin 1, MaxThreadPercentage = Fin 100,
         StepThreadPercentage = Fin 60, MinMemoryBytes = 8589934592,
         MaxMemoryBytes = 85899345920, StepMemoryBytes = 1073741824,
         BudgetGPUs = 4, MaxGPUsPerReplica = 2\<rparr>,
    currentConfig =
      \<lparr>Replicas = 0, GPUsPerReplica = 0, RequestedCompute = Fin 0,
         RequestedMemoryGB = Fin 0\<rparr>,
    o_arrivalRate = Fin 1, avgPromptTokens = 100, avgOutputTokens = 10,
    o_maxNumSeqs = 1\<rparr>"
  by (simp add: sample_def sample_spec_def construct_defs go_int Let_def f64_eval)

lemma sample_requirements:
  "CalculateResourceRequirementsPerGPU pf (resourceEstimator sample) 100 10 (Fin 0) 1 =
     \<lparr>ThreadOccupancy = Fin 100, MemoryGB = Fin (5410572999085583 / 281474976710656)\<rparr>"
  by (simp add: sample_eval estimate_defs go_int Let_def f64_eval)

lemma sample_impact:
  "CalculateResourceAllocationImpact sample (fdiv (Fin 100) (Fin 100)) = Fin (4323455642275675 / 72057594037927936)"
  by (simp add: CalculateResourceAllocationImpact_def sample_eval Let_def f64_eval)

lemma sample_itl:
  "computeInterTokenLatency (latencyEstimator sample) 100 1 (Fin (4323455642275675 / 72057594037927936)) =
     Fin (4777726314756353 / 562949953421312)"
  by (simp add: computeInterTokenLatency_def sample_eval Let_def f64_eval)

lemma sample_prefill:
  "computePrefillLatencyByPrompt (latencyEstimator sample) 100 (Fin 1) (Fin (4323455642275675 / 72057594037927936)) =
     (Fin (3060138208341491 / 562949953421312), Fin 0)"
  by (simp add: computePrefillLatencyByPrompt_def sample_eval Let_def f64_eval)

definition sample_latency :: latency_result where
  "sample_latency = zero_latency\<lparr>ITL := Fin (4777726314756353 / 562949953421312),
     Prefill := Fin (3016834365770621 / 140737488355328), Decode := Fin (5972157893445441 / 70368744177664),
     AllocationImpact := Fin (4323455642275675 / 72057594037927936)\<rparr>"

lemma sample_estimate:
  "estimateLatency (latencyEstimator sample) 100 10 1 (Fin (4323455642275675 / 72057594037927936)) = sample_latency"
proof -
  have "estimateStructuralOverhead (latencyEstimator sample) (Fin 1) = Fin 16"
    by (simp add: estimateStructuralOverhead_def sample_eval f64_eval)
  then show ?thesis
    by (simp add: estimateLatency_def sample_itl sample_prefill Let_def zero_latency_def f64_eval sample_latency_def)
qed

lemma sample_erlang:
  "erlangC pf (Fin (3830054439081345 / 36028797018963968)) (i2f 1) = Fin (3422899101682613 / 36028797018963968)"
  by (simp add: erlang_eval)

definition sample_queued :: latency_result where
  "sample_queued = sample_latency\<lparr>TTFT := Fin (3016834365770621 / 140737488355328),
     E2E := Fin (7565111789214527 / 70368744177664),
     Utilization := Fin (3830054439081345 / 36028797018963968),
     ServiceTimeSeconds := Fin (3830054439081345 / 36028797018963968),
     AvgQueueLength := Fin (5540198015551133 / 4611686018427387904),
     AvgSystemLength := Fin (1936668618038919 / 18014398509481984),
     ProbabilityOfWait := Fin (3422899101682613 / 36028797018963968)\<rparr>"

lemma sample_queue:
  "AddQueuingResults pf \<lparr>qa_arrivalRate = Fin 1\<rparr> 1 sample_latency = (None, sample_queued)"
proof -
  have "fdiv (ServiceTime sample_latency) (Fin 1000) = Fin (3830054439081345 / 36028797018963968)"
    by (simp add: ServiceTime_def sample_latency_def zero_latency_def f64_eval)
  moreover have "fdiv (Fin 1) (fdiv (Fin 1) (Fin (3830054439081345 / 36028797018963968))) =
      Fin (3830054439081345 / 36028797018963968)" by (simp add: f64_eval)
  ultimately show ?thesis
    by (simp add: AddQueuingResults_def Let_def sample_erlang)
       (simp add: sample_latency_def sample_queued_def zero_latency_def f64_eval)
qed

definition sample_req :: resource_requirements where
  "sample_req = \<lparr>ThreadOccupancy = Fin 100, MemoryGB = Fin (5410572999085583 / 281474976710656)\<rparr>"

definition sample_config :: "latency_targets option \<Rightarrow> int \<Rightarrow> optimal_configuration" where
  "sample_config t m = \<lparr>Replicas = 1, GPUsPerReplica = 1, RequestedCompute = Fin 100,
     RequestedMemoryGB = fdiv (i2f m) (lit 1073741824), TotalGPUs = 1,
     EstimatedLatency = sample_queued, ResourceRequirements = sample_req,
     MeetsConstraints = meetsAllTargets t sample_queued\<rparr>"

lemma sample_evaluate:
  "evaluate_with pf sample \<lparr>qa_arrivalRate = Fin 1\<rparr> t 1 1 (Fin 100) m sample_req = (None, sample_config t m)"
proof -
  have "CalculateResourceAllocationImpact sample (fdiv (ThreadOccupancy sample_req) (Fin 100)) =
      Fin (4323455642275675 / 72057594037927936)" using sample_impact by (simp add: sample_req_def)
  moreover have "avgPromptTokens sample = 100" "avgOutputTokens sample = 10" by (simp_all add: sample_eval)
  ultimately show ?thesis
    by (simp add: evaluate_with_def Let_def sample_estimate sample_queue sample_config_def)
qed

lemma sample_reqs: "requirements pf sample 1 = sample_req"
proof -
  have "avgPromptTokens sample = 100" "avgOutputTokens sample = 10" "prefixCacheHitRate sample = Fin 0"
    by (simp_all add: sample_eval)
  then show ?thesis by (simp add: requirements_def sample_requirements sample_req_def)
qed

lemma sample_constraints:
  "MaxThreadPercentage (gpuConstraints sample) = Fin 100" "MinThreadPercentage (gpuConstraints sample) = Fin 1"
  "StepThreadPercentage (gpuConstraints sample) = Fin 60" "MaxMemoryBytes (gpuConstraints sample) = 85899345920"
  "BudgetGPUs (gpuConstraints sample) = 4" "MaxGPUsPerReplica (gpuConstraints sample) = 2" "maxReplicas sample = 2"
  by (simp_all add: sample_eval)

lemma sample_memory:
  "fits_memory (gpuConstraints sample) sample_req" "alignedMinMemoryBytes (gpuConstraints sample) sample_req = 19327352832"
  by (simp_all add: fits_memory_def alignedMinMemoryBytes_def requiredMemoryBytes_def sample_req_def sample_eval
      Let_def f64_eval ceil_eval)

lemma sample_search:
  "FindOptimalConfiguration pf sample (Fin 1) None = Some (Ok (sample_config None 19327352832), sample)"
proof -
  have s: "sample\<lparr>o_arrivalRate := Fin 1, queueAnalyzer := Some \<lparr>qa_arrivalRate = Fin 1\<rparr>\<rparr> = sample"
    by (simp add: sample_eval)
  have g: "[1..2] = [1, 2::int]" by (simp add: f64_eval upto.simps)
  have mx: "maxGPUs (gpuConstraints sample) 1 = 2" "maxGPUs (gpuConstraints sample) 2 = 2"
    by (simp_all add: maxGPUs_def sample_constraints go_int)
  have req: "CalculateResourceRequirementsPerGPU pf (resourceEstimator sample) (avgPromptTokens sample)
      (avgOutputTokens sample) (prefixCacheHitRate sample) = requirements pf sample"
    by (simp add: requirements_def)
  have acc: "accepts (None, sample_config None m)" for m
    by (simp add: accepts_def sample_config_def meetsAllTargets_def)
  have sh: "shrink f (Fin 60) (fmax (ThreadOccupancy sample_req) (Fin 1)) (fsub (Fin 100) (Fin 60)) c = Some c" for f c
    by (subst shrink.simps) (simp add: sample_req_def f64_eval)
  have "minimise (evaluate_with pf sample \<lparr>qa_arrivalRate = Fin 1\<rparr> None) (gpuConstraints sample) sample_req 1 1 c =
      Some (sample_config None 19327352832)" for c
    by (simp add: minimise_def Let_def sample_constraints sample_memory sample_evaluate acc sh)
  moreover have "Replicas (sample_config None m) = 1" for m by (simp add: sample_config_def)
  ultimately show ?thesis
    by (simp add: FindOptimalConfiguration_def NewQueueAnalyzer_def Let_def s req g sample_constraints mx
        sample_reqs sample_memory sample_evaluate acc go_int search_result_def)
qed

section \<open>The search\<close>

text \<open>C2: The two nested loops with their early exits, the budget cut-off and the \<open>goto\<close>s compute
  exactly the declarative search: minimise at the first pair of the finite search space that is
  accepted at maximum resources, else return the last pair tested, else fail.\<close>

theorem FindOptimal_refines:
  assumes "BudgetGPUs (gpuConstraints s) < 2 ^ 63"
  shows "map_option fst (FindOptimalConfiguration pf s rate targets) =
    reference_search (evaluate_with pf s (NewQueueAnalyzer rate) targets) (requirements pf s)
      (gpuConstraints s) (maxReplicas s)"
  by (rule FindOptimal_reference [OF assms])

theorem FindOptimal_refines_witness:
  "reference_search (evaluate_with (\<lambda>_ _. NaN) sample (NewQueueAnalyzer (Fin 1)) None) (requirements (\<lambda>_ _. NaN) sample)
      (gpuConstraints sample) 2 = Some (Ok (sample_config None 19327352832))"
  using FindOptimal_refines [of sample "\<lambda>_ _. NaN" "Fin 1" None] by (simp add: sample_search sample_constraints)

lemma infeasible_last:
  assumes "find (feasible pf s rate targets) (space pf s) = None" "space pf s \<noteq> []"
  shows "\<not> MeetsConstraints (snd (at_max (evaluate_with pf s (NewQueueAnalyzer rate) targets)
    (requirements pf s) (gpuConstraints s) (last (space pf s))))"
proof -
  have "last (space pf s) \<in> set (space pf s)" using assms(2) by simp
  then have "\<not> feasible pf s rate targets (last (space pf s))" using assms(1) unfolding find_None_iff by blast
  then show ?thesis unfolding feasible_def accepts_def at_max_def using opt.ev_error by blast
qed

lemma at_max_shape:
  "Replicas (snd (at_max (evaluate_with pf s qa t) req c p)) = fst p"
  "GPUsPerReplica (snd (at_max (evaluate_with pf s qa t) req c p)) = snd p"
  by (simp_all add: at_max_def opt.ev_replicas opt.ev_gpus)

text \<open>C1: A configuration the search returns lies inside the replica, GPU and budget bounds and its
  memory requirement fits; if it is marked as meeting the constraints, every latency target holds for
  its estimate and its queue is stable.\<close>

theorem FindOptimal_sound:
  assumes "BudgetGPUs (gpuConstraints s) < 2 ^ 63"
    and "FindOptimalConfiguration pf s rate targets = Some (Ok cfg, s')"
  shows "1 \<le> Replicas cfg \<and> Replicas cfg \<le> maxReplicas s \<and>
    1 \<le> GPUsPerReplica cfg \<and> GPUsPerReplica cfg \<le> MaxGPUsPerReplica (gpuConstraints s) \<and>
    (0 < BudgetGPUs (gpuConstraints s) \<longrightarrow> Replicas cfg * GPUsPerReplica cfg \<le> BudgetGPUs (gpuConstraints s)) \<and>
    fits_memory (gpuConstraints s) (requirements pf s (GPUsPerReplica cfg)) \<and>
    (MeetsConstraints cfg \<longrightarrow> targets_hold targets (EstimatedLatency cfg) \<and>
       \<not> fge (Utilization (EstimatedLatency cfg)) (Fin 1))"
proof -
  have "(Replicas cfg, GPUsPerReplica cfg) \<in> set (space pf s) \<and>
    (MeetsConstraints cfg \<longrightarrow> good_latency targets (EstimatedLatency cfg))"
    using assms
  proof (cases rule: FindOptimal_cases)
    case (found p k m cfg')
    then have "p \<in> set (space pf s)" by (auto simp: find_Some_iff)
    then show ?thesis using found opt.ev_good [OF found(3)] by (simp add: opt.ev_replicas opt.ev_gpus)
  next
    case infeasible
    then have i: "(Replicas cfg, GPUsPerReplica cfg) = last (space pf s)" by (simp add: at_max_shape)
    have "last (space pf s) \<in> set (space pf s)" using infeasible by simp
    moreover have "\<not> MeetsConstraints cfg" using infeasible(3) infeasible_last [OF infeasible(1,2)] by simp
    ultimately show ?thesis using i by simp
  qed auto
  then show ?thesis unfolding space_def search_space_iff good_latency_def by blast
qed

theorem FindOptimal_sound_witness:
  "\<not> fge (Utilization sample_queued) (Fin 1)"
  using FindOptimal_sound [of sample "\<lambda>_ _. NaN" "Fin 1" None "sample_config None 19327352832" sample]
  by (simp add: sample_search sample_constraints) (simp add: sample_config_def meetsAllTargets_def targets_hold_def)

text \<open>C11: The search prefers fewer replicas, then fewer GPUs: a returned configuration that meets the
  constraints belongs to the first pair of the search space that meets them at maximum resources, and
  one that does not is returned only when no pair of the space meets them.\<close>

theorem FindOptimal_first_feasible:
  assumes "BudgetGPUs (gpuConstraints s) < 2 ^ 63"
    and "FindOptimalConfiguration pf s rate targets = Some (Ok cfg, s')"
  shows "if MeetsConstraints cfg
    then find (feasible pf s rate targets) (space pf s) = Some (Replicas cfg, GPUsPerReplica cfg)
    else \<forall>p \<in> set (space pf s). \<not> feasible pf s rate targets p"
  using assms
proof (cases rule: FindOptimal_cases)
  case (found p k m cfg')
  then show ?thesis by (auto simp: accepts_def opt.ev_replicas opt.ev_gpus)
next
  case infeasible
  then have "\<not> MeetsConstraints cfg" using infeasible_last [OF infeasible(1,2)] by simp
  moreover have "\<forall>p \<in> set (space pf s). \<not> feasible pf s rate targets p"
    using infeasible(1) unfolding find_None_iff by blast
  ultimately show ?thesis by simp
qed auto

theorem FindOptimal_first_feasible_witness:
  "find (feasible (\<lambda>_ _. NaN) sample (Fin 1) None) (space (\<lambda>_ _. NaN) sample) = Some (1, 1)"
  using FindOptimal_first_feasible [of sample "\<lambda>_ _. NaN" "Fin 1" None "sample_config None 19327352832" sample]
  by (simp add: sample_search sample_constraints) (simp add: sample_config_def meetsAllTargets_def)

text \<open>C12: The returned requests are locally minimal: either the step-aligned minimum memory is not
  accepted and maximum resources are returned, or memory is that minimum and lowering the compute
  request by one more step goes below the estimated occupancy or configured minimum, or is not
  accepted.\<close>

theorem FindOptimal_minimal:
  assumes "BudgetGPUs (gpuConstraints s) < 2 ^ 63"
    and "FindOptimalConfiguration pf s rate targets = Some (Ok cfg, s')" and "MeetsConstraints cfg"
    and "c = gpuConstraints s" and "req = requirements pf s (GPUsPerReplica cfg)"
    and "ev = (\<lambda>k m. evaluate_with pf s (NewQueueAnalyzer rate) targets (Replicas cfg) (GPUsPerReplica cfg) k m req)"
    and "mem = alignedMinMemoryBytes c req"
  shows "cfg = snd (ev (MaxThreadPercentage c) (MaxMemoryBytes c)) \<and> \<not> accepts (ev (MaxThreadPercentage c) mem) \<or>
    (\<exists>k. RequestedCompute cfg = k \<and> cfg = snd (ev k mem) \<and>
       \<not> (fle (fmax (ThreadOccupancy req) (MinThreadPercentage c)) (fsub k (StepThreadPercentage c)) \<and>
          accepts (ev (fsub k (StepThreadPercentage c)) mem)))"
proof -
  let ?e = "evaluate_with pf s (NewQueueAnalyzer rate) targets"
  have f: "(\<lambda>p. accepts (at_max ?e (requirements pf s) c p)) = feasible pf s rate targets"
    by (simp add: feasible_def fun_eq_iff assms(4))
  have "find (feasible pf s rate targets) (space pf s) = Some (Replicas cfg, GPUsPerReplica cfg)"
    using assms(1-3)
  proof (cases rule: FindOptimal_cases)
    case (found p k m cfg') then show ?thesis by (simp add: opt.ev_replicas opt.ev_gpus)
  next
    case infeasible
    then show ?thesis using infeasible_last [OF infeasible(1,2)] assms(3) by simp
  qed auto
  moreover have "reference_search ?e (requirements pf s) c (maxReplicas s) = Some (Ok cfg)"
    using FindOptimal_reference [OF assms(1), of pf rate targets] assms(2,4) by simp
  ultimately have m: "minimise ?e c req (Replicas cfg) (GPUsPerReplica cfg)
      (snd (ev (MaxThreadPercentage c) (MaxMemoryBytes c))) = Some cfg"
    using assms(4-6) f by (simp add: reference_search_def space_def at_max_def)
  show ?thesis
  proof (cases "accepts (ev (MaxThreadPercentage c) mem)")
    case False
    then show ?thesis using m assms(6,7) by (simp add: minimise_def Let_def)
  next
    case True
    then have "shrink (\<lambda>k. ev k mem) (StepThreadPercentage c) (fmax (ThreadOccupancy req) (MinThreadPercentage c))
        (fsub (MaxThreadPercentage c) (StepThreadPercentage c)) (snd (ev (MaxThreadPercentage c) mem)) = Some cfg"
      using m assms(6,7) by (simp add: minimise_def Let_def)
    then obtain k where "cfg = snd (ev k mem)" "\<not> (fle (fmax (ThreadOccupancy req) (MinThreadPercentage c))
        (fsub k (StepThreadPercentage c)) \<and> accepts (ev (fsub k (StepThreadPercentage c)) mem))"
      using shrink_stop by blast
    moreover have "RequestedCompute (snd (ev k mem)) = k" unfolding assms(6) by (rule opt.ev_compute)
    ultimately show ?thesis by blast
  qed
qed

theorem FindOptimal_minimal_witness:
  "\<exists>k. RequestedCompute (sample_config None 19327352832) = k \<and>
     \<not> (fle (fmax (ThreadOccupancy sample_req) (Fin 1)) (fsub k (Fin 60)) \<and>
        accepts (evaluate_with (\<lambda>_ _. NaN) sample (NewQueueAnalyzer (Fin 1)) None 1 1 (fsub k (Fin 60)) 19327352832 sample_req))"
proof -
  let ?cfg = "sample_config None 19327352832"
  have c: "MeetsConstraints ?cfg" "Replicas ?cfg = 1" "GPUsPerReplica ?cfg = 1"
    by (simp_all add: sample_config_def meetsAllTargets_def)
  have "accepts (evaluate_with (\<lambda>_ _. NaN) sample (NewQueueAnalyzer (Fin 1)) None 1 1 (Fin 100) m sample_req)" for m
    by (simp add: NewQueueAnalyzer_def sample_evaluate accepts_def) (simp add: sample_config_def meetsAllTargets_def)
  then show ?thesis
    using FindOptimal_minimal [of sample "\<lambda>_ _. NaN" "Fin 1" None ?cfg sample, OF _ _ c(1) refl refl refl refl]
    by (simp add: sample_search sample_constraints sample_reqs sample_memory c)
qed

lemma FindOptimal_returns:
  assumes "BudgetGPUs (gpuConstraints s) < 2 ^ 63" "k \<le> 53"
    and "StepThreadPercentage (gpuConstraints s) = Fin st" "1 / 2 ^ k \<le> st"
    and "MaxThreadPercentage (gpuConstraints s) = Fin m" "wf64 (Fin m)" "m \<le> 2 ^ 53 / 2 ^ k"
    and "MinThreadPercentage (gpuConstraints s) = Fin l" "0 \<le> l"
  shows "\<exists>r. FindOptimalConfiguration pf s rate targets = Some r"
proof -
  let ?c = "gpuConstraints s" and ?e = "evaluate_with pf s (NewQueueAnalyzer rate) targets"
  have mx: "fle (fsub (Fin m) (Fin st)) (Fin (of_int (2 ^ 53) / 2 ^ k))"
  proof -
    have "0 \<le> st" using assms(4) by (rule order_trans [rotated]) simp
    then have "m - st \<le> of_int (2 ^ 53) / 2 ^ k" using assms(7) by simp
    moreover have "wf64 (Fin (of_int (2 ^ 53) / 2 ^ k))" by (rule wf64_grid [OF assms(2)]) simp
    ultimately show ?thesis by (simp only: fsub_def fneg.simps fadd.simps rnd_le_Fin diff_conv_add_uminus [symmetric])
  qed
  have "minimise ?e ?c q r g cfg \<noteq> None" for q r g cfg
  proof -
    have lo: "fmax (ThreadOccupancy q) (Fin l) = NaN \<or> fle (Fin (of_int 0 / 2 ^ k)) (fmax (ThreadOccupancy q) (Fin l))"
      using fmax_lower [of "ThreadOccupancy q" l] assms(9) fle_trans [of "Fin 0" "Fin l"] by auto
    have "\<exists>y. shrink f (Fin st) (fmax (ThreadOccupancy q) (Fin l)) (fsub (Fin m) (Fin st)) b = Some y" for f b
      using shrink_returns [OF assms(2,4) lo, of "fsub (Fin m) (Fin st)" "2 ^ 53"] mx by simp
    then show ?thesis unfolding minimise_def Let_def assms(3,5,8) by (auto split: if_splits) 
  qed
  then have "reference_search ?e (requirements pf s) ?c (maxReplicas s) \<noteq> None"
    by (simp add: reference_search_def split: option.splits)
  then show ?thesis using FindOptimal_reference [OF assms(1), of pf rate targets]
    by (cases "FindOptimalConfiguration pf s rate targets") auto
qed

text \<open>C13: The search returns whenever, for some \<open>k\<close> up to 53, the compute step is at least \<open>1 / 2 ^ k\<close> percent, the maximum
  request at most \<open>2 ^ (53 - k)\<close> percent and the minimum not negative: every subtraction then makes progress in float64. (The
  defaults, one and one hundred, are covered by \<open>k = 0\<close>.)\<close>

theorem FindOptimal_terminates:
  assumes "BudgetGPUs (gpuConstraints s) < 2 ^ 63" "k \<le> 53"
    and "StepThreadPercentage (gpuConstraints s) = Fin st" "1 / 2 ^ k \<le> st"
    and "MaxThreadPercentage (gpuConstraints s) = Fin m" "wf64 (Fin m)" "m \<le> 2 ^ 53 / 2 ^ k"
    and "MinThreadPercentage (gpuConstraints s) = Fin l" "0 \<le> l"
  shows "\<exists>r. FindOptimalConfiguration pf s rate targets = Some r"
  using assms by (rule FindOptimal_returns)

theorem FindOptimal_terminates_witness:
  "\<exists>r. FindOptimalConfiguration (\<lambda>_ _. NaN) sample (Fin 3) (Some \<lparr>TargetE2E = Some (Fin 50), TargetTTFT = None, TargetITL = None\<rparr>) = Some r"
  by (rule FindOptimal_terminates [of sample 0 60 100 1]) (simp_all add: sample_constraints wf64_def)

text \<open>With a compute step of zero, a specification the CRD admits, the search does not return once
  a pair is accepted at maximum resources and at the aligned minimum memory.\<close>

lemma FindOptimal_zero_step_diverges:
  assumes "BudgetGPUs (gpuConstraints s) < 2 ^ 63"
    and "find (feasible pf s rate targets) (space pf s) = Some (r, g)"
    and "c = gpuConstraints s" "req = requirements pf s g"
    and "StepThreadPercentage c = Fin 0" "MaxThreadPercentage c = Fin m" "wf64 (Fin m)"
    and "fle (fmax (ThreadOccupancy req) (MinThreadPercentage c)) (Fin m)"
    and "accepts (evaluate_with pf s (NewQueueAnalyzer rate) targets r g (Fin m) (alignedMinMemoryBytes c req) req)"
  shows "FindOptimalConfiguration pf s rate targets = None"
proof -
  let ?e = "evaluate_with pf s (NewQueueAnalyzer rate) targets"
  have f: "(\<lambda>p. accepts (at_max ?e (requirements pf s) c p)) = feasible pf s rate targets"
    by (simp add: feasible_def fun_eq_iff assms(3))
  have z: "fsub (Fin m) (Fin 0) = Fin m" using assms(7) by (simp add: fsub_def rnd_rep wf64_def)
  have "minimise ?e c req r g cfg = None" for cfg
    using shrink_diverges [OF assms(7,8), of "\<lambda>k. ?e r g k (alignedMinMemoryBytes c req) req"] assms(5,6,9) z
    by (simp add: minimise_def Let_def)
  then have "reference_search ?e (requirements pf s) c (maxReplicas s) = None"
    using assms(2-4) f by (simp add: reference_search_def space_def)
  then show ?thesis using FindOptimal_reference [OF assms(1), of pf rate targets] assms(3) by simp
qed

definition sample_zero :: resource_optimizer where
  "sample_zero = sample\<lparr>gpuConstraints := (gpuConstraints sample)\<lparr>StepThreadPercentage := Fin 0\<rparr>\<rparr>"

lemma sample_zero_same:
  "evaluate_with pf sample_zero = evaluate_with pf sample" "requirements pf sample_zero = requirements pf sample"
  "maxReplicas sample_zero = 2" "gpuConstraints sample_zero = (gpuConstraints sample)\<lparr>StepThreadPercentage := Fin 0\<rparr>"
proof -
  have e: "resourceEstimator sample_zero = resourceEstimator sample" "latencyEstimator sample_zero = latencyEstimator sample"
    "avgPromptTokens sample_zero = avgPromptTokens sample" "avgOutputTokens sample_zero = avgOutputTokens sample"
    "prefixCacheHitRate sample_zero = prefixCacheHitRate sample" by (simp_all add: sample_zero_def)
  show "evaluate_with pf sample_zero = evaluate_with pf sample"
    unfolding fun_eq_iff evaluate_with_def CalculateResourceAllocationImpact_def e by (intro allI refl)
  show "requirements pf sample_zero = requirements pf sample" unfolding requirements_def e ..
qed (simp_all add: sample_zero_def sample_constraints)

theorem FindOptimal_zero_step_diverges_witness:
  "FindOptimalConfiguration (\<lambda>_ _. NaN) sample_zero (Fin 1) None = None"
proof (rule FindOptimal_zero_step_diverges [OF _ _ refl refl, of _ _ _ _ 1 1 100])
  have g: "[1..2] = [1, 2::int]" by (simp add: f64_eval upto.simps)
  have acc: "accepts (None, sample_config None m)" for m
    by (simp add: accepts_def sample_config_def meetsAllTargets_def)
  have fits: "fits_memory ((gpuConstraints sample)\<lparr>StepThreadPercentage := x\<rparr>) = fits_memory (gpuConstraints sample)" for x
    by (simp add: fits_memory_def fun_eq_iff)
  show "find (feasible (\<lambda>_ _. NaN) sample_zero (Fin 1) None) (space (\<lambda>_ _. NaN) sample_zero) = Some (1, 1)"
    by (simp add: space_def search_space_def sample_zero_same sample_constraints g maxGPUs_def go_int fits sample_reqs
        sample_memory feasible_def at_max_def NewQueueAnalyzer_def sample_evaluate acc)
  show "accepts (evaluate_with (\<lambda>_ _. NaN) sample_zero (NewQueueAnalyzer (Fin 1)) None 1 1 (Fin 100)
     (alignedMinMemoryBytes (gpuConstraints sample_zero) (requirements (\<lambda>_ _. NaN) sample_zero 1))
     (requirements (\<lambda>_ _. NaN) sample_zero 1))"
    by (simp add: sample_zero_same sample_reqs NewQueueAnalyzer_def sample_evaluate acc)
qed (simp_all add: sample_zero_same sample_constraints sample_reqs sample_req_def fmax_def wf64_def)

text \<open>C14: The search fails exactly when no pair inside the bounds fits in the memory of a GPU.\<close>

theorem FindOptimal_error_iff:
  assumes "BudgetGPUs (gpuConstraints s) < 2 ^ 63" "FindOptimalConfiguration pf s rate targets = Some (res, s')"
  shows "\<not> is_ok res \<longleftrightarrow> \<not> (\<exists>r g. 1 \<le> r \<and> r \<le> maxReplicas s \<and> 1 \<le> g \<and>
     g \<le> MaxGPUsPerReplica (gpuConstraints s) \<and>
     (0 < BudgetGPUs (gpuConstraints s) \<longrightarrow> r * g \<le> BudgetGPUs (gpuConstraints s)) \<and>
     fits_memory (gpuConstraints s) (requirements pf s g))"
proof -
  have "\<not> is_ok res \<longleftrightarrow> space pf s = []"
    using assms by (cases rule: FindOptimal_cases) auto
  also have "\<dots> \<longleftrightarrow> \<not> (\<exists>r g. (r, g) \<in> set (space pf s))" by (cases "space pf s") auto
  finally show ?thesis unfolding space_def search_space_iff .
qed

theorem FindOptimal_error_iff_witness:
  "\<exists>r g. 1 \<le> r \<and> r \<le> 2 \<and> 1 \<le> g \<and> g \<le> 2 \<and> r * g \<le> 4 \<and>
     fits_memory (gpuConstraints sample) (requirements (\<lambda>_ _. NaN) sample g)"
  using FindOptimal_error_iff [of sample "\<lambda>_ _. NaN" "Fin 1" None "Ok (sample_config None 19327352832)" sample]
  by (simp add: sample_search sample_constraints) blast

section \<open>The bounds taken from a specification\<close>

text \<open>The total GPU budget derived from a specification, GPUs per replica times maximum replicas,
  never narrows the search: at every replica count in range all GPU counts up to the per-replica
  maximum are tried.\<close>

lemma budget_never_binds:
  assumes "SpecConstraints spec = Some k" "MaxCountPerReplica k = Some n" "0 \<le> n" "n < 2 ^ 31"
    and "getMaxReplicas (SpecConstraints spec) < 2 ^ 31"
    and "1 \<le> r" "r \<le> getMaxReplicas (SpecConstraints spec)"
  shows "maxGPUs (extractGPUConstraints spec) r = MaxGPUsPerReplica (extractGPUConstraints spec)"
proof -
  let ?m = "getMaxReplicas (SpecConstraints spec)"
  have b: "MaxGPUsPerReplica (extractGPUConstraints spec) = n" "BudgetGPUs (extractGPUConstraints spec) = wrap64 (n * ?m)"
    using assms(1,2) by (auto simp: extractGPUConstraints_def Let_def split: option.splits)
  have "wrap64 (n * ?m) = n * ?m" using assms by (intro mult_le_wrap [of _ "2 ^ 31" _ "2 ^ 31"]) auto
  moreover have "n * r \<le> n * ?m" using assms by (intro mult_left_mono) auto
  ultimately have "n \<le> maxGPUs (extractGPUConstraints spec) r" if "0 < BudgetGPUs (extractGPUConstraints spec)"
    using maxGPUs_budget [OF that assms(6), of n] b by (simp add: mult.commute)
  then show ?thesis using b(1) maxGPUs_le [of "extractGPUConstraints spec" r] by (auto simp: maxGPUs_def)
qed

theorem budget_never_binds_witness:
  "maxGPUs (extractGPUConstraints sample_spec) 2 = 2"
  using budget_never_binds [of sample_spec _ 2 2]
  by (simp add: sample_spec_def extractGPUConstraints_def getMaxReplicas_def default_gpu_constraints_def capacity_of_def Let_def)

section \<open>The impact of an allocation\<close>

definition lit_within :: "rat \<Rightarrow> f64 \<Rightarrow> bool" where
  "lit_within b x \<longleftrightarrow> (\<exists>q. x = lit q \<and> 0 \<le> q \<and> q \<le> b)"

lemma lit_withinI: "0 \<le> q \<Longrightarrow> q \<le> b \<Longrightarrow> lit_within b (lit q)"
  by (auto simp: lit_within_def)

lemma lit_withinE:
  assumes "lit_within b x" "wf64 (Fin b)"
  obtains r where "x = Fin r" "0 \<le> r" "r \<le> b" "wf64 (Fin r)"
proof -
  obtain q where q: "x = lit q" "0 \<le> q" "q \<le> b" using assms(1) by (auto simp: lit_within_def)
  have "wf64 (Fin 0)" by (simp add: wf64_def)
  then obtain r where "rnd q = Fin r" "0 \<le> r" "r \<le> b" using rnd_between [OF _ assms(2) q(2,3)] by blast
  then show thesis using that [of r] q(1) wf64_rnd [of q] by (simp only: lit_def)
qed

lemma registry_within:
  "(k, g) \<in> set gpuRegistry \<Longrightarrow> lit_within (1 / 2) (OverprovisionSpeedUp g) \<and>
     lit_within (3 / 4) (UnderprovisionContentionImpact g)"
  by (auto simp: gpuRegistry_def a100_spec_def intro!: lit_withinI)

lemma registry_sane:
  assumes "(k, g) \<in> set gpuRegistry"
  obtains sp u where "sane_gpu g sp u" "sp \<le> 1 / 2" "u \<le> 3 / 4"
proof -
  have w: "wf64 (Fin (of_int 1 / 2 ^ 1))" "wf64 (Fin (of_int 3 / 2 ^ 2))" by (rule wf64_grid; simp)+
  have f: "of_int 3 / 2 ^ 2 = (3 / 4 :: rat)" by simp
  obtain sp where sp: "OverprovisionSpeedUp g = Fin sp" "0 \<le> sp" "sp \<le> 1 / 2" "wf64 (Fin sp)"
    using registry_within [OF assms] w(1) lit_withinE [of "1 / 2"] by (metis of_int_1 power_one_right)
  obtain u where u: "UnderprovisionContentionImpact g = Fin u" "0 \<le> u" "u \<le> 3 / 4" "wf64 (Fin u)"
  proof (rule lit_withinE)
    show "lit_within (3 / 4) (UnderprovisionContentionImpact g)" using registry_within [OF assms] by simp
    show "wf64 (Fin (3 / 4))" using w(2) unfolding f .
  qed
  show thesis by (rule that [of sp u]) (simp_all only: sane_gpu_def sp u simp_thms)
qed

text \<open>For every GPU of the registry and every occupancy ratio that is a number, the allocation impact
  lies between \<open>-1/2\<close> and \<open>3/4\<close> and grows with the ratio: denser packing never looks faster.\<close>

lemma allocation_impact_bounds_mono:
  assumes "(k, gpuSpec (resourceEstimator s)) \<in> set gpuRegistry" "fle ratio ratio'"
  shows "fle (Fin (- (1 / 2))) (CalculateResourceAllocationImpact s ratio) \<and>
    fle (CalculateResourceAllocationImpact s ratio) (CalculateResourceAllocationImpact s ratio') \<and>
    fle (CalculateResourceAllocationImpact s ratio') (Fin (3 / 4))"
proof -
  obtain sp u where g: "sane_gpu (gpuSpec (resourceEstimator s)) sp u" "sp \<le> 1 / 2" "u \<le> 3 / 4"
    using registry_sane [OF assms(1)] by blast
  have "ratio \<noteq> NaN" "ratio' \<noteq> NaN" using assms(2) by auto
  moreover have "fle (Fin (- (1 / 2))) (Fin (- sp))" "fle (Fin u) (Fin (3 / 4))" using g by auto
  ultimately show ?thesis
    using impact_range [OF g(1)] impact_mono [OF g(1) assms(2)] fle_trans by blast
qed

theorem allocation_impact_bounds_mono_witness:
  "fle (CalculateResourceAllocationImpact sample (Fin (1 / 4))) (CalculateResourceAllocationImpact sample (Fin 1))"
proof -
  have "(''a100'', gpuSpec (resourceEstimator sample)) \<in> set gpuRegistry"
    by (simp add: sample_eval gpuRegistry_def a100_spec_def f64_eval)
  from allocation_impact_bounds_mono [OF this, of "Fin (1 / 4)" "Fin 1"] show ?thesis by simp
qed

lemma fdiv_antimono:
  assumes "0 \<le> t" "0 < k" "k \<le> k'"
  shows "fle (fdiv (Fin t) (Fin k')) (fdiv (Fin t) (Fin k))"
  using assms by (auto intro!: rnd_mono divide_left_mono mult_pos_pos)

lemma evaluate_latency:
  "EstimatedLatency (snd (evaluate_with pf s qa targets r g k m req)) =
     snd (AddQueuingResults pf qa r (estimateLatency (latencyEstimator s) (avgPromptTokens s) (avgOutputTokens s) g
       (CalculateResourceAllocationImpact s (fdiv (ThreadOccupancy req) k))))"
  by (simp add: evaluate_with_def Let_def split: prod.split option.split)

text \<open>Whatever the occupancy, a smaller request gives a larger impact: an occupancy that is negative or not a number
  counts alike at every request.\<close>

lemma impact_nonpos: "fle x (Fin 0) \<Longrightarrow> CalculateResourceAllocationImpact s x = CalculateResourceAllocationImpact s (Fin 0)"
  by (cases x) (auto simp: CalculateResourceAllocationImpact_def Let_def fle_def feq_def)

lemma impact_shrink:
  assumes "sane_gpu (gpuSpec (resourceEstimator s)) sp u" "0 < k" "k \<le> k'"
  shows "fle (CalculateResourceAllocationImpact s (fdiv t (Fin k'))) (CalculateResourceAllocationImpact s (fdiv t (Fin k)))"
proof (cases t)
  case (Fin q)
  show ?thesis
  proof (cases "0 \<le> q")
    case True
    then show ?thesis unfolding Fin using impact_mono [OF assms(1) fdiv_antimono [OF _ assms(2,3)]] by blast
  next
    case False
    have "fle (fdiv (Fin q) (Fin c)) (Fin 0)" if "0 < c" for c
      using rnd_mono [of "q / c" 0] that False by (simp add: divide_nonpos_pos)
    then have "CalculateResourceAllocationImpact s (fdiv (Fin q) (Fin c)) = CalculateResourceAllocationImpact s (Fin 0)" if "0 < c" for c
      using that impact_nonpos by blast
    then show ?thesis unfolding Fin using impact_mono [OF assms(1), of "Fin 0" "Fin 0"] assms(2,3) by simp
  qed
next
  case NaN
  then show ?thesis by (simp add: CalculateResourceAllocationImpact_def Let_def)
next
  case PInf
  then show ?thesis using impact_mono [OF assms(1), of PInf PInf] assms(2,3) by (simp add: inf_of_def)
next
  case NInf
  then show ?thesis using impact_mono [OF assms(1), of NInf NInf] assms(2,3) by (simp add: inf_of_def)
qed

section \<open>The life of an optimizer\<close>

text \<open>A scaler builds one optimizer per specification and then interleaves tuning, offsets, workload
  updates and searches in any order.\<close>

inductive opt_reach :: "(f64 \<Rightarrow> f64 \<Rightarrow> f64) \<Rightarrow> rca_spec \<Rightarrow> resource_optimizer \<Rightarrow> bool" for pf spec where
  built: "set gs = set gpuRegistry \<Longrightarrow> NewResourceOptimizer gs ms spec = Ok s \<Longrightarrow> opt_reach pf spec s"
| workload: "opt_reach pf spec s \<Longrightarrow> opt_reach pf spec (SetWorkloadParameters s rate prompt output seqs)"
| offsets: "opt_reach pf spec s \<Longrightarrow> opt_reach pf spec (SetLatencyOffsets s itl ttft)"
| requested: "opt_reach pf spec s \<Longrightarrow> opt_reach pf spec (SetRequestedResources s replicas gpus compute memory)"
| tune: "opt_reach pf spec s \<Longrightarrow> opt_reach pf spec (TuneWithMetrics pf s prefill prompt output util mem n)"
| search: "opt_reach pf spec s \<Longrightarrow> FindOptimalConfiguration pf s rate t = Some (r, s') \<Longrightarrow> opt_reach pf spec s'"

definition estimator_ok :: "resource_estimator \<Rightarrow> bool" where
  "estimator_ok r \<longleftrightarrow> fle (lit (12 / 10)) (memoryOverheadFactor r) \<and>
     fle (memoryOverheadFactor r) MaxMemoryOverheadFactor \<and> MinMaxThreads \<le> MaxThreads (gpuSpec r) \<and>
     (gpuFound r \<longrightarrow> gpuSpec r \<in> snd ` set gpuRegistry)"

lemma registry_threads: "g \<in> snd ` set gpuRegistry \<Longrightarrow> MinMaxThreads \<le> MaxThreads g"
  by (auto simp: gpuRegistry_def a100_spec_def MinMaxThreads_def)

lemma lookup_sub_mem: "lookup_sub es n = Some v \<Longrightarrow> v \<in> snd ` set es"
proof -
  assume "lookup_sub es n = Some v"
  then obtain k where "find (\<lambda>(key, _). contains n key) es = Some (k, v)" by (auto simp: lookup_sub_def)
  then have "(k, v) \<in> set es" using find_Some_prefix by fastforce
  then show ?thesis by force
qed

lemma getGPUSpecs_mem: "set gs = set gpuRegistry \<Longrightarrow> snd (getGPUSpecs gs n) \<in> snd ` set gpuRegistry"
  using lookup_sub_mem [of gs "to_lower n"] by (auto simp: getGPUSpecs_def split: option.split) (simp add: gpuRegistry_def)

lemma built_ok:
  assumes "set gs = set gpuRegistry" "NewResourceEstimatorWithHint gs ms h = Ok r"
  shows "estimator_ok r"
proof -
  have "gpuSpec r \<in> snd ` set gpuRegistry" "memoryOverheadFactor r = lit (12 / 10)"
    using assms(2) getGPUSpecs_mem [OF assms(1)]
    by (auto simp: NewResourceEstimatorWithHint_def NewResourceEstimatorWithArchParam_def NewResourceEstimator_def
        mk_estimator_def choose_gpu_def Let_def split: option.splits sum.splits if_splits)
  moreover have "fle (lit (12 / 10)) (lit (12 / 10))" "fle (lit (12 / 10)) MaxMemoryOverheadFactor"
    by (simp_all add: MaxMemoryOverheadFactor_def f64_eval)
  ultimately show ?thesis using registry_threads by (simp add: estimator_ok_def)
qed

lemma tune_ok:
  assumes "estimator_ok r"
  shows "estimator_ok (tuneWithMemoryMetric pf (tuneWithComputeMetric r prefill util n) prefill prompt output mem n)"
proof -
  let ?r = "tuneWithComputeMetric r prefill util n"
  have c: "fle (memoryOverheadFactor ?r) MaxMemoryOverheadFactor" "fle (lit (12 / 10)) (memoryOverheadFactor ?r)"
    using assms by (auto simp: estimator_ok_def tuneWithComputeMetric_keeps)
  show ?thesis using tuneWithMemoryMetric_factor [OF c(1)] fle_trans [OF c(2)] assms
    by (auto simp: estimator_ok_def tuneWithMemoryMetric_keeps tuneWithComputeMetric_keeps)
qed

text \<open>C37: However an optimizer is used, its memory overhead factor stays between 1.2 and 1.3, its thread
  capacity at least 30720, a GPU that was found in the registry keeps its registry entry, and the bounds
  of the search remain those of the specification.\<close>

theorem optimizer_invariant:
  assumes "opt_reach pf spec s"
  shows "estimator_ok (resourceEstimator s) \<and> gpuConstraints s = extractGPUConstraints spec \<and>
    maxReplicas s = getMaxReplicas (SpecConstraints spec)"
  using assms
proof (induction rule: opt_reach.induct)
  case (built gs ms s)
  then show ?case using built_ok [OF built(1)]
    by (auto simp: NewResourceOptimizer_def Let_def split: sum.splits)
qed (auto simp: SetWorkloadParameters_def SetLatencyOffsets_def SetRequestedResources_def TuneWithMetrics_def Let_def
    FindOptimalConfiguration_def tune_ok)

lemma sample_reached: "opt_reach pf sample_spec sample"
proof -
  have "\<exists>s. NewResourceOptimizer gpuRegistry modelFamilyMap sample_spec = Ok s"
    by (simp add: sample_spec_def construct_defs go_int Let_def)
  then show ?thesis unfolding sample_def using opt_reach.built [OF refl] opt_reach.workload by fastforce
qed

theorem optimizer_invariant_witness:
  "estimator_ok (resourceEstimator (TuneWithMetrics (\<lambda>_ _. NaN) (SetLatencyOffsets sample (Fin 5) (Fin 7)) (Fin 100) 100 10 (Fin 80) (Fin 30) 1))"
proof -
  have "opt_reach (\<lambda>_ _. NaN) sample_spec sample" by (rule sample_reached)
  then show ?thesis using optimizer_invariant opt_reach.offsets opt_reach.tune by blast
qed

text \<open>The GPU an optimizer reckons with has the impact factors of an entry of the registry: an unnamed GPU starts from
  the default entry, and tuning changes its threads only.\<close>

lemma reached_sane: "opt_reach pf spec s \<Longrightarrow> \<exists>sp u. sane_gpu (gpuSpec (resourceEstimator s)) sp u"
proof (induction rule: opt_reach.induct)
  case (built gs ms s)
  then obtain h r where "NewResourceEstimatorWithHint gs ms h = Ok r" "resourceEstimator s = r"
    by (auto simp: NewResourceOptimizer_def Let_def split: sum.splits)
  moreover from this(1) have "gpuSpec r \<in> snd ` set gpuRegistry"
    using getGPUSpecs_mem [OF built(1)]
    by (auto simp: NewResourceEstimatorWithHint_def NewResourceEstimatorWithArchParam_def NewResourceEstimator_def
        mk_estimator_def choose_gpu_def Let_def split: option.splits sum.splits if_splits)
  ultimately show ?case using registry_sane by (metis imageE prod.collapse)
next
  case (tune s prefill prompt out util mem n)
  have "sane_gpu (gpuSpec (tuneWithComputeMetric r p c m)) sp u = sane_gpu (gpuSpec r) sp u" for r p c m sp u
    by (simp add: tuneWithComputeMetric_def sane_gpu_def Let_def)
  then show ?case using tune.IH by (simp add: TuneWithMetrics_def tuneWithMemoryMetric_keeps Let_def)
qed (auto simp: SetWorkloadParameters_def SetLatencyOffsets_def SetRequestedResources_def FindOptimalConfiguration_def Let_def, blast?)

text \<open>The time to read weights and cache for one token, over the GPUs of a replica; it is never negative but where the size
  of the cache per token exceeds 64 bits.\<close>

definition read_time :: "resource_optimizer \<Rightarrow> int \<Rightarrow> f64" where
  "read_time s g = fdiv (fadd (totalWeightReadTime (latencyEstimator s))
     (fmul (kvReadTimePerPromptToken (latencyEstimator s)) (i2f (avgPromptTokens s)))) (i2f g)"

lemma built_read_time:
  assumes "NewLatencyEstimatorWithHint h p gpu = Ok r" "nonneg (ParametersB p)" "0 \<le> Precision p" "nonneg (MemoryBW gpu)"
    and "0 \<le> BatchSize h" "0 \<le> MaxNumSeqs h" "calculateKVCacheBytesPerToken p = Ok b" "nonneg b" "0 \<le> len" "0 \<le> g"
  shows "nonneg (fdiv (fadd (totalWeightReadTime r) (fmul (kvReadTimePerPromptToken r) (i2f len))) (i2f g))"
proof -
  have l: "nonneg (lit (10 ^ 9))" "nonneg (lit (10 ^ 12))" "nonneg (lit 1000)" by (simp_all add: lit_def nonneg_iff fnn_rnd)
  define bw where "bw = fdiv (fmul (MemoryBW gpu) (lit (10 ^ 12))) (lit 1000)"
  define n where "n = fmin (i2f (BatchSize h)) (i2f (MaxNumSeqs h))"
  have bw: "nonneg bw" unfolding bw_def using assms(4) l by (intro nonneg_div nonneg_mul)
  have m: "nonneg n"
    using nonneg_i2f [OF assms(5)] nonneg_i2f [OF assms(6)] unfolding n_def
    by (cases "i2f (BatchSize h)"; cases "i2f (MaxNumSeqs h)") (auto simp: fmin_def)
  have r: "totalWeightReadTime r = fdiv (fmul (fmul (ParametersB p) (lit (10 ^ 9))) (i2f (Precision p))) bw"
    "kvReadTimePerPromptToken r = fdiv (fmul b n) bw"
    using assms(1,7) by (auto simp: NewLatencyEstimatorWithHint_def Let_def bw_def n_def)
  show ?thesis unfolding r
    by (intro nonneg_div nonneg_add nonneg_mul nonneg_i2f bw m assms(2,3,8-10) l(1))
qed

text \<open>C38: However the optimizer was tuned before, a replica with a smaller compute request is never estimated to have a
  smaller inter-token latency than the same replica with a larger one, whatever its occupancy, memory and offsets. The
  one condition is that the time to read weights and cache is not negative, as it would be only if the size of the cache
  per token exceeded 64 bits or the prompt length were negative.\<close>

theorem less_compute_not_faster:
  assumes "opt_reach pf spec s" "0 < k" "k \<le> k'" "nonneg (read_time s g)"
    and "itl = (\<lambda>k. ITL (EstimatedLatency (snd (evaluate_with pf s qa targets r g (Fin k) mem req))))"
  shows "\<not> flt (itl k) (itl k')"
proof -
  obtain sp u where g: "sane_gpu (gpuSpec (resourceEstimator s)) sp u" using reached_sane [OF assms(1)] by blast
  have e: "itl k = computeInterTokenLatency (latencyEstimator s) (avgPromptTokens s) g
     (CalculateResourceAllocationImpact s (fdiv (ThreadOccupancy req) (Fin k)))" for k
    unfolding assms(5) evaluate_latency AddQueuingResults_keeps(3) estimateLatency_fields(1) ..
  show ?thesis
  proof (cases "itl k = NaN \<or> itl k' = NaN")
    case True
    then show ?thesis by (cases "itl k") auto
  next
    case False
    then have "fle (itl k') (itl k)" using assms(4) impact_shrink [OF g assms(2,3)] unfolding e read_time_def by (intro itl_mono_impact) auto
    then show ?thesis by (cases "itl k"; cases "itl k'") (auto simp: fle_def feq_def)
  qed
qed

lemma less_compute_not_faster_witness:
  "\<not> flt (computeInterTokenLatency (latencyEstimator sample) 100 1 (CalculateResourceAllocationImpact sample (Fin 1)))
       (computeInterTokenLatency (latencyEstimator sample) 100 1 (CalculateResourceAllocationImpact sample (Fin (1 / 2))))"
proof -
  let ?itl = "\<lambda>k. ITL (EstimatedLatency (snd (evaluate_with (\<lambda>_ _. NaN) sample (NewQueueAnalyzer (Fin 1)) None 1 1 (Fin k) 0
     \<lparr>ThreadOccupancy = Fin 50, MemoryGB = Fin 10\<rparr>)))"
  have p: "avgPromptTokens sample = 100" by (simp add: sample_eval)
  have i: "?itl k = computeInterTokenLatency (latencyEstimator sample) 100 1
     (CalculateResourceAllocationImpact sample (fdiv (Fin 50) (Fin k)))" for k
    by (simp add: evaluate_latency AddQueuingResults_keeps estimateLatency_fields p)
  have n: "nonneg (read_time sample 1)" by (simp add: read_time_def sample_eval f64_eval)
  have d: "fdiv (Fin 50) (Fin 50) = Fin 1" "fdiv (Fin 50) (Fin 100) = Fin (1 / 2)" by (simp_all add: f64_eval)
  have "\<not> flt (?itl 50) (?itl 100)" by (rule less_compute_not_faster [OF sample_reached _ _ n refl]) simp_all
  then show ?thesis by (simp only: i d not_False_eq_True)
qed

end
