(* ===== verification/Scaler_Defaults.thy ===== *)
theory Scaler_Defaults
  imports Optimizer_Properties "HOL-Library.Monad_Syntax"
begin

text \<open>
  \<open>internal/scaler/defaults.go\<close> and the latency targets of \<open>scaler.go\<close>: the scaling behaviour and
  target latency that apply when the specification leaves them out.
\<close>

definition DefaultPeriodSeconds :: int where "DefaultPeriodSeconds = 60"
definition DefaultGracePeriodSeconds :: int where "DefaultGracePeriodSeconds = 30"
definition DefaultEndToEndLatencyMS :: int where "DefaultEndToEndLatencyMS = 5000"
definition DefaultTimeToFirstTokenLatencyMS :: int where "DefaultTimeToFirstTokenLatencyMS = 1000"
definition DefaultInterTokenLatencyMS :: int where "DefaultInterTokenLatencyMS = 50"
definition DefaultToleranceMS :: int where "DefaultToleranceMS = 500"

definition GetDefaultScalingBehavior :: scaling_behavior where
  "GetDefaultScalingBehavior = \<lparr>Trigger = \<lparr>PeriodSeconds = DefaultPeriodSeconds\<rparr>,
     GracePeriodSeconds = DefaultGracePeriodSeconds, SingleTimeScalingLimit = None\<rparr>"

definition GetEffectiveBehavior :: "rca_spec \<Rightarrow> behavior" where
  "GetEffectiveBehavior spec =
     (case SpecBehavior spec of
        None \<Rightarrow> \<lparr>ScaleUp = Some GetDefaultScalingBehavior, ScaleDown = Some GetDefaultScalingBehavior\<rparr>
      | Some b \<Rightarrow>
          (let e = \<lparr>ScaleUp = ScaleUp b, ScaleDown = ScaleDown b\<rparr>;
               e = (if ScaleUp e = None then e\<lparr>ScaleUp := Some GetDefaultScalingBehavior\<rparr> else e)
           in if ScaleDown e = None then e\<lparr>ScaleDown := Some GetDefaultScalingBehavior\<rparr> else e))"

definition default_target_latency :: target_latency where
  "default_target_latency = \<lparr>EndToEndLatencyMilliseconds = Some DefaultEndToEndLatencyMS,
     TimeToFirstTokenLatencyMilliseconds = Some DefaultTimeToFirstTokenLatencyMS,
     InterTokenLatencyMilliseconds = Some DefaultInterTokenLatencyMS,
     ToleranceMilliseconds = Some DefaultToleranceMS\<rparr>"

definition or_default :: "'a option \<Rightarrow> 'a option \<Rightarrow> 'a option" where
  "or_default p d = (case p of None \<Rightarrow> d | Some v \<Rightarrow> Some v)"

definition GetEffectiveTargetLatency :: "rca_spec \<Rightarrow> target_latency" where
  "GetEffectiveTargetLatency spec =
     (case TargetLatency spec of
        None \<Rightarrow> default_target_latency
      | Some t \<Rightarrow>
          \<lparr>EndToEndLatencyMilliseconds =
             or_default (EndToEndLatencyMilliseconds t) (EndToEndLatencyMilliseconds default_target_latency),
           TimeToFirstTokenLatencyMilliseconds =
             or_default (TimeToFirstTokenLatencyMilliseconds t) (TimeToFirstTokenLatencyMilliseconds default_target_latency),
           InterTokenLatencyMilliseconds =
             or_default (InterTokenLatencyMilliseconds t) (InterTokenLatencyMilliseconds default_target_latency),
           ToleranceMilliseconds =
             or_default (ToleranceMilliseconds t) (ToleranceMilliseconds default_target_latency)\<rparr>)"

text \<open>\<open>getTargetLatency\<close> of \<open>scaler.go\<close>.\<close>

definition getTargetLatency :: "target_latency \<Rightarrow> latency_targets res" where
  "getTargetLatency t =
     (let r = \<lparr>TargetE2E = map_option i2f (EndToEndLatencyMilliseconds t),
               TargetTTFT = map_option i2f (TimeToFirstTokenLatencyMilliseconds t),
               TargetITL = map_option i2f (InterTokenLatencyMilliseconds t)\<rparr>
      in if TargetE2E r = None \<and> TargetTTFT r = None \<and> TargetITL r = None
         then Fail ''no latency target configured'' else Ok r)"

text \<open>The methods of the package's own \<open>LatencyTargets\<close>.\<close>

definition HasAnyTarget :: "latency_targets \<Rightarrow> bool" where
  "HasAnyTarget t = (TargetE2E t \<noteq> None \<or> TargetTTFT t \<noteq> None \<or> TargetITL t \<noteq> None)"

definition GetPrimaryTarget :: "latency_targets \<Rightarrow> f64" where
  "GetPrimaryTarget t =
     (case TargetE2E t of Some x \<Rightarrow> x | None \<Rightarrow>
       (case TargetTTFT t of Some x \<Rightarrow> x | None \<Rightarrow>
         (case TargetITL t of Some x \<Rightarrow> x | None \<Rightarrow> Fin 0)))"

section \<open>Facts\<close>

lemma effective_behavior_some [simp]:
  "ScaleUp (GetEffectiveBehavior spec) \<noteq> None" "ScaleDown (GetEffectiveBehavior spec) \<noteq> None"
  by (auto simp: GetEffectiveBehavior_def Let_def split: option.split)

lemma effective_latency_some [simp]:
  "EndToEndLatencyMilliseconds (GetEffectiveTargetLatency spec) \<noteq> None"
  "TimeToFirstTokenLatencyMilliseconds (GetEffectiveTargetLatency spec) \<noteq> None"
  "InterTokenLatencyMilliseconds (GetEffectiveTargetLatency spec) \<noteq> None"
  "ToleranceMilliseconds (GetEffectiveTargetLatency spec) \<noteq> None"
  by (auto simp: GetEffectiveTargetLatency_def default_target_latency_def or_default_def split: option.split)

lemma effective_latency_keeps:
  "TargetLatency spec = Some t \<Longrightarrow> EndToEndLatencyMilliseconds t = Some x \<Longrightarrow>
     EndToEndLatencyMilliseconds (GetEffectiveTargetLatency spec) = Some x"
  by (simp add: GetEffectiveTargetLatency_def or_default_def)

lemma target_of_effective:
  "\<exists>a b c. getTargetLatency (GetEffectiveTargetLatency spec) =
     Ok \<lparr>TargetE2E = Some (i2f a), TargetTTFT = Some (i2f b), TargetITL = Some (i2f c)\<rparr> \<and>
     EndToEndLatencyMilliseconds (GetEffectiveTargetLatency spec) = Some a \<and>
     TimeToFirstTokenLatencyMilliseconds (GetEffectiveTargetLatency spec) = Some b \<and>
     InterTokenLatencyMilliseconds (GetEffectiveTargetLatency spec) = Some c"
proof -
  obtain a b c where "EndToEndLatencyMilliseconds (GetEffectiveTargetLatency spec) = Some a"
    "TimeToFirstTokenLatencyMilliseconds (GetEffectiveTargetLatency spec) = Some b"
    "InterTokenLatencyMilliseconds (GetEffectiveTargetLatency spec) = Some c"
    using effective_latency_some [of spec] by blast
  then show ?thesis by (simp add: getTargetLatency_def)
qed

lemma primary_target_mem:
  "HasAnyTarget t \<Longrightarrow> Some (GetPrimaryTarget t) \<in> {TargetE2E t, TargetTTFT t, TargetITL t}"
  by (auto simp: HasAnyTarget_def GetPrimaryTarget_def split: option.split)

text \<open>Defaulting fills every missing latency field and never overrides a given one, so the error ``no
  latency target configured'' cannot occur on an effective specification: all three targets are set.\<close>

lemma effective_targets_total:
  "\<exists>t. getTargetLatency (GetEffectiveTargetLatency spec) = Ok t \<and>
     TargetE2E t = Some (i2f (get_or (TargetLatency spec \<bind> EndToEndLatencyMilliseconds) 5000)) \<and>
     TargetTTFT t = Some (i2f (get_or (TargetLatency spec \<bind> TimeToFirstTokenLatencyMilliseconds) 1000)) \<and>
     TargetITL t = Some (i2f (get_or (TargetLatency spec \<bind> InterTokenLatencyMilliseconds) 50))"
  by (auto simp: getTargetLatency_def GetEffectiveTargetLatency_def default_target_latency_def or_default_def
      DefaultEndToEndLatencyMS_def DefaultTimeToFirstTokenLatencyMS_def DefaultInterTokenLatencyMS_def
      split: option.split)

end
