(* ===== verification/Metric_Handler.thy ===== *)
theory Metric_Handler
  imports Scaler_Defaults
begin

text \<open>
  \<open>internal/scaler/metric_handler.go\<close>: reading the workload's metrics, which arrive as strings. A
  missing, erroneous or out-of-range metric falls back to a default. \<open>strconv.ParseFloat\<close> is modelled
  on decimal syntax with its underscores, infinity and NaN; its hexadecimal and binary-exponent syntax is the parameter
  \<open>hx\<close>. Strings are ASCII.
\<close>

type_synonym metrics = "string \<rightharpoonup> string"

section \<open>Parsing of numbers\<close>

definition split_sign :: "string \<Rightarrow> bool \<times> string" where
  "split_sign s = (if has_prefix s ''-'' then (True, tl s) else if has_prefix s ''+'' then (False, tl s) else (False, s))"

definition all_digits :: "string \<Rightarrow> bool" where
  "all_digits s = (s \<noteq> [] \<and> list_all is_digit s)"

text \<open>The exponent after the mantissa: absent, or \<open>e\<close>, a sign and digits.\<close>

definition parse_exponent :: "string \<Rightarrow> int option" where
  "parse_exponent s =
     (if s = [] then Some 0
      else if has_prefix (to_lower s) ''e'' then
        (case split_sign (tl s) of (neg, d) \<Rightarrow>
           if all_digits d then Some (if neg then - digits_val d else digits_val d) else None)
      else None)"

definition apply_sign :: "bool \<Rightarrow> f64 \<Rightarrow> f64" where
  "apply_sign neg a = (if neg then fneg a else a)"

text \<open>A decimal number after its sign.\<close>

definition decimal_float :: "bool \<Rightarrow> string \<Rightarrow> f64 option" where
  "decimal_float neg r =
     (let i = takeWhile is_digit r; r1 = dropWhile is_digit r;
          f = (if has_prefix r1 ''.'' then takeWhile is_digit (tl r1) else []);
          r2 = (if has_prefix r1 ''.'' then dropWhile is_digit (tl r1) else r1)
      in if i = [] \<and> f = [] then None
         else case parse_exponent r2 of
           None \<Rightarrow> None
         | Some e \<Rightarrow>
             (case lit (of_int (digits_val (i @ f)) * 10 powi (e - int (length f))) of
                PInf \<Rightarrow> None
              | v \<Rightarrow> Some (apply_sign neg v)))"

text \<open>Underscores may separate digits: each stands between two of them.\<close>

fun underscoreOK :: "bool \<Rightarrow> string \<Rightarrow> bool" where
  "underscoreOK after_digit [] = True"
| "underscoreOK after_digit (c # s) =
     (if c = CHR ''_'' then after_digit \<and> s \<noteq> [] \<and> is_digit (hd s) \<and> underscoreOK False s
      else underscoreOK (is_digit c) s)"

definition strconv_ParseFloat :: "(string \<Rightarrow> f64 option) \<Rightarrow> string \<Rightarrow> f64 option" where
  "strconv_ParseFloat hx s =
     (case split_sign s of (neg, r) \<Rightarrow>
        if to_lower r = ''inf'' \<or> to_lower r = ''infinity'' then Some (apply_sign neg PInf)
        else if to_lower s = ''nan'' then Some NaN
        else if has_prefix (to_lower r) ''0x'' then hx s
        else if CHR ''_'' \<notin> set r then decimal_float neg r
        else if underscoreOK False r then decimal_float neg (filter (\<lambda>c. c \<noteq> CHR ''_'') r)
        else None)"

text \<open>\<open>1_000.5\<close> is a number, \<open>1__0\<close> and \<open>1_.5\<close> are not.\<close>

lemma underscores:
  "strconv_ParseFloat hx ''1_000.5'' = strconv_ParseFloat hx ''1000.5''" "strconv_ParseFloat hx ''1__0'' = None"
  "strconv_ParseFloat hx ''1_.5'' = None"
  by (simp_all add: strconv_ParseFloat_def split_sign_def is_digit_def to_lower_def lower_char_def)

definition is_space :: "char \<Rightarrow> bool" where
  "is_space c = (c = CHR '' '' \<or> (9 \<le> (of_char c :: nat) \<and> (of_char c :: nat) \<le> 13))"

definition trim_space :: "string \<Rightarrow> string" where
  "trim_space s = rev (dropWhile is_space (rev (dropWhile is_space s)))"

definition parseFloat :: "(string \<Rightarrow> f64 option) \<Rightarrow> string \<Rightarrow> f64 option" where
  "parseFloat hx str = (if str = [] then None else strconv_ParseFloat hx (trim_space str))"

text \<open>\<open>fmt.Sscanf(s, "%f", &rate)\<close>: blanks are skipped, the longest token of a number is read and
  parsed, and what follows is ignored. Tokens with a binary exponent or a hexadecimal mantissa go to
  \<open>hx\<close>.\<close>

definition float_token :: "string \<Rightarrow> string" where
  "float_token s =
     (if has_prefix (to_lower s) ''nan'' then take 3 s
      else
        let sign = (if has_prefix s ''+'' \<or> has_prefix s ''-'' then take 1 s else []);
            r = drop (length sign) s;
            digit = (\<lambda>c. is_digit c \<or> c = CHR ''_'')
        in if has_prefix (to_lower r) ''inf'' then sign @ take 3 r
           else
             let i = takeWhile digit r; r1 = dropWhile digit r;
                 p = (if has_prefix r1 ''.'' then ''.'' else []); r2 = drop (length p) r1;
                 f = (if p = [] then [] else takeWhile digit r2); r3 = drop (length f) r2;
                 e = (if has_prefix (to_lower r3) ''e'' \<or> has_prefix (to_lower r3) ''p'' then take 1 r3 else []);
                 r4 = drop (length e) r3;
                 es = (if e \<noteq> [] \<and> (has_prefix r4 ''+'' \<or> has_prefix r4 ''-'') then take 1 r4 else []);
                 ed = (if e = [] then [] else takeWhile digit (drop (length es) r4))
             in sign @ i @ p @ f @ e @ es @ ed)"

definition sscanf_f :: "(string \<Rightarrow> f64 option) \<Rightarrow> string \<Rightarrow> f64 option" where
  "sscanf_f hx s =
     (let s = dropWhile (\<lambda>c. is_space c \<and> of_char c \<noteq> (10::nat)) s;
          r = snd (split_sign s); t = float_token s
      in if has_prefix (to_lower r) ''0x'' \<or> contains (to_lower t) ''p'' then hx s
         else strconv_ParseFloat hx t)"

section \<open>The metrics\<close>

definition isValidMetric :: "string \<Rightarrow> bool" where
  "isValidMetric v \<longleftrightarrow> v \<noteq> [] \<and> \<not> has_prefix v ''error:''"

text \<open>The value of a metric that is present, valid and parses.\<close>

definition metric_value :: "(string \<Rightarrow> f64 option) \<Rightarrow> metrics \<Rightarrow> string \<Rightarrow> f64 option" where
  "metric_value hx m k = (case m k of Some v \<Rightarrow> if isValidMetric v then parseFloat hx v else None | None \<Rightarrow> None)"

definition getArrivalRate :: "(string \<Rightarrow> f64 option) \<Rightarrow> metrics \<Rightarrow> f64" where
  "getArrivalRate hx m =
     (case m ''RequestRate'' \<bind> sscanf_f hx of
        Some rate \<Rightarrow> rate
      | None \<Rightarrow> get_or (metric_value hx m ''RPSQuery'') (Fin 0))"

definition positive_int :: "f64 option \<Rightarrow> int" where
  "positive_int v = (case v of Some x \<Rightarrow> if fgt x (Fin 0) then f2i64 x else 0 | None \<Rightarrow> 0)"

definition positive_or_zero :: "f64 option \<Rightarrow> f64" where
  "positive_or_zero v = (case v of Some x \<Rightarrow> if fgt x (Fin 0) then x else Fin 0 | None \<Rightarrow> Fin 0)"

definition getPromptTokens :: "(string \<Rightarrow> f64 option) \<Rightarrow> metrics \<Rightarrow> int" where
  "getPromptTokens hx m = positive_int (metric_value hx m ''PromptTokenQuery'')"

definition getOutputTokens :: "(string \<Rightarrow> f64 option) \<Rightarrow> metrics \<Rightarrow> int" where
  "getOutputTokens hx m = positive_int (metric_value hx m ''GenerationTokenQuery'')"

definition getMaxNumSeqs :: "rca_spec \<Rightarrow> int" where
  "getMaxNumSeqs spec = (case Hint (Target spec) of Some h \<Rightarrow> if 0 < MaxNumSeqs h then MaxNumSeqs h else 10 | None \<Rightarrow> 10)"

definition getPrefillTokens :: "(string \<Rightarrow> f64 option) \<Rightarrow> metrics \<Rightarrow> f64" where
  "getPrefillTokens hx m = positive_or_zero (metric_value hx m ''PrefillTokensQuery'')"

definition in_range :: "f64 \<Rightarrow> f64 \<Rightarrow> bool" where
  "in_range hi x \<longleftrightarrow> fge x (Fin 0) \<and> fle x hi"

definition getCacheHitRatio :: "(string \<Rightarrow> f64 option) \<Rightarrow> metrics \<Rightarrow> f64" where
  "getCacheHitRatio hx m =
     (let computed =
        (case (metric_value hx m ''PrefixCacheHitsQuery'', metric_value hx m ''PrefixCacheQueriesQuery'') of
           (Some hits, Some queries) \<Rightarrow>
             if fgt queries (Fin 0) \<and> in_range (Fin 1) (fdiv hits queries) then fdiv hits queries else Fin 0
         | _ \<Rightarrow> Fin 0)
      in case metric_value hx m ''CacheHitRatioQuery'' of
           Some ratio \<Rightarrow> if in_range (Fin 1) ratio then ratio else computed
         | None \<Rightarrow> computed)"

definition getComputeThreadUtilization :: "(string \<Rightarrow> f64 option) \<Rightarrow> metrics \<Rightarrow> f64" where
  "getComputeThreadUtilization hx m =
     (case metric_value hx m ''DeviceResource_compute_Usage'' of
        Some util \<Rightarrow> if in_range (Fin 100) util then util else Fin 0
      | None \<Rightarrow> Fin 0)"

definition getMeasuredMemoryUsage :: "(string \<Rightarrow> f64 option) \<Rightarrow> metrics \<Rightarrow> f64" where
  "getMeasuredMemoryUsage hx m = positive_or_zero (metric_value hx m ''DeviceResource_memory_Usage'')"

definition getNumGPU :: "(string \<Rightarrow> f64 option) \<Rightarrow> metrics \<Rightarrow> int" where
  "getNumGPU hx m = positive_int (metric_value hx m ''AllocationCountQuery'')"

definition seconds_to_ms :: "f64 option \<Rightarrow> f64" where
  "seconds_to_ms v = (case v of Some x \<Rightarrow> if fgt x (Fin 0) then fmul x (Fin 1000) else Fin 0 | None \<Rightarrow> Fin 0)"

definition getInterTokenLatency :: "(string \<Rightarrow> f64 option) \<Rightarrow> metrics \<Rightarrow> f64" where
  "getInterTokenLatency hx m = seconds_to_ms (metric_value hx m ''InterTokenLatencyQuery'')"

definition getTimeToFirstToken :: "(string \<Rightarrow> f64 option) \<Rightarrow> metrics \<Rightarrow> f64" where
  "getTimeToFirstToken hx m = seconds_to_ms (metric_value hx m ''TimeToFirstTokenLatencyQuery'')"

section \<open>Ranges\<close>

lemma positive_or_zero_nonneg: "nonneg (positive_or_zero v)" "positive_or_zero v \<noteq> NaN"
  by (auto simp: positive_or_zero_def flt_asym split: option.split)

lemma seconds_to_ms_nonneg: "nonneg (seconds_to_ms v)"
  by (auto simp: seconds_to_ms_def flt_asym nonneg_mul split: option.split)

lemma in_range_zero [simp]: "0 \<le> q \<Longrightarrow> in_range (Fin q) (Fin 0)"
  by (simp add: in_range_def)

lemma cache_ratio_range: "in_range (Fin 1) (getCacheHitRatio hx m)"
  by (auto simp: getCacheHitRatio_def Let_def split: option.split)

lemma compute_util_range: "in_range (Fin 100) (getComputeThreadUtilization hx m)"
  by (auto simp: getComputeThreadUtilization_def split: option.split)

text \<open>Whatever text the metrics carry, missing, erroneous, NaN, infinite or negative, the readings used
  for tuning are in range: the cache hit ratio in the unit interval, the compute utilization a
  percentage, memory, prefill tokens and measured latencies not negative.\<close>

lemma metric_readings_in_range:
  "in_range (Fin 1) (getCacheHitRatio hx m) \<and> in_range (Fin 100) (getComputeThreadUtilization hx m) \<and>
   nonneg (getMeasuredMemoryUsage hx m) \<and> nonneg (getPrefillTokens hx m) \<and>
   nonneg (getInterTokenLatency hx m) \<and> nonneg (getTimeToFirstToken hx m)"
  unfolding getMeasuredMemoryUsage_def getPrefillTokens_def getInterTokenLatency_def getTimeToFirstToken_def
  using cache_ratio_range compute_util_range positive_or_zero_nonneg seconds_to_ms_nonneg by blast

lemma lower_NaN: "lower_char CHR ''N'' = CHR ''n''" "lower_char CHR ''a'' = CHR ''a''"
  by code_simp+

text \<open>The arrival rate is the exception: the text \<open>NaN\<close>, which a monitoring backend returns for a
  ratio without samples, is passed on as a rate that is not a number and is not equal to zero.\<close>

lemma arrival_rate_can_be_NaN:
  "getArrivalRate hx [''RPSQuery'' \<mapsto> ''NaN''] = NaN \<and> \<not> feq (getArrivalRate hx [''RPSQuery'' \<mapsto> ''NaN'']) (Fin 0)"
  by (simp add: getArrivalRate_def metric_value_def isValidMetric_def parseFloat_def strconv_ParseFloat_def
      trim_space_def is_space_def split_sign_def to_lower_def lower_NaN)

end
