(* ===== verification/Scaling_Action.thy ===== *)
theory Scaling_Action
  imports Metric_Handler
begin

text \<open>
  \<open>internal/scaler/scaling_action.go\<close>: the decision whether and how to scale, its veto by the minimum
  target utilization, and the limit on a single step. The reading of the current template is an
  argument here; \<open>Resource_Scaler\<close> supplies it. A reason is kept as the constant head of its format
  string.
\<close>

section \<open>Data\<close>

datatype scaling_action = ActionNone | ActionScaleUp | ActionScaleDown

record scaling_decision =
  Action :: scaling_action
  ReplicaChange :: bool
  ResourceChange :: bool
  CurrentConfig :: resource_configuration
  DesiredConfig :: resource_configuration
  Reason :: string

definition defaultGPUsPerReplica :: int where "defaultGPUsPerReplica = 1"
definition defaultComputeThreadPercent :: f64 where "defaultComputeThreadPercent = lit 100"
definition defaultMemoryGB :: f64 where "defaultMemoryGB = lit 80"

section \<open>The minimum target utilization\<close>

definition calculateResourceUtilization :: "string \<Rightarrow> scaling_decision \<Rightarrow> f64" where
  "calculateResourceUtilization resourceName d =
     (if resourceName = ''compute'' then RequestedCompute (DesiredConfig d)
      else if resourceName = ''memory'' then Fin 1
      else RequestedCompute (DesiredConfig d))"

definition exceeds_target :: "scaling_decision \<Rightarrow> string \<Rightarrow> quantity \<Rightarrow> bool" where
  "exceeds_target d resourceName q =
     (let ratio = AsApproximateFloat64 q; u = calculateResourceUtilization resourceName d
      in fgt ratio (Fin 0) \<and> fge u (Fin 0) \<and> fge u ratio)"

fun find_exceeding :: "scaling_decision \<Rightarrow> (string \<times> quantity) list \<Rightarrow> string option" where
  "find_exceeding d [] = None"
| "find_exceeding d ((key, q) # rest) =
     (if key \<noteq> ''compute'' \<and> key \<noteq> ''memory'' \<and> exceeds_target d key q then Some key
      else find_exceeding d rest)"

definition checkMinTargetUtilization :: "autoscaler \<Rightarrow> scaling_decision \<Rightarrow> f64 \<Rightarrow> bool \<times> string" where
  "checkMinTargetUtilization a d rate =
     (let t = MinTargetUtilization (Spec a) in
      if Action d \<noteq> ActionScaleDown then (False, [])
      else if feq rate (Fin 0) then (False, [])
      else if t = [] then (False, [])
      else if (case map_of t ''compute'' of Some q \<Rightarrow> exceeds_target d ''compute'' q | None \<Rightarrow> False)
        then (True, ''Compute utilization is above minimum target'')
      else if (case map_of t ''memory'' of Some q \<Rightarrow> exceeds_target d ''memory'' q | None \<Rightarrow> False)
        then (True, ''Memory utilization is above minimum target'')
      else (case find_exceeding d t of
              Some key \<Rightarrow> (True, key @ '' utilization is above minimum target'')
            | None \<Rightarrow> (False, [])))"

section \<open>The limit of one step\<close>

text \<open>The floored division and remainder by the desired GPUs per replica panic on zero.\<close>

definition applySingleTimeScalingLimit :: "autoscaler \<Rightarrow> scaling_decision \<Rightarrow> scaling_decision res" where
  "applySingleTimeScalingLimit a d =
     (let limit = (case SpecBehavior (Spec a) of None \<Rightarrow> None | Some b \<Rightarrow>
                     if Action d = ActionScaleUp then ScaleUp b \<bind> SingleTimeScalingLimit
                     else if Action d = ActionScaleDown then ScaleDown b \<bind> SingleTimeScalingLimit
                     else None)
      in case limit of None \<Rightarrow> Ok d | Some limitValue \<Rightarrow>
        if limitValue \<le> 0 then Ok d
        else
          let current = CurrentConfig d; desired = DesiredConfig d;
              currentTotal = wrap64 (Replicas current * GPUsPerReplica current);
              desiredTotal = wrap64 (Replicas desired * GPUsPerReplica desired);
              change = wrap64 (desiredTotal - currentTotal)
          in if \<not> fgt (fabs (i2f change)) (i2f limitValue) then Ok d
             else
               let limited = (if 0 < change then wrap64 (currentTotal + limitValue)
                              else max 1 (wrap64 (currentTotal - limitValue)));
                   d = d\<lparr>Reason := Reason d @ '' (limited by singleTimeScalingLimit)''\<rparr>
               in if GPUsPerReplica desired \<le> limited then
                    (case go_div limited (GPUsPerReplica desired) of
                       Inl e \<Rightarrow> Inl e
                     | Inr q \<Rightarrow>
                         Ok (d\<lparr>DesiredConfig := desired\<lparr>Replicas :=
                           (if 0 < limited smod GPUsPerReplica desired \<and> 0 < q then wrap64 (q + 1) else q)\<rparr>\<rparr>))
                  else Ok (d\<lparr>DesiredConfig := desired\<lparr>Replicas := 1, GPUsPerReplica := limited\<rparr>\<rparr>))"

section \<open>The decision\<close>

definition resourceChangeThreshold :: f64 where "resourceChangeThreshold = lit (1 / 100)"

definition total_compute :: "resource_configuration \<Rightarrow> f64" where
  "total_compute c = fmul (fmul (i2f (Replicas c)) (i2f (GPUsPerReplica c))) (RequestedCompute c)"

definition total_memory :: "resource_configuration \<Rightarrow> f64" where
  "total_memory c = fmul (i2f (Replicas c)) (RequestedMemoryGB c)"

definition differs :: "f64 \<Rightarrow> f64 \<Rightarrow> bool" where
  "differs x y = fgt (fabs (fsub x y)) resourceChangeThreshold"

definition current_configuration :: "autoscaler \<Rightarrow> (int \<times> (string \<rightharpoonup> quantity)) res \<Rightarrow> resource_configuration" where
  "current_configuration a template =
     (let replicas = get_or (ScalingStatus (Status a) \<bind> DesiredReplicas) 1;
          c = \<lparr>Replicas = replicas, GPUsPerReplica = defaultGPUsPerReplica,
               RequestedCompute = defaultComputeThreadPercent, RequestedMemoryGB = defaultMemoryGB\<rparr>
      in case template of
           Inl _ \<Rightarrow> c
         | Inr (gpus, resources) \<Rightarrow>
             c\<lparr>GPUsPerReplica := gpus,
               RequestedCompute := get_or (map_option AsApproximateFloat64 (resources ''compute'')) (RequestedCompute c),
               RequestedMemoryGB := get_or (map_option (\<lambda>q. fdiv (AsApproximateFloat64 q) (lit 1073741824))
                 (resources ''memory'')) (RequestedMemoryGB c)\<rparr>)"

definition decide :: "resource_configuration \<Rightarrow> resource_configuration \<Rightarrow> scaling_decision" where
  "decide current desired =
     (let cc = total_compute current; dc = total_compute desired;
          cm = total_memory current; dm = total_memory desired;
          computeEqual = fle (fabs (fsub dc cc)) resourceChangeThreshold;
          memoryEqual = fle (fabs (fsub dm cm)) (fmul cm resourceChangeThreshold);
          replicas = (Replicas current \<noteq> Replicas desired);
          memoryChange = differs (RequestedMemoryGB current) (RequestedMemoryGB desired);
          resources = (GPUsPerReplica current \<noteq> GPUsPerReplica desired \<or>
             differs (RequestedCompute current) (RequestedCompute desired) \<or> memoryChange);
          d = \<lparr>Action = ActionNone, ReplicaChange = False, ResourceChange = False, CurrentConfig = current,
               DesiredConfig = desired, Reason = []\<rparr>
      in if computeEqual \<and> memoryEqual then d\<lparr>Reason := ''Current configuration meets requirements''\<rparr>
         else if fgt dc cc then d\<lparr>Action := ActionScaleUp, ReplicaChange := replicas, ResourceChange := resources,
           Reason := ''Scale up: total compute''\<rparr>
         else if flt dc cc then d\<lparr>Action := ActionScaleDown, ReplicaChange := replicas, ResourceChange := resources,
           Reason := ''Scale down: total compute''\<rparr>
         else if fgt dm cm then d\<lparr>Action := ActionScaleUp, ReplicaChange := replicas, ResourceChange := memoryChange,
           Reason := ''Scale up: total memory''\<rparr>
         else d\<lparr>Action := ActionScaleDown, ReplicaChange := replicas, ResourceChange := memoryChange,
           Reason := ''Scale down: total memory''\<rparr>)"

definition determineScalingAction ::
  "autoscaler \<Rightarrow> (int \<times> (string \<rightharpoonup> quantity)) res \<Rightarrow> resource_configuration \<Rightarrow> f64 \<Rightarrow> scaling_decision res" where
  "determineScalingAction a template desired rate =
     (let d = decide (current_configuration a template) desired;
          (block, why) = checkMinTargetUtilization a d rate;
          d = (if Action d = ActionScaleDown \<and> block
               then d\<lparr>Action := ActionNone, Reason := why, ReplicaChange := False, ResourceChange := False\<rparr> else d)
      in if Action d \<noteq> ActionNone then applySingleTimeScalingLimit a d else Ok d)"

section \<open>Direction\<close>

lemma decide_configs [simp]:
  "CurrentConfig (decide c d) = c" "DesiredConfig (decide c d) = d"
  by (simp_all add: decide_def Let_def)

lemma decide_none:
  "Action (decide c d) = ActionNone \<longleftrightarrow>
     fle (fabs (fsub (total_compute d) (total_compute c))) resourceChangeThreshold \<and>
     fle (fabs (fsub (total_memory d) (total_memory c))) (fmul (total_memory c) resourceChangeThreshold)"
  by (simp add: decide_def Let_def)

lemma decide_none_flags:
  "Action (decide c d) = ActionNone \<Longrightarrow> \<not> ReplicaChange (decide c d) \<and> \<not> ResourceChange (decide c d)"
  by (auto simp: decide_def Let_def split: if_splits)

lemma decide_up:
  "Action (decide c d) = ActionScaleUp \<Longrightarrow>
   fgt (total_compute d) (total_compute c) \<or>
   (\<not> flt (total_compute d) (total_compute c) \<and> fgt (total_memory d) (total_memory c))"
  by (auto simp: decide_def Let_def split: if_splits)

lemma decide_down:
  "Action (decide c d) = ActionScaleDown \<Longrightarrow>
   flt (total_compute d) (total_compute c) \<or>
   (\<not> fgt (total_compute d) (total_compute c) \<and> \<not> fgt (total_memory d) (total_memory c))"
  by (auto simp: decide_def Let_def split: if_splits)

lemma decide_replica_change: "ReplicaChange (decide c d) \<Longrightarrow> Replicas c \<noteq> Replicas d"
  by (auto simp: decide_def Let_def split: if_splits)

lemma limit_keeps:
  assumes "applySingleTimeScalingLimit a d = Ok d'"
  shows "Action d' = Action d" "ReplicaChange d' = ReplicaChange d" "ResourceChange d' = ResourceChange d"
    "CurrentConfig d' = CurrentConfig d" "RequestedCompute (DesiredConfig d') = RequestedCompute (DesiredConfig d)"
    "RequestedMemoryGB (DesiredConfig d') = RequestedMemoryGB (DesiredConfig d)"
  using assms
  by (auto simp: applySingleTimeScalingLimit_def Let_def split: option.splits if_splits sum.splits)

text \<open>The decision before the limit: the comparison, with the veto.\<close>

definition vetoed :: "autoscaler \<Rightarrow> scaling_decision \<Rightarrow> f64 \<Rightarrow> scaling_decision" where
  "vetoed a d rate =
     (if Action d = ActionScaleDown \<and> fst (checkMinTargetUtilization a d rate)
      then d\<lparr>Action := ActionNone, Reason := snd (checkMinTargetUtilization a d rate),
             ReplicaChange := False, ResourceChange := False\<rparr> else d)"

lemma determine_vetoed:
  "determineScalingAction a t desired rate =
     (let d = vetoed a (decide (current_configuration a t) desired) rate
      in if Action d \<noteq> ActionNone then applySingleTimeScalingLimit a d else Ok d)"
  by (simp add: determineScalingAction_def vetoed_def Let_def split_def)

lemma vetoed_simps [simp]:
  "CurrentConfig (vetoed a d r) = CurrentConfig d" "DesiredConfig (vetoed a d r) = DesiredConfig d"
  by (simp_all add: vetoed_def)

lemma vetoed_action: "Action (vetoed a d r) = ActionNone \<or> vetoed a d r = d"
  by (auto simp: vetoed_def)

lemma determine_cases:
  assumes "determineScalingAction a t desired rate = Ok d"
  obtains (none) "d = vetoed a (decide (current_configuration a t) desired) rate" "Action d = ActionNone"
  | (scale) "Action d \<noteq> ActionNone"
      "vetoed a (decide (current_configuration a t) desired) rate = decide (current_configuration a t) desired"
      "applySingleTimeScalingLimit a (decide (current_configuration a t) desired) = Ok d"
proof (cases "Action (vetoed a (decide (current_configuration a t) desired) rate) = ActionNone")
  case True then show thesis using none assms by (simp add: determine_vetoed Let_def)
next
  case False
  then have v: "vetoed a (decide (current_configuration a t) desired) rate = decide (current_configuration a t) desired"
    using vetoed_action by blast
  then show thesis using scale assms False limit_keeps(1) by (simp add: determine_vetoed Let_def)
qed

section \<open>The limit\<close>

definition gpus :: "resource_configuration \<Rightarrow> int" where
  "gpus c = Replicas c * GPUsPerReplica c"

definition step_limit :: "autoscaler \<Rightarrow> scaling_action \<Rightarrow> int option" where
  "step_limit a act = (case SpecBehavior (Spec a) of None \<Rightarrow> None | Some b \<Rightarrow>
     if act = ActionScaleUp then ScaleUp b \<bind> SingleTimeScalingLimit
     else if act = ActionScaleDown then ScaleDown b \<bind> SingleTimeScalingLimit else None)"

lemma ceil_div_bounds:
  fixes l g :: int
  assumes "1 \<le> g" "g \<le> l"
  shows "l \<le> (if 0 < l mod g then l div g + 1 else l div g) * g"
    "(if 0 < l mod g then l div g + 1 else l div g) * g < l + g"
    "l \<le> r * g \<Longrightarrow> (if 0 < l mod g then l div g + 1 else l div g) * g \<le> r * g"
proof -
  obtain q m where q: "l div g = q" "l mod g = m" by blast
  have l: "l = q * g + m" "0 \<le> m" "m < g"
    using assms div_mult_mod_eq [of l g] pos_mod_bound [of g l] pos_mod_sign [of g l] unfolding q by auto
  show "l \<le> (if 0 < l mod g then l div g + 1 else l div g) * g"
    "(if 0 < l mod g then l div g + 1 else l div g) * g < l + g"
    unfolding q using l assms by (auto simp: distrib_right)
  assume r: "l \<le> r * g"
  then have "q * g \<le> r * g" using l by linarith
  then have "q \<le> r" using assms by simp
  moreover have "q \<noteq> r" if "0 < m" using that l r by auto
  ultimately have "(if 0 < m then q + 1 else q) \<le> r" by auto
  then show "(if 0 < l mod g then l div g + 1 else l div g) * g \<le> r * g"
    unfolding q using assms by (intro mult_right_mono) auto
qed

lemma ceil_div:
  fixes l g :: int
  assumes "1 \<le> g"
  shows "(l + g - 1) div g = (if 0 < l mod g then l div g + 1 else l div g)"
proof -
  obtain q m where q: "l div g = q" "l mod g = m" by blast
  have l: "l = m + q * g" "0 \<le> m" "m < g"
    using assms div_mult_mod_eq [of l g] pos_mod_bound [of g l] pos_mod_sign [of g l] unfolding q by auto
  have "(l + g - 1) div g = (if 0 < m then q + 1 else q)"
  proof (rule int_div_pos_eq)
    show "l + g - 1 = g * (if 0 < m then q + 1 else q) + (if 0 < m then m - 1 else g - 1)"
      using l by (auto simp: algebra_simps)
  qed (use l assms in auto)
  then show ?thesis unfolding q .
qed

text \<open>The reference for a step of at most \<open>L\<close> GPUs from one configuration towards another, on the integers: the other if it
  is that near, else as many whole replicas of its shape as reach the limit, or one smaller replica.\<close>

definition stepped :: "int \<Rightarrow> resource_configuration \<Rightarrow> resource_configuration \<Rightarrow> resource_configuration" where
  "stepped L current desired =
     (let C = gpus current; D = gpus desired; g = GPUsPerReplica desired;
          l = (if C < D then C + L else max 1 (C - L))
      in if \<bar>D - C\<bar> \<le> L then desired
         else if g \<le> l then desired\<lparr>Replicas := (l + g - 1) div g\<rparr>
         else desired\<lparr>Replicas := 1, GPUsPerReplica := l\<rparr>)"

lemma limit_exact:
  assumes "applySingleTimeScalingLimit a d = Ok d'" "step_limit a (Action d) = Some L" "0 < L" "L < 2 ^ 31"
    and "C = gpus (CurrentConfig d)" "D = gpus (DesiredConfig d)" "0 \<le> C" "C < 2 ^ 31" "0 \<le> D" "D < 2 ^ 31"
    and "g = GPUsPerReplica (DesiredConfig d)" "1 \<le> g" "g < 2 ^ 31"
  shows "\<bar>D - C\<bar> \<le> L \<Longrightarrow> d' = d" "DesiredConfig d' = stepped L (CurrentConfig d) (DesiredConfig d)"
proof -
  define T where "T = (if C < D then C + L else max 1 (C - L))"
  have w: "wrap64 C = C" "wrap64 D = D" "wrap64 (D - C) = D - C" "wrap64 (C + L) = C + L" "wrap64 (C - L) = C - L"
    using assms(3,4,7-10) by (auto intro!: wrap64_id)
  have i: "i2f (D - C) = Fin (of_int (D - C))" "i2f L = Fin (of_int L)"
    by (rule i2f_exact; use assms(3,4,7-10) in simp)+
  have f: "fgt (fabs (i2f (D - C))) (i2f L) \<longleftrightarrow> L < \<bar>D - C\<bar>"
    unfolding i by (simp only: fabs.simps flt.simps of_int_abs [symmetric] of_int_less_iff)
  have sl: "(case SpecBehavior (Spec a) of None \<Rightarrow> None | Some b \<Rightarrow>
     if Action d = ActionScaleUp then ScaleUp b \<bind> SingleTimeScalingLimit
     else if Action d = ActionScaleDown then ScaleDown b \<bind> SingleTimeScalingLimit else None) = Some L"
    using assms(2) by (simp add: step_limit_def)
  note defs = applySingleTimeScalingLimit_def Let_def sl option.case assms(5,6) [unfolded gpus_def, symmetric] w f
  show near: "\<bar>D - C\<bar> \<le> L \<Longrightarrow> d' = d" using assms(1,3) by (simp add: defs)
  have lim: "1 \<le> T" "T < 2 ^ 32" using assms(3,4,7-10) by (auto simp: T_def)
  have new: "DesiredConfig d' = (if g \<le> T then (DesiredConfig d)\<lparr>Replicas := (T + g - 1) div g\<rparr>
      else (DesiredConfig d)\<lparr>Replicas := 1, GPUsPerReplica := T\<rparr>)" if big: "L < \<bar>D - C\<bar>"
  proof -
    have t: "(if 0 < D - C then C + L else max 1 (C - L)) = T" by (simp add: T_def)
    note step = assms(1) [unfolded defs, unfolded assms(11) [symmetric] t]
    show ?thesis
    proof (cases "g \<le> T")
      case True
      have q: "0 < T div g" "T div g \<le> T" using True assms(12) lim
        using zdiv_mono2 [of T 1 g] by (simp_all add: pos_imp_zdiv_pos_iff)
      have dv: "T sdiv g = T div g" "T smod g = T mod g"
        using sdiv_nonneg [of T g] smod_nonneg [of T g] assms(12) lim(1) by auto
      have "go_div T g = Ok (T div g)" "wrap64 (T div g + 1) = T div g + 1"
        using dv q lim(2) assms(12) wrap64_id [of "T div g"] wrap64_id [of "T div g + 1"] by (auto simp: go_div_def)
      then show ?thesis unfolding ceil_div [OF assms(12)] using step assms(3) big True dv q(1) by auto
    next
      case False
      then show ?thesis using step assms(3) big by auto
    qed
  qed
  show "DesiredConfig d' = stepped L (CurrentConfig d) (DesiredConfig d)"
  proof (cases "\<bar>D - C\<bar> \<le> L")
    case True
    then show ?thesis using near [OF True] unfolding stepped_def Let_def assms(5,6) by simp
  next
    case False
    then have "L < \<bar>D - C\<bar>" by simp
    from new [OF this] False show ?thesis unfolding stepped_def Let_def T_def assms(5,6,11) by simp
  qed
qed

lemma limit_effect:
  assumes "applySingleTimeScalingLimit a d = Ok d'" "step_limit a (Action d) = Some L" "0 < L" "L < 2 ^ 31"
    and "C = gpus (CurrentConfig d)" "D = gpus (DesiredConfig d)" "0 \<le> C" "C < 2 ^ 31" "0 \<le> D" "D < 2 ^ 31"
    and "g = GPUsPerReplica (DesiredConfig d)" "1 \<le> g" "g < 2 ^ 31"
  shows "\<bar>D - C\<bar> \<le> L \<Longrightarrow> d' = d"
    "L < D - C \<Longrightarrow> C + L \<le> gpus (DesiredConfig d') \<and> gpus (DesiredConfig d') < C + L + g \<and>
       gpus (DesiredConfig d') \<le> D"
    "L < C - D \<Longrightarrow> max 1 (C - L) \<le> gpus (DesiredConfig d') \<and> gpus (DesiredConfig d') < max 1 (C - L) + g"
proof -
  let ?lim = "if C < D then C + L else max 1 (C - L)"
  show "\<bar>D - C\<bar> \<le> L \<Longrightarrow> d' = d" by (rule limit_exact(1) [OF assms])
  have new: "gpus (DesiredConfig d') =
      (if g \<le> ?lim then (if 0 < ?lim mod g then ?lim div g + 1 else ?lim div g) * g else ?lim)" if "L < \<bar>D - C\<bar>"
    unfolding limit_exact(2) [OF assms] stepped_def Let_def assms(5,6,11) [symmetric] ceil_div [OF assms(12)]
    using that assms(11) [symmetric] by (auto simp: gpus_def)
  have Dg: "D = Replicas (DesiredConfig d) * g" using assms(6,11) by (simp add: gpus_def)
  show "L < D - C \<Longrightarrow> C + L \<le> gpus (DesiredConfig d') \<and> gpus (DesiredConfig d') < C + L + g \<and>
       gpus (DesiredConfig d') \<le> D"
  proof -
    assume up: "L < D - C"
    then have l: "?lim = C + L" "L < \<bar>D - C\<bar>" "C + L \<le> Replicas (DesiredConfig d) * g" using assms(3) Dg by auto
    show ?thesis using new [OF l(2)] ceil_div_bounds [OF assms(12), of "C + L"] l(1,3) up assms(3,12)
      ceil_div_bounds(3) [OF assms(12) _ l(3)] Dg by (auto split: if_splits)
  qed
  show "L < C - D \<Longrightarrow> max 1 (C - L) \<le> gpus (DesiredConfig d') \<and> gpus (DesiredConfig d') < max 1 (C - L) + g"
  proof -
    assume dn: "L < C - D"
    then have l: "?lim = max 1 (C - L)" "L < \<bar>D - C\<bar>" using assms(3) by auto
    show ?thesis using new [OF l(2)] ceil_div_bounds [OF assms(12), of "max 1 (C - L)"] l(1) dn assms(12)
      by (auto split: if_splits)
  qed
qed

section \<open>A sample autoscaler\<close>

definition sample_autoscaler :: "behavior option \<Rightarrow> (string \<times> quantity) list \<Rightarrow> int \<Rightarrow> autoscaler" where
  "sample_autoscaler b t n = \<lparr>AsAPIVersion = ''autoscaling.x-llmd.ai/v1alpha1'',
     AsKind = ''ResourceClaimAutoscaler'', AsName = ''rca'', AsNamespace = ''default'', AsUID = ''u1'', AsGeneration = 1,
     AsFinalizers = [], AsDeletion = None,
     Spec = \<lparr>Target = \<lparr>ServiceRef = \<lparr>ServiceName = ''vllm'', ServiceNamespace = ''default''\<rparr>,
        ResourceRef = \<lparr>DeviceClassName = ''gpu''\<rparr>, Hint = None\<rparr>,
        TargetLatency = None, SpecBehavior = b, SpecConstraints = None, MinTargetUtilization = t\<rparr>,
     Status = \<lparr>Discovery = None, ScalingResults = None,
        ScalingStatus = Some (empty_scaling_status\<lparr>DesiredReplicas := Some n\<rparr>), Conditions = []\<rparr>\<rparr>"

definition step_behavior :: "int \<Rightarrow> behavior" where
  "step_behavior n = (let s = Some \<lparr>Trigger = \<lparr>PeriodSeconds = 60\<rparr>, GracePeriodSeconds = 30,
     SingleTimeScalingLimit = Some n\<rparr> in \<lparr>ScaleUp = s, ScaleDown = s\<rparr>)"

definition conf :: "int \<Rightarrow> int \<Rightarrow> rat \<Rightarrow> rat \<Rightarrow> resource_configuration" where
  "conf r g c m = \<lparr>Replicas = r, GPUsPerReplica = g, RequestedCompute = Fin c, RequestedMemoryGB = Fin m\<rparr>"

section \<open>Properties of the decision\<close>

text \<open>C26: The direction of a decision agrees with the demand: it scales up only when the desired total
  compute exceeds the current one, or when compute is not lower and memory exceeds; it never scales
  down when more compute, or equal compute and more memory, is wanted; it does nothing only when both
  totals agree within one percent or the minimum target utilization vetoes a scale-down, and then flags
  no change.\<close>

theorem decision_direction:
  assumes "determineScalingAction a t desired rate = Ok d" "current = current_configuration a t"
  shows "CurrentConfig d = current \<and>
    (Action d = ActionScaleUp \<longrightarrow> fgt (total_compute desired) (total_compute current) \<or>
       \<not> flt (total_compute desired) (total_compute current) \<and> fgt (total_memory desired) (total_memory current)) \<and>
    (Action d = ActionScaleDown \<longrightarrow> \<not> fst (checkMinTargetUtilization a (decide current desired) rate) \<and>
       (flt (total_compute desired) (total_compute current) \<or>
        \<not> fgt (total_compute desired) (total_compute current) \<and> \<not> fgt (total_memory desired) (total_memory current))) \<and>
    (Action d = ActionNone \<longrightarrow> \<not> ReplicaChange d \<and> \<not> ResourceChange d \<and>
       (fst (checkMinTargetUtilization a (decide current desired) rate) \<or>
        fle (fabs (fsub (total_compute desired) (total_compute current))) resourceChangeThreshold \<and>
        fle (fabs (fsub (total_memory desired) (total_memory current)))
            (fmul (total_memory current) resourceChangeThreshold)))"
  using assms(1)
proof (cases rule: determine_cases)
  case none
  then show ?thesis using decide_none_flags [of current desired] decide_none [of current desired]
    unfolding vetoed_def assms(2) by (auto split: if_splits)
next
  case scale
  have "vetoed a (decide current desired) rate \<noteq> decide current desired"
    if "Action (decide current desired) = ActionScaleDown" "fst (checkMinTargetUtilization a (decide current desired) rate)"
  proof
    assume "vetoed a (decide current desired) rate = decide current desired"
    then have "Action (vetoed a (decide current desired) rate) = ActionScaleDown" using that(1) by simp
    then show False using that by (simp add: vetoed_def)
  qed
  then show ?thesis using scale limit_keeps [OF scale(3)] decide_up [of current desired] decide_down [of current desired]
    unfolding assms(2) by auto
qed

theorem decision_direction_witness:
  "\<exists>d. determineScalingAction (sample_autoscaler None [] 1) (Inr (1, Map.empty)) (conf 2 1 100 80) (Fin 1) = Ok d \<and>
     Action d = ActionScaleUp \<and> CurrentConfig d = conf 1 1 100 80"
proof -
  let ?a = "sample_autoscaler None [] 1"
  have c: "current_configuration ?a (Inr (1, Map.empty)) = conf 1 1 100 80"
    by (simp add: current_configuration_def sample_autoscaler_def Let_def conf_def defaultComputeThreadPercent_def
        defaultMemoryGB_def f64_eval)
  have d: "Action (decide (conf 1 1 100 80) (conf 2 1 100 80)) = ActionScaleUp"
    by (simp add: decide_def Let_def conf_def total_compute_def total_memory_def resourceChangeThreshold_def f64_eval)
  have e: "determineScalingAction ?a (Inr (1, Map.empty)) (conf 2 1 100 80) (Fin 1) =
      Ok (decide (conf 1 1 100 80) (conf 2 1 100 80))"
    by (simp add: determine_vetoed c vetoed_def d Let_def applySingleTimeScalingLimit_def) (simp add: sample_autoscaler_def)
  have "CurrentConfig (decide (conf 1 1 100 80) (conf 2 1 100 80)) = conf 1 1 100 80"
    using decision_direction [OF e c [symmetric]] by (rule conjunct1)
  then show ?thesis using e d by blast
qed

text \<open>C25: With a limit of \<open>L\<close> GPUs per step, a change of at most \<open>L\<close> GPUs is untouched; a larger increase is
  cut to at least \<open>C + L\<close> and less than one replica more, never beyond what was wanted; a larger decrease
  is cut to at least \<open>C - L\<close> (and one GPU) and less than one replica more. Compute and memory per GPU,
  and the direction, are kept.\<close>

theorem single_step_limit:
  assumes "applySingleTimeScalingLimit a d = Ok d'" "step_limit a (Action d) = Some L" "0 < L" "L < 2 ^ 31"
    and "C = gpus (CurrentConfig d)" "D = gpus (DesiredConfig d)" "0 \<le> C" "C < 2 ^ 31" "0 \<le> D" "D < 2 ^ 31"
    and "g = GPUsPerReplica (DesiredConfig d)" "1 \<le> g" "g < 2 ^ 31"
  shows "(if \<bar>D - C\<bar> \<le> L then d' = d
     else if C < D then C + L \<le> gpus (DesiredConfig d') \<and> gpus (DesiredConfig d') < C + L + g \<and> gpus (DesiredConfig d') \<le> D
     else max 1 (C - L) \<le> gpus (DesiredConfig d') \<and> gpus (DesiredConfig d') < max 1 (C - L) + g) \<and>
    Action d' = Action d \<and> RequestedCompute (DesiredConfig d') = RequestedCompute (DesiredConfig d)"
  using limit_effect [OF assms] limit_keeps [OF assms(1)] by auto

definition sample_decision :: "scaling_action \<Rightarrow> resource_configuration \<Rightarrow> resource_configuration \<Rightarrow> scaling_decision" where
  "sample_decision act c d = \<lparr>Action = act, ReplicaChange = True, ResourceChange = False, CurrentConfig = c,
     DesiredConfig = d, Reason = []\<rparr>"

theorem single_step_limit_witness:
  "\<exists>d'. applySingleTimeScalingLimit (sample_autoscaler (Some (step_behavior 3)) [] 1)
       (sample_decision ActionScaleUp (conf 1 2 100 80) (conf 8 2 100 80)) = Ok d' \<and>
     5 \<le> gpus (DesiredConfig d') \<and> gpus (DesiredConfig d') < 7"
proof -
  let ?a = "sample_autoscaler (Some (step_behavior 3)) [] 1"
  let ?d = "sample_decision ActionScaleUp (conf 1 2 100 80) (conf 8 2 100 80)"
  have "\<exists>d'. applySingleTimeScalingLimit ?a ?d = Ok d'"
    by (simp add: applySingleTimeScalingLimit_def sample_autoscaler_def sample_decision_def step_behavior_def conf_def
        go_div_def go_int Let_def f64_eval)
  then obtain d' where d': "applySingleTimeScalingLimit ?a ?d = Ok d'" ..
  have f: "step_limit ?a (Action ?d) = Some 3" "gpus (CurrentConfig ?d) = 2" "gpus (DesiredConfig ?d) = 16"
    "GPUsPerReplica (DesiredConfig ?d) = 2"
    by (simp_all add: step_limit_def sample_autoscaler_def sample_decision_def step_behavior_def conf_def gpus_def Let_def)
  have "(if \<bar>16 - 2\<bar> \<le> (3::int) then d' = ?d
     else if (2::int) < 16 then 2 + 3 \<le> gpus (DesiredConfig d') \<and> gpus (DesiredConfig d') < 2 + 3 + 2 \<and> gpus (DesiredConfig d') \<le> 16
     else max 1 (2 - 3) \<le> gpus (DesiredConfig d') \<and> gpus (DesiredConfig d') < max 1 (2 - 3) + 2) \<and>
    Action d' = Action ?d \<and> RequestedCompute (DesiredConfig d') = RequestedCompute (DesiredConfig ?d)"
    by (rule single_step_limit [OF d' f(1) _ _ f(2) [symmetric] f(3) [symmetric] _ _ _ _ f(4) [symmetric]]) simp_all
  then show ?thesis using d' by simp
qed

text \<open>Rounding the replica count up can defeat a scale-down: there is a limited scale-down whose result
  uses more GPUs than the current configuration (7 GPUs, 4 wanted, limit 1: the result is two replicas
  of 4).\<close>

lemma limited_scale_down_grows:
  "\<exists>a d d'. Action d = ActionScaleDown \<and> gpus (DesiredConfig d) < gpus (CurrentConfig d) \<and>
     applySingleTimeScalingLimit a d = Ok d' \<and> gpus (CurrentConfig d') < gpus (DesiredConfig d')"
proof (intro exI conjI)
  let ?d = "sample_decision ActionScaleDown (conf 1 7 100 80) (conf 1 4 100 80)"
  let ?a = "sample_autoscaler (Some (step_behavior 1)) [] 1"
  show "applySingleTimeScalingLimit ?a ?d = Ok (?d\<lparr>DesiredConfig := conf 2 4 100 80,
      Reason := '' (limited by singleTimeScalingLimit)''\<rparr>)"
    by (simp add: applySingleTimeScalingLimit_def sample_autoscaler_def sample_decision_def step_behavior_def conf_def
        go_div_def go_int Let_def f64_eval)
qed (simp_all add: sample_decision_def conf_def gpus_def)

lemma decision_rests:
  assumes "current = current_configuration a t" "total_compute current = Fin c" "total_memory current = Fin m"
    and "0 \<le> m"
  shows "\<exists>d. determineScalingAction a t current rate = Ok d \<and> Action d = ActionNone"
proof -
  have r: "resourceChangeThreshold = Fin (5764607523034235 / 576460752303423488)"
    by (simp add: resourceChangeThreshold_def f64_eval)
  have "fle (Fin 0) (fmul (Fin m) resourceChangeThreshold)"
    using assms(4) unfolding r by (auto intro!: rnd_ge_Fin simp: wf64_def)
  then have n: "Action (decide current current) = ActionNone"
    unfolding decide_none assms(2,3) by (simp add: fsub_def r)
  then show ?thesis using assms(1) by (simp add: determine_vetoed Let_def vetoed_def)
qed

text \<open>A configuration that is already in force is a fixed point: with finite totals and non-negative
  memory, deciding on the current configuration itself takes no action.\<close>

lemma decision_fixpoint:
  assumes "current = current_configuration a t" "total_compute current = Fin c" "total_memory current = Fin m"
    and "0 \<le> m"
  shows "\<exists>d. determineScalingAction a t current rate = Ok d \<and> Action d = ActionNone"
  by (rule decision_rests [OF assms])

theorem decision_fixpoint_witness:
  "\<exists>d. determineScalingAction (sample_autoscaler None [] 2) (Inl (Error [])) (conf 2 1 100 80) (Fin 3) = Ok d \<and>
     Action d = ActionNone"
  by (rule decision_fixpoint [of _ _ _ 200 160])
     (simp_all add: current_configuration_def sample_autoscaler_def conf_def Let_def defaultGPUsPerReplica_def
       defaultComputeThreadPercent_def defaultMemoryGB_def total_compute_def total_memory_def f64_eval)

text \<open>Utilization targets are ratios, but the utilization they are compared with is a percentage for
  compute and the constant one for memory: with traffic, any target in \<open>(0, 1]\<close> on memory, or on compute
  when at least one percent is desired, vetoes every scale-down.\<close>

lemma utilization_target_vetoes_all:
  assumes "Action d = ActionScaleDown" "\<not> feq rate (Fin 0)"
    and "map_of (MinTargetUtilization (Spec a)) k = Some q"
    and "AsApproximateFloat64 q = Fin x" "0 < x" "x \<le> 1"
    and "k = ''memory'' \<or> k = ''compute'' \<and> RequestedCompute (DesiredConfig d) = Fin y \<and> 1 \<le> y"
  shows "fst (checkMinTargetUtilization a d rate)"
proof -
  have "exceeds_target d k q" using assms(4-7) by (auto simp: exceeds_target_def calculateResourceUtilization_def)
  then show ?thesis using assms(1-3,7) by (auto simp: checkMinTargetUtilization_def Let_def)
qed

theorem utilization_target_vetoes_all_witness:
  "fst (checkMinTargetUtilization (sample_autoscaler None [(''memory'', \<lparr>AsApproximateFloat64 = Fin (1 / 2), QValue = 1\<rparr>)] 4)
     (sample_decision ActionScaleDown (conf 4 1 100 80) (conf 1 1 10 8)) (Fin 1))"
  by (rule utilization_target_vetoes_all [where k = "''memory''" and x = "1 / 2" and q = "\<lparr>AsApproximateFloat64 = Fin (1 / 2), QValue = 1\<rparr>"])
     (simp_all add: sample_decision_def sample_autoscaler_def)

end
