(* ===== verification/Cluster.thy ===== *)
theory Cluster
  imports Scaling_Action "HOL-Library.State_Monad"
begin

text \<open>
  The boundary to Kubernetes. The controller reaches the cluster only through controller-runtime's
  \<open>client.Client\<close>, the clock, \<open>sha256\<close> and \<open>meta.SetStatusCondition\<close>; none of these is in the
  repository. They are one record of functions, \<open>env\<close>, over an abstract type of worlds, and every
  definition of the components above takes it as an argument. Any call may fail with any error, and the
  world may change arbitrarily between calls. The calls that write are recorded in order, so that what
  a handler may write can be stated for every environment.
\<close>

section \<open>Objects\<close>

text \<open>The fields of the Kubernetes objects that the sources read or write. \<open>device_spec\<close> stands for both
  \<open>ExactDeviceRequest\<close> and \<open>DeviceSubRequest\<close>; \<open>workload\<close> for Deployments and StatefulSets.\<close>

record capacity_req =
  CapRequests :: "(string \<rightharpoonup> quantity) option"

record device_spec =
  DsDeviceClass :: string
  DsCount :: int
  DsCapacity :: "capacity_req option"

record device_request =
  Exactly :: "device_spec option"
  FirstAvailable :: "device_spec list"

record claim_template =
  CtName :: string
  CtNamespace :: string
  CtLabels :: "string \<rightharpoonup> string"
  CtAnnotations :: "string \<rightharpoonup> string"
  CtOwners :: "owner_reference list"
  CtSpecLabels :: "(string \<rightharpoonup> string) option"
  CtRequests :: "device_request list"

record resource_claim =
  RcName :: string
  RcNamespace :: string
  RcLabels :: "(string \<rightharpoonup> string) option"
  RcAllocated :: bool

record pod_claim =
  ClaimName :: string
  ClaimTemplateName :: "string option"

record workload =
  WlName :: string
  WlNamespace :: string
  WlGeneration :: int
  WlOwners :: "owner_reference list"
  WlReplicas :: "int option"
  WlClaims :: "pod_claim list"
  WlReadyReplicas :: int
  WlAvailableReplicas :: int

record pod =
  PodName :: string
  PodNamespace :: string
  PodUID :: string
  PodOwners :: "owner_reference list"
  PodClaims :: "pod_claim list"

record endpoint_target =
  TargetKind :: string
  TargetName :: string

datatype workload_kind = Deployment | StatefulSet

type_synonym key = "string \<times> string"

section \<open>The environment\<close>

datatype api_error = NotFound | Conflict | OtherError string

type_synonym ('w, 'a) api = "'w \<Rightarrow> (api_error + 'a) \<times> 'w"

record 'w env =
  get_autoscaler :: "key \<Rightarrow> ('w, autoscaler) api"
  get_template :: "key \<Rightarrow> ('w, claim_template) api"
  get_workload :: "workload_kind \<Rightarrow> key \<Rightarrow> ('w, workload) api"
  get_replicaset :: "key \<Rightarrow> ('w, owner_reference list) api"
  get_pod :: "key \<Rightarrow> ('w, pod) api"
  get_service :: "key \<Rightarrow> ('w, unit) api"
  list_endpoints :: "string \<Rightarrow> string \<Rightarrow> ('w, endpoint_target option list) api"
  list_templates :: "string \<Rightarrow> (string \<times> string) list \<Rightarrow> ('w, claim_template list) api"
  list_claims :: "string \<Rightarrow> (string \<times> string) list \<Rightarrow> ('w, resource_claim list) api"
  create_template :: "claim_template \<Rightarrow> ('w, unit) api"
  delete_template :: "key \<Rightarrow> ('w, unit) api"
  update_workload :: "workload_kind \<Rightarrow> workload \<Rightarrow> ('w, unit) api"
  update_autoscaler :: "autoscaler \<Rightarrow> ('w, unit) api"
  update_status :: "autoscaler \<Rightarrow> ('w, unit) api"
  time_now :: "'w \<Rightarrow> int \<times> 'w"
  set_condition :: "condition list \<Rightarrow> condition \<Rightarrow> condition list"
  sha256_hex :: "string \<Rightarrow> string"
  hex_float :: "string \<Rightarrow> f64 option"
  pow_frac :: "f64 \<Rightarrow> f64 \<Rightarrow> f64"
  gpu_order :: "(string \<times> gpu_specs) list"
  model_order :: "(string \<times> arch_params) list"

section \<open>Calls\<close>

datatype api_call =
    CreateTemplate claim_template
  | DeleteTemplateCall key
  | UpdateWorkload workload_kind workload
  | UpdateAutoscaler autoscaler
  | UpdateStatus autoscaler

record 'w sys =
  world :: 'w
  calls :: "api_call list"

type_synonym ('w, 'a) prog = "('w sys, 'a) state"

definition observe :: "('w \<Rightarrow> 'a \<times> 'w) \<Rightarrow> ('w, 'a) prog" where
  "observe f = State (\<lambda>s. case f (world s) of (r, w) \<Rightarrow> (r, s\<lparr>world := w\<rparr>))"

definition emit :: "api_call \<Rightarrow> ('w \<Rightarrow> 'a \<times> 'w) \<Rightarrow> ('w, 'a) prog" where
  "emit c f = State (\<lambda>s. case f (world s) of (r, w) \<Rightarrow> (r, s\<lparr>world := w, calls := calls s @ [c]\<rparr>))"

definition createTemplate :: "'w env \<Rightarrow> claim_template \<Rightarrow> ('w, api_error + unit) prog" where
  "createTemplate e t = emit (CreateTemplate t) (create_template e t)"

definition deleteTemplate :: "'w env \<Rightarrow> key \<Rightarrow> ('w, api_error + unit) prog" where
  "deleteTemplate e k = emit (DeleteTemplateCall k) (delete_template e k)"

definition updateWorkload :: "'w env \<Rightarrow> workload_kind \<Rightarrow> workload \<Rightarrow> ('w, api_error + unit) prog" where
  "updateWorkload e k w = emit (UpdateWorkload k w) (update_workload e k w)"

definition updateAutoscaler :: "'w env \<Rightarrow> autoscaler \<Rightarrow> ('w, api_error + unit) prog" where
  "updateAutoscaler e a = emit (UpdateAutoscaler a) (update_autoscaler e a)"

definition updateStatus :: "'w env \<Rightarrow> autoscaler \<Rightarrow> ('w, api_error + unit) prog" where
  "updateStatus e a = emit (UpdateStatus a) (update_status e a)"

section \<open>What a program may write\<close>

text \<open>\<open>writes P m\<close>: every call \<open>m\<close> adds to the record satisfies \<open>P\<close>, in every state and environment.\<close>

definition writes :: "(api_call \<Rightarrow> bool) \<Rightarrow> ('w, 'a) prog \<Rightarrow> bool" where
  "writes P m \<longleftrightarrow> (\<forall>s. \<exists>cs. calls (snd (run_state m s)) = calls s @ cs \<and> list_all P cs)"

named_theorems writes "what programs may write"

lemma writes_return [writes]: "writes P (State_Monad.return a)"
  by (simp add: writes_def)

lemma writes_observe [writes]: "writes P (observe f)"
  by (simp add: writes_def observe_def split: prod.split)

lemma writes_emit: "P c \<Longrightarrow> writes P (emit c f)"
  by (simp add: writes_def emit_def split: prod.split)

lemma writes_bind [writes]:
  assumes "writes P m" "\<And>a. writes P (f a)"
  shows "writes P (m \<bind> f)"
proof -
  have "\<exists>cs. calls (snd (run_state (m \<bind> f) s)) = calls s @ cs \<and> list_all P cs" for s
  proof -
    obtain a s1 where m: "run_state m s = (a, s1)" by fastforce
    obtain cs where c: "calls s1 = calls s @ cs" "list_all P cs" using assms(1) m unfolding writes_def by (metis snd_conv)
    obtain ds where d: "calls (snd (run_state (f a) s1)) = calls s1 @ ds" "list_all P ds"
      using assms(2) unfolding writes_def by blast
    show ?thesis using m c d by (intro exI [of _ "cs @ ds"]) simp
  qed
  then show ?thesis by (simp add: writes_def)
qed

lemma writes_mono: "writes P m \<Longrightarrow> (\<And>c. P c \<Longrightarrow> Q c) \<Longrightarrow> writes Q m"
  unfolding writes_def by (metis list_all_iff)

lemma writes_sum [writes]: "(\<And>e. writes P (f e)) \<Longrightarrow> (\<And>a. writes P (g a)) \<Longrightarrow> writes P (case r of Inl e \<Rightarrow> f e | Inr a \<Rightarrow> g a)"
  by (cases r) auto

lemma writes_option [writes]: "writes P f \<Longrightarrow> (\<And>a. writes P (g a)) \<Longrightarrow> writes P (case r of None \<Rightarrow> f | Some a \<Rightarrow> g a)"
  by (cases r) auto

lemma writes_if [writes]: "writes P f \<Longrightarrow> writes P g \<Longrightarrow> writes P (if b then f else g)"
  by auto

lemma writes_prod [writes]: "(\<And>a b. writes P (f a b)) \<Longrightarrow> writes P (case p of (a, b) \<Rightarrow> f a b)"
  by (cases p) auto

lemma writes_createTemplate: "P (CreateTemplate t) \<Longrightarrow> writes P (createTemplate e t)"
  unfolding createTemplate_def by (rule writes_emit)

lemma writes_deleteTemplate: "P (DeleteTemplateCall k) \<Longrightarrow> writes P (deleteTemplate e k)"
  unfolding deleteTemplate_def by (rule writes_emit)

lemma writes_updateWorkload: "P (UpdateWorkload k w) \<Longrightarrow> writes P (updateWorkload e k w)"
  unfolding updateWorkload_def by (rule writes_emit)

lemma writes_updateAutoscaler: "P (UpdateAutoscaler a) \<Longrightarrow> writes P (updateAutoscaler e a)"
  unfolding updateAutoscaler_def by (rule writes_emit)

lemma writes_updateStatus: "P (UpdateStatus a) \<Longrightarrow> writes P (updateStatus e a)"
  unfolding updateStatus_def by (rule writes_emit)

lemma writesD: "writes P m \<Longrightarrow> run_state m s = (a, s') \<Longrightarrow> \<exists>cs. calls s' = calls s @ cs \<and> list_all P cs"
  unfolding writes_def by (metis snd_conv)

end
