(* ===== verification/Claim_Handler.thy ===== *)
theory Claim_Handler
  imports Cluster
begin

text \<open>
  \<open>internal/scaler/resourceclaim_handler.go\<close>: reading the GPU request of a ResourceClaimTemplate,
  creating revised templates, pointing workloads at them, and removing templates no longer in use.
\<close>

section \<open>Names and labels\<close>

definition ManagedByLabel :: string where "ManagedByLabel = ''autoscaling.x-llmd.ai/managed-by''"
definition OperatorName :: string where "OperatorName = ''resourceclaimautoscaler''"
definition RevisionLabel :: string where "RevisionLabel = ''autoscaling.x-llmd.ai/revision''"
definition OriginalTemplateLabel :: string where "OriginalTemplateLabel = ''autoscaling.x-llmd.ai/original-template''"
definition TemplateNameLabel :: string where "TemplateNameLabel = ''autoscaling.x-llmd.ai/template-name''"
definition AutoscalerLabel :: string where "AutoscalerLabel = ''autoscaling.x-llmd.ai/autoscaler''"
definition WorkloadKindDeployment :: string where "WorkloadKindDeployment = ''Deployment''"
definition WorkloadKindStatefulSet :: string where "WorkloadKindStatefulSet = ''StatefulSet''"

text \<open>The two kinds a \<open>switch owner.Kind\<close> distinguishes, and its default.\<close>

definition workload_kind :: "string \<Rightarrow> workload_kind option" where
  "workload_kind k = (if k = WorkloadKindDeployment then Some Deployment
     else if k = WorkloadKindStatefulSet then Some StatefulSet else None)"

section \<open>Reading a template\<close>

definition read_spec :: "device_spec \<Rightarrow> int \<times> (string \<rightharpoonup> quantity) \<Rightarrow> int \<times> (string \<rightharpoonup> quantity)" where
  "read_spec d acc =
     (if 0 < DsCount d then DsCount d else fst acc,
      case DsCapacity d of None \<Rightarrow> snd acc | Some c \<Rightarrow> get_or (CapRequests c) (snd acc))"

fun scan_requests :: "string \<Rightarrow> device_request list \<Rightarrow> int \<times> (string \<rightharpoonup> quantity) \<Rightarrow> int \<times> (string \<rightharpoonup> quantity)" where
  "scan_requests cls [] acc = acc"
| "scan_requests cls (r # rs) acc =
     (case Exactly r of
        Some x \<Rightarrow> if DsDeviceClass x = cls then read_spec x acc
                  else scan_requests cls rs (case find (\<lambda>d. DsDeviceClass d = cls) (FirstAvailable r) of
                         Some d \<Rightarrow> read_spec d acc | None \<Rightarrow> acc)
      | None \<Rightarrow> scan_requests cls rs (case find (\<lambda>d. DsDeviceClass d = cls) (FirstAvailable r) of
                         Some d \<Rightarrow> read_spec d acc | None \<Rightarrow> acc))"

text \<open>The template in force: the desired one, or the original one when none has been created.\<close>

definition current_template :: "autoscaler \<Rightarrow> string \<Rightarrow> string" where
  "current_template a original =
     (case ScalingStatus (Status a) of
        Some st \<Rightarrow> if DesiredClaimTemplate st \<noteq> [] then DesiredClaimTemplate st else original
      | None \<Rightarrow> original)"

definition getCurrentResourcesFromTemplate ::
  "'w env \<Rightarrow> autoscaler \<Rightarrow> ('w, (int \<times> (string \<rightharpoonup> quantity)) res) prog" where
  "getCurrentResourcesFromTemplate e a =
     (case Discovery (Status a) of
        None \<Rightarrow> State_Monad.return (Ok (1, Map.empty))
      | Some d \<Rightarrow>
          if ResourceClaim d = [] then State_Monad.return (Ok (1, Map.empty))
          else do {
            r \<leftarrow> observe (get_template e (AsNamespace a, current_template a (ResourceClaim d)));
            State_Monad.return (case r of
              Inl _ \<Rightarrow> Fail ''failed to get ResourceClaimTemplate''
            | Inr t \<Rightarrow> Ok (scan_requests (DeviceClassName (ResourceRef (Target (Spec a)))) (CtRequests t) (1, Map.empty)))
          })"

section \<open>Revising a template\<close>

text \<open>\<open>resource.NewQuantity\<close>: an integral quantity, whose value both accessors give.\<close>

definition NewQuantity :: "int \<Rightarrow> quantity" where
  "NewQuantity n = \<lparr>AsApproximateFloat64 = i2f n, QValue = n\<rparr>"

definition memory_bytes :: "f64 \<Rightarrow> int" where
  "memory_bytes gb = f2i64 (fmul (fmul (fmul gb (Fin 1024)) (Fin 1024)) (Fin 1024))"

definition patch_spec :: "resource_configuration \<Rightarrow> device_spec \<Rightarrow> device_spec" where
  "patch_spec c d =
     d\<lparr>DsCount := GPUsPerReplica c,
       DsCapacity := Some \<lparr>CapRequests = Some
         ((get_or (DsCapacity d \<bind> CapRequests) Map.empty)
            (''compute'' \<mapsto> NewQuantity (f2i64 (RequestedCompute c)),
             ''memory'' \<mapsto> NewQuantity (memory_bytes (RequestedMemoryGB c))))\<rparr>\<rparr>"

fun patch_first :: "string \<Rightarrow> resource_configuration \<Rightarrow> device_spec list \<Rightarrow> device_spec list option" where
  "patch_first cls c [] = None"
| "patch_first cls c (d # ds) =
     (if DsDeviceClass d = cls then Some (patch_spec c d # ds) else map_option ((#) d) (patch_first cls c ds))"

fun patch_requests :: "string \<Rightarrow> resource_configuration \<Rightarrow> device_request list \<Rightarrow> device_request list option" where
  "patch_requests cls c [] = None"
| "patch_requests cls c (r # rs) =
     (case Exactly r of
        Some x \<Rightarrow>
          if DsDeviceClass x = cls then Some (r\<lparr>Exactly := Some (patch_spec c x)\<rparr> # rs)
          else (case patch_first cls c (FirstAvailable r) of
                  Some ds \<Rightarrow> Some (r\<lparr>FirstAvailable := ds\<rparr> # rs)
                | None \<Rightarrow> map_option ((#) r) (patch_requests cls c rs))
      | None \<Rightarrow> (case patch_first cls c (FirstAvailable r) of
                  Some ds \<Rightarrow> Some (r\<lparr>FirstAvailable := ds\<rparr> # rs)
                | None \<Rightarrow> map_option ((#) r) (patch_requests cls c rs)))"

definition spec_matches :: "resource_configuration \<Rightarrow> device_spec \<Rightarrow> bool" where
  "spec_matches c d =
     (DsCount d = GPUsPerReplica c \<and>
      (case DsCapacity d \<bind> CapRequests of
         None \<Rightarrow> True
       | Some m \<Rightarrow>
           (case m ''compute'' of None \<Rightarrow> True | Some q \<Rightarrow> feq (AsApproximateFloat64 q) (RequestedCompute c)) \<and>
           (case m ''memory'' of None \<Rightarrow> True | Some q \<Rightarrow>
              feq (fdiv (AsApproximateFloat64 q) (lit 1073741824)) (RequestedMemoryGB c))))"

fun templateMatchesDesiredConfig :: "string \<Rightarrow> resource_configuration \<Rightarrow> device_request list \<Rightarrow> bool" where
  "templateMatchesDesiredConfig cls c [] = False"
| "templateMatchesDesiredConfig cls c (r # rs) =
     (if (case Exactly r of Some x \<Rightarrow> DsDeviceClass x = cls | None \<Rightarrow> False)
      then spec_matches c (the (Exactly r))
      else case find (\<lambda>d. DsDeviceClass d = cls) (FirstAvailable r) of
             Some d \<Rightarrow> spec_matches c d
           | None \<Rightarrow> templateMatchesDesiredConfig cls c rs)"

definition getOwnerRevision :: "'w env \<Rightarrow> string \<Rightarrow> owner_reference \<Rightarrow> ('w, string res) prog" where
  "getOwnerRevision e ns owner =
     (case workload_kind (OwnerKind owner) of
        None \<Rightarrow> State_Monad.return (Fail ''unsupported owner kind'')
      | Some k \<Rightarrow> do {
          r \<leftarrow> observe (get_workload e k (ns, OwnerName owner));
          State_Monad.return (case r of Inl _ \<Rightarrow> Fail ''failed to get workload'' | Inr w \<Rightarrow> Ok (FormatInt (WlGeneration w)))
        })"

definition template_name :: "'w env \<Rightarrow> autoscaler \<Rightarrow> string \<Rightarrow> string \<Rightarrow> string" where
  "template_name e a original revision =
     take 54 (AsName a) @ ''-'' @ take 8 (sha256_hex e (original @ ''-rev-'' @ revision))"

definition new_template :: "autoscaler \<Rightarrow> string \<Rightarrow> string \<Rightarrow> string \<Rightarrow> claim_template \<Rightarrow> claim_template" where
  "new_template a name original revision base =
     \<lparr>CtName = name, CtNamespace = AsNamespace a,
      CtLabels = [ManagedByLabel \<mapsto> OperatorName, RevisionLabel \<mapsto> revision,
        OriginalTemplateLabel \<mapsto> original, TemplateNameLabel \<mapsto> name, AutoscalerLabel \<mapsto> AsName a],
      CtAnnotations = [''autoscaling.x-llmd.ai/autoscaler'' \<mapsto> AsName a],
      CtOwners = [\<lparr>OwnerAPIVersion = AsAPIVersion a, OwnerKind = AsKind a, OwnerName = AsName a,
        OwnerUID = AsUID a, OwnerController = Some True, OwnerBlockDeletion = Some True\<rparr>],
      CtSpecLabels = Some ((get_or (CtSpecLabels base) Map.empty)
        (ManagedByLabel \<mapsto> OperatorName, TemplateNameLabel \<mapsto> name,
         OriginalTemplateLabel \<mapsto> original, AutoscalerLabel \<mapsto> AsName a)),
      CtRequests = CtRequests base\<rparr>"

text \<open>Build the new template from the base, update its request and create it.\<close>

definition create_revised ::
  "'w env \<Rightarrow> autoscaler \<Rightarrow> resource_configuration \<Rightarrow> string \<Rightarrow> string \<Rightarrow> string \<Rightarrow> claim_template \<Rightarrow> ('w, string res) prog" where
  "create_revised e a desired name original revision base =
     (let t = new_template a name original revision base in
      case patch_requests (DeviceClassName (ResourceRef (Target (Spec a)))) desired (CtRequests t) of
        None \<Rightarrow> State_Monad.return (Fail ''failed to find device request matching target device class'')
      | Some rs \<Rightarrow> do {
          r \<leftarrow> createTemplate e (t\<lparr>CtRequests := rs\<rparr>);
          State_Monad.return (case r of Inl _ \<Rightarrow> Fail ''failed to create new ResourceClaimTemplate'' | Inr _ \<Rightarrow> Ok name)
        })"

definition patchResourceClaimTemplate ::
  "'w env \<Rightarrow> autoscaler \<Rightarrow> resource_configuration \<Rightarrow> ('w, string res) prog" where
  "patchResourceClaimTemplate e a desired =
     (case Discovery (Status a) of
        None \<Rightarrow> State_Monad.return (Fail ''no ResourceClaimTemplate found in discovery status'')
      | Some d \<Rightarrow>
          let original = ResourceClaim d in
          if original = [] then State_Monad.return (Fail ''no ResourceClaimTemplate found in discovery status'')
          else do {
            b \<leftarrow> observe (get_template e (AsNamespace a, current_template a original));
            case b of
              Inl _ \<Rightarrow> State_Monad.return (Fail ''failed to get base ResourceClaimTemplate'')
            | Inr base \<Rightarrow>
              (case Owner d of
                 None \<Rightarrow> State_Monad.return (Fail ''no owner found in discovery status'')
               | Some owner \<Rightarrow> do {
                   rev \<leftarrow> getOwnerRevision e (AsNamespace a) owner;
                   case rev of
                     Inl _ \<Rightarrow> State_Monad.return (Fail ''failed to get owner revision'')
                   | Inr revision \<Rightarrow> do {
                       let name = template_name e a original revision;
                       x \<leftarrow> observe (get_template e (AsNamespace a, name));
                       case x of
                         Inr existing \<Rightarrow>
                           if templateMatchesDesiredConfig (DeviceClassName (ResourceRef (Target (Spec a)))) desired (CtRequests existing)
                           then State_Monad.return (Ok name)
                           else do {
                             del \<leftarrow> deleteTemplate e (CtNamespace existing, CtName existing);
                             case del of
                               Inl _ \<Rightarrow> State_Monad.return (Fail ''failed to delete outdated template'')
                             | Inr _ \<Rightarrow> create_revised e a desired name original revision base
                           }
                       | Inl err \<Rightarrow>
                           if err = NotFound then create_revised e a desired name original revision base
                           else State_Monad.return (Fail ''failed to check existing template'')
                     }
                 })
          })"

section \<open>Pointing workloads at a template\<close>

definition updatePodTemplateResourceClaims :: "pod_claim list \<Rightarrow> string \<Rightarrow> string \<Rightarrow> pod_claim list \<times> bool" where
  "updatePodTemplateResourceClaims cs old new =
     (map (\<lambda>c. if ClaimTemplateName c = Some old then c\<lparr>ClaimTemplateName := Some new\<rparr> else c) cs,
      \<exists>c \<in> set cs. ClaimTemplateName c = Some old)"

definition restoreAnyManagedTemplate :: "pod_claim list \<Rightarrow> string \<Rightarrow> pod_claim list \<times> bool" where
  "restoreAnyManagedTemplate cs original =
     (map (\<lambda>c. if ClaimTemplateName c \<noteq> None \<and> ClaimTemplateName c \<noteq> Some original
                then c\<lparr>ClaimTemplateName := Some original\<rparr> else c) cs,
      \<exists>c \<in> set cs. ClaimTemplateName c \<noteq> None \<and> ClaimTemplateName c \<noteq> Some original)"

text \<open>\<open>patchDeployment\<close> and \<open>patchStatefulSet\<close> are the same steps on the two kinds.\<close>

definition patch_workload ::
  "'w env \<Rightarrow> workload_kind \<Rightarrow> string \<Rightarrow> string \<Rightarrow> string \<Rightarrow> string \<Rightarrow> int \<Rightarrow> ('w, unit res) prog" where
  "patch_workload e k ns name old new replicas = do {
     r \<leftarrow> observe (get_workload e k (ns, name));
     case r of
       Inl _ \<Rightarrow> State_Monad.return (Fail ''failed to get workload'')
     | Inr w \<Rightarrow> do {
         u \<leftarrow> updateWorkload e k (w\<lparr>WlReplicas := Some replicas,
           WlClaims := fst (updatePodTemplateResourceClaims (WlClaims w) old new)\<rparr>);
         State_Monad.return (case u of Inl _ \<Rightarrow> Fail ''failed to update workload'' | Inr _ \<Rightarrow> Ok ())
       }
   }"

definition patchDeployment where "patchDeployment e = patch_workload e Deployment"
definition patchStatefulSet where "patchStatefulSet e = patch_workload e StatefulSet"

definition patchPodOwner :: "'w env \<Rightarrow> autoscaler \<Rightarrow> string \<Rightarrow> int \<Rightarrow> ('w, unit res) prog" where
  "patchPodOwner e a new replicas =
     (case Discovery (Status a) of
        None \<Rightarrow> State_Monad.return (Fail ''no owner found in discovery status'')
      | Some d \<Rightarrow>
          (case Owner d of
             None \<Rightarrow> State_Monad.return (Fail ''no owner found in discovery status'')
           | Some owner \<Rightarrow>
               (case workload_kind (OwnerKind owner) of
                  Some Deployment \<Rightarrow> patchDeployment e (AsNamespace a) (OwnerName owner)
                    (current_template a (ResourceClaim d)) new replicas
                | Some StatefulSet \<Rightarrow> patchStatefulSet e (AsNamespace a) (OwnerName owner)
                    (current_template a (ResourceClaim d)) new replicas
                | None \<Rightarrow> State_Monad.return (Fail ''unsupported owner kind''))))"

definition restore_workload ::
  "'w env \<Rightarrow> workload_kind \<Rightarrow> string \<Rightarrow> string \<Rightarrow> string \<Rightarrow> string \<Rightarrow> ('w, unit res) prog" where
  "restore_workload e k ns name current original = do {
     r \<leftarrow> observe (get_workload e k (ns, name));
     case r of
       Inl _ \<Rightarrow> State_Monad.return (Fail ''failed to get workload'')
     | Inr w \<Rightarrow> do {
         let (cs, updated) = (if current \<noteq> [] then updatePodTemplateResourceClaims (WlClaims w) current original
                              else restoreAnyManagedTemplate (WlClaims w) original);
         if \<not> updated then State_Monad.return (Ok ())
         else do {
           u \<leftarrow> updateWorkload e k (w\<lparr>WlClaims := cs\<rparr>);
           State_Monad.return (case u of Inl _ \<Rightarrow> Fail ''failed to update workload'' | Inr _ \<Rightarrow> Ok ())
         }
       }
   }"

definition RestoreDeploymentTemplate where "RestoreDeploymentTemplate e = restore_workload e Deployment"
definition RestoreStatefulSetTemplate where "RestoreStatefulSetTemplate e = restore_workload e StatefulSet"

section \<open>Removing unused templates\<close>

text \<open>The template names of the claims that are bound (\<open>templatesWithBoundClaims\<close>) or pending
  (\<open>templatesWithPendingClaims\<close>).\<close>

fun claims_of :: "bool \<Rightarrow> resource_claim list \<Rightarrow> string list" where
  "claims_of bound [] = []"
| "claims_of bound (c # cs) =
     (case RcLabels c of
        None \<Rightarrow> claims_of bound cs
      | Some l \<Rightarrow> (case l TemplateNameLabel of
            None \<Rightarrow> claims_of bound cs
          | Some n \<Rightarrow> if RcAllocated c = bound then n # claims_of bound cs else claims_of bound cs))"

fun delete_unused :: "'w env \<Rightarrow> string \<Rightarrow> string list \<Rightarrow> string list \<Rightarrow> claim_template list \<Rightarrow> ('w, unit) prog" where
  "delete_unused e desired bound pending [] = State_Monad.return ()"
| "delete_unused e desired bound pending (t # ts) =
     (if CtName t = desired then delete_unused e desired bound pending ts
      else if CtName t \<notin> set bound \<and> CtName t \<notin> set pending
      then do { _ \<leftarrow> deleteTemplate e (CtNamespace t, CtName t); delete_unused e desired bound pending ts }
      else delete_unused e desired bound pending ts)"

definition desired_template :: "autoscaler \<Rightarrow> string" where
  "desired_template a = (case ScalingStatus (Status a) of Some st \<Rightarrow> DesiredClaimTemplate st | None \<Rightarrow> [])"

definition template_selector :: "string \<Rightarrow> (string \<times> string) list" where
  "template_selector original = [(ManagedByLabel, OperatorName), (OriginalTemplateLabel, original)]"

definition claim_selector :: "autoscaler \<Rightarrow> string \<Rightarrow> (string \<times> string) list" where
  "claim_selector a original =
     [(ManagedByLabel, OperatorName), (AutoscalerLabel, AsName a), (OriginalTemplateLabel, original)]"

definition CleanupOldResourceClaimTemplates :: "'w env \<Rightarrow> autoscaler \<Rightarrow> ('w, unit res) prog" where
  "CleanupOldResourceClaimTemplates e a =
     (case Discovery (Status a) of
        None \<Rightarrow> State_Monad.return (Ok ())
      | Some d \<Rightarrow>
          if ResourceClaim d = [] then State_Monad.return (Ok ())
          else do {
            ts \<leftarrow> observe (list_templates e (AsNamespace a) (template_selector (ResourceClaim d)));
            case ts of
              Inl _ \<Rightarrow> State_Monad.return (Fail ''failed to list ResourceClaimTemplates'')
            | Inr ts \<Rightarrow> do {
                cs \<leftarrow> observe (list_claims e (AsNamespace a) (claim_selector a (ResourceClaim d)));
                case cs of
                  Inl _ \<Rightarrow> State_Monad.return (Fail ''failed to list ResourceClaims'')
                | Inr cs \<Rightarrow> do {
                    delete_unused e (desired_template a) (claims_of True cs) (claims_of False cs) ts;
                    State_Monad.return (Ok ())
                  }
              }
          })"

end
