(* ===== verification/Claim_Properties.thy ===== *)
theory Claim_Properties
  imports Claim_Handler
begin

text \<open>
  What revising ResourceClaimTemplates guarantees: which request is changed and read back, which
  templates are created and deleted, and that restoring a workload undoes its patch.
\<close>

section \<open>Cleaning up\<close>

text \<open>Some claim, bound or pending, was generated from the template.\<close>

definition claimed :: "resource_claim list \<Rightarrow> string \<Rightarrow> bool" where
  "claimed cs n = list_ex (\<lambda>c. (RcLabels c \<bind> (\<lambda>l. l TemplateNameLabel)) = Some n) cs"

lemma set_claims_of:
  "n \<in> set (claims_of b cs) \<longleftrightarrow> (\<exists>c \<in> set cs. RcAllocated c = b \<and> (RcLabels c \<bind> (\<lambda>l. l TemplateNameLabel)) = Some n)"
  by (induction b cs rule: claims_of.induct) (auto split: option.splits)

lemma claimed_iff: "claimed cs n \<longleftrightarrow> n \<in> set (claims_of True cs) \<or> n \<in> set (claims_of False cs)"
  unfolding claimed_def set_claims_of list_ex_iff by blast

lemma calls_delete_unused:
  "calls (snd (run_state (delete_unused e d bound pending ts) s)) = calls s @
     map (\<lambda>t. DeleteTemplateCall (CtNamespace t, CtName t))
       (filter (\<lambda>t. CtName t \<noteq> d \<and> CtName t \<notin> set bound \<and> CtName t \<notin> set pending) ts)"
  by (induction e d bound pending ts arbitrary: s rule: delete_unused.induct)
     (auto simp: deleteTemplate_def emit_def split: prod.split)

lemma calls_delete_unused_run:
  "run_state (delete_unused e d bound pending ts) s = (u, s') \<Longrightarrow> calls s' = calls s @
     map (\<lambda>t. DeleteTemplateCall (CtNamespace t, CtName t))
       (filter (\<lambda>t. CtName t \<noteq> d \<and> CtName t \<notin> set bound \<and> CtName t \<notin> set pending) ts)"
  using calls_delete_unused [of e d bound pending ts s] by simp

text \<open>C20: cleaning up deletes exactly the listed templates of the original template that are neither
  desired nor the origin of any listed claim, in the listed order, and goes on after a failed deletion;
  when a list fails, or nothing has been discovered, it writes nothing.\<close>

theorem cleanup_exact:
  "calls (snd (run_state (CleanupOldResourceClaimTemplates e a) s)) = calls s @
     (case Discovery (Status a) of None \<Rightarrow> [] | Some d \<Rightarrow>
        if ResourceClaim d = [] then []
        else case list_templates e (AsNamespace a) (template_selector (ResourceClaim d)) (world s) of
          (Inl _, _) \<Rightarrow> []
        | (Inr ts, w) \<Rightarrow> (case list_claims e (AsNamespace a) (claim_selector a (ResourceClaim d)) w of
            (Inl _, _) \<Rightarrow> []
          | (Inr cs, _) \<Rightarrow> map (\<lambda>t. DeleteTemplateCall (CtNamespace t, CtName t))
              (filter (\<lambda>t. CtName t \<noteq> desired_template a \<and> \<not> claimed cs (CtName t)) ts)))"
  unfolding CleanupOldResourceClaimTemplates_def claimed_iff
  by (auto simp: observe_def dest!: calls_delete_unused_run split: option.split prod.split sum.split)

section \<open>Patching one request\<close>

text \<open>The device specs of a request that name the target class.\<close>

definition mentions :: "string \<Rightarrow> device_request \<Rightarrow> bool" where
  "mentions cls r \<longleftrightarrow> (case Exactly r of Some x \<Rightarrow> DsDeviceClass x = cls | None \<Rightarrow> False) \<or>
     list_ex (\<lambda>d. DsDeviceClass d = cls) (FirstAvailable r)"

lemma patch_spec_class [simp]: "DsDeviceClass (patch_spec c d) = DsDeviceClass d"
  by (simp add: patch_spec_def)

lemma patch_first_None: "patch_first cls c ds = None \<longleftrightarrow> \<not> list_ex (\<lambda>d. DsDeviceClass d = cls) ds"
  by (induction cls c ds rule: patch_first.induct) auto

lemma find_None_iff2: "find P xs = None \<longleftrightarrow> \<not> list_ex P xs"
  by (induction xs) auto

lemma find_patched:
  "patch_first cls c ds = Some ds' \<Longrightarrow> \<exists>d. find (\<lambda>d. DsDeviceClass d = cls) ds' = Some (patch_spec c d)"
  by (induction cls c ds arbitrary: ds' rule: patch_first.induct) (auto split: if_splits)

text \<open>The request a configuration leaves in a template: the compute share cut to an integer and the
  memory to whole bytes.\<close>

definition recorded_exactly :: "resource_configuration \<Rightarrow> bool" where
  "recorded_exactly c \<longleftrightarrow> feq (i2f (f2i64 (RequestedCompute c))) (RequestedCompute c) \<and>
     feq (fdiv (i2f (memory_bytes (RequestedMemoryGB c))) (lit 1073741824)) (RequestedMemoryGB c)"

lemma patch_spec_requests:
  "DsCapacity (patch_spec c d) \<bind> CapRequests =
     Some ((get_or (DsCapacity d \<bind> CapRequests) Map.empty)
       (''compute'' \<mapsto> NewQuantity (f2i64 (RequestedCompute c)), ''memory'' \<mapsto> NewQuantity (memory_bytes (RequestedMemoryGB c))))"
  by (simp add: patch_spec_def)

lemma patch_spec_count [simp]: "DsCount (patch_spec c d) = GPUsPerReplica c"
  by (simp add: patch_spec_def)

lemma spec_matches_patched: "spec_matches c (patch_spec c d) \<longleftrightarrow> recorded_exactly c"
  unfolding spec_matches_def patch_spec_requests recorded_exactly_def by (simp add: NewQuantity_def)

text \<open>How a request is revised: its exact spec, or one of its alternatives, is patched.\<close>

definition revised :: "resource_configuration \<Rightarrow> device_request \<Rightarrow> device_request \<Rightarrow> bool" where
  "revised c r r' \<longleftrightarrow> (\<exists>x. Exactly r = Some x \<and> r' = r\<lparr>Exactly := Some (patch_spec c x)\<rparr>) \<or>
     (\<exists>a d b. FirstAvailable r = a @ d # b \<and> r' = r\<lparr>FirstAvailable := a @ patch_spec c d # b\<rparr>)"

lemma patch_first_splits:
  "patch_first cls c ds = Some ds' \<Longrightarrow>
     \<exists>a d b. ds = a @ d # b \<and> ds' = a @ patch_spec c d # b \<and> \<not> list_ex (\<lambda>d. DsDeviceClass d = cls) a \<and> DsDeviceClass d = cls"
proof (induction ds arbitrary: ds')
  case Nil then show ?case by simp
next
  case (Cons d ds)
  show ?case
  proof (cases "DsDeviceClass d = cls")
    case True then show ?thesis using Cons.prems by (intro exI [of _ "[]"]) auto
  next
    case False
    then obtain es where "patch_first cls c ds = Some es" "ds' = d # es" using Cons.prems by auto
    then obtain a x b where "ds = a @ x # b" "es = a @ patch_spec c x # b" "\<not> list_ex (\<lambda>d. DsDeviceClass d = cls) a" "DsDeviceClass x = cls"
      using Cons.IH by blast
    then show ?thesis using False \<open>ds' = d # es\<close> by (intro exI [of _ "d # a"] exI [of _ x] exI [of _ b]) simp
  qed
qed

lemma skip_request:
  assumes "\<not> mentions cls r"
  shows "patch_requests cls c (r # rs) = map_option ((#) r) (patch_requests cls c rs)"
    and "templateMatchesDesiredConfig cls c (r # rs) = templateMatchesDesiredConfig cls c rs"
    and "scan_requests cls (r # rs) acc = scan_requests cls rs acc"
proof -
  have "patch_first cls c (FirstAvailable r) = None" "find (\<lambda>d. DsDeviceClass d = cls) (FirstAvailable r) = None"
    using assms by (simp_all add: mentions_def patch_first_None find_None_iff2)
  then show "patch_requests cls c (r # rs) = map_option ((#) r) (patch_requests cls c rs)"
    "templateMatchesDesiredConfig cls c (r # rs) = templateMatchesDesiredConfig cls c rs"
    "scan_requests cls (r # rs) acc = scan_requests cls rs acc"
    using assms by (auto simp: mentions_def split: option.splits)
qed

lemma hit_request:
  assumes "mentions cls r"
  obtains r' d where "patch_requests cls c (r # rs) = Some (r' # rs)" "revised c r r'" "mentions cls r'"
    "templateMatchesDesiredConfig cls c (r' # rs) = spec_matches c (patch_spec c d)"
    "(\<exists>x. Exactly r = Some x \<and> DsDeviceClass x = cls \<and> scan_requests cls (r' # rs) acc = read_spec (patch_spec c d) acc)
      \<or> scan_requests cls (r' # rs) acc = scan_requests cls rs (read_spec (patch_spec c d) acc)"
proof (cases "\<exists>x. Exactly r = Some x \<and> DsDeviceClass x = cls")
  case True
  then obtain x where x: "Exactly r = Some x" "DsDeviceClass x = cls" by blast
  show ?thesis by (rule that [of "r\<lparr>Exactly := Some (patch_spec c x)\<rparr>" x]) (use x in \<open>auto simp: revised_def mentions_def\<close>)
next
  case no: False
  then obtain ds where ds: "patch_first cls c (FirstAvailable r) = Some ds"
    using assms patch_first_None [of cls c "FirstAvailable r"] by (cases "patch_first cls c (FirstAvailable r)") (auto simp: mentions_def split: option.splits)
  then obtain a d b where split: "FirstAvailable r = a @ d # b" "ds = a @ patch_spec c d # b"
    "\<not> list_ex (\<lambda>d. DsDeviceClass d = cls) a" "DsDeviceClass d = cls" using patch_first_splits by blast
  have find: "find (\<lambda>d. DsDeviceClass d = cls) ds = Some (patch_spec c d)"
    using split(3,4) unfolding split(2) by (induction a) auto
  have rev: "revised c r (r\<lparr>FirstAvailable := ds\<rparr>)" using split unfolding revised_def by blast
  show ?thesis
    by (rule that [of "r\<lparr>FirstAvailable := ds\<rparr>" d])
       (use no ds split find rev in \<open>auto simp: mentions_def split: option.splits\<close>)
qed

lemma patched_cases:
  assumes "patch_requests cls c rs = Some rs'"
  obtains pre r r' post where "rs = pre @ r # post" "rs' = pre @ r' # post" "\<not> list_ex (mentions cls) pre" "mentions cls r"
    "patch_requests cls c (r # post) = Some (r' # post)"
  using assms
proof (induction rs arbitrary: rs' thesis)
  case Nil then show ?case by simp
next
  case (Cons r rs)
  show ?case
  proof (cases "mentions cls r")
    case True
    then obtain r' where "patch_requests cls c (r # rs) = Some (r' # rs)" using hit_request by metis
    then show ?thesis using Cons.prems(1) [of "[]" r rs r'] Cons.prems(2) True by simp
  next
    case False
    then obtain es where es: "patch_requests cls c rs = Some es" "rs' = r # es" using Cons.prems(2) by (auto simp: skip_request(1) simp del: patch_requests.simps)
    obtain pre q q' post where "rs = pre @ q # post" "es = pre @ q' # post" "\<not> list_ex (mentions cls) pre" "mentions cls q"
      "patch_requests cls c (q # post) = Some (q' # post)" using Cons.IH es(1) by metis
    then show ?thesis using Cons.prems(1) [of "r # pre" q post q'] False es(2) by simp
  qed
qed

lemma patch_None_iff: "patch_requests cls c rs = None \<longleftrightarrow> \<not> list_ex (mentions cls) rs"
proof (induction rs)
  case Nil show ?case by simp
next
  case (Cons r rs)
  show ?case
  proof (cases "mentions cls r")
    case True
    obtain r' where "patch_requests cls c (r # rs) = Some (r' # rs)" using hit_request [OF True] by metis
    then show ?thesis using True by simp
  next
    case False then show ?thesis using Cons by (simp add: skip_request(1) del: patch_requests.simps)
  qed
qed

text \<open>Patching a template changes one device spec only: in the first request that mentions the target
  class. Every other request is left as it was, and patching fails exactly when no request mentions the class.\<close>

lemma patch_changes_one_request:
  "case patch_requests cls c rs of
     None \<Rightarrow> \<not> list_ex (mentions cls) rs
   | Some rs' \<Rightarrow> \<exists>pre r r' post. rs = pre @ r # post \<and> rs' = pre @ r' # post \<and>
       \<not> list_ex (mentions cls) pre \<and> mentions cls r \<and> revised c r r'"
proof (cases "patch_requests cls c rs")
  case None then show ?thesis using patch_None_iff [of cls c rs] by simp
next
  case (Some rs')
  obtain pre r r' post where p: "rs = pre @ r # post" "rs' = pre @ r' # post" "\<not> list_ex (mentions cls) pre" "mentions cls r"
    "patch_requests cls c (r # post) = Some (r' # post)" by (rule patched_cases [OF Some])
  then have "revised c r r'" using hit_request [OF p(4)] by (metis list.inject option.inject)
  then show ?thesis using p(1-4) Some by auto
qed

text \<open>C32: a template written for a configuration is recognised as up to date for it exactly when the
  configuration survives the rounding to an integral share and whole bytes; otherwise the next reconcile at
  the same revision deletes and recreates it.\<close>

theorem written_template_matches_iff:
  assumes "patch_requests cls c rs = Some rs'"
  shows "templateMatchesDesiredConfig cls c rs' \<longleftrightarrow> recorded_exactly c"
proof -
  obtain pre r r' post where p: "rs' = pre @ r' # post" "\<not> list_ex (mentions cls) pre" "mentions cls r"
    "patch_requests cls c (r # post) = Some (r' # post)" using patched_cases [OF assms] by metis
  have "templateMatchesDesiredConfig cls c (pre @ xs) = templateMatchesDesiredConfig cls c xs" for xs
    using p(2) by (induction pre) (simp_all add: skip_request(2) del: templateMatchesDesiredConfig.simps)
  moreover obtain d where "templateMatchesDesiredConfig cls c (r' # post) = spec_matches c (patch_spec c d)"
    using hit_request [OF p(3)] p(4) by (metis list.inject option.inject)
  ultimately show ?thesis unfolding p(1) by (simp add: spec_matches_patched)
qed

text \<open>C19: when only one request mentions the target class, the configuration written is the one read back
  at the next reconcile: its GPU count, its compute share cut to an integer, and its memory in bytes.\<close>

theorem written_template_reads_back:
  assumes "patch_requests cls c rs = Some rs'" "length (filter (mentions cls) rs) \<le> 1" "0 < GPUsPerReplica c"
  shows "\<exists>m. scan_requests cls rs' acc = (GPUsPerReplica c, m) \<and>
     m ''compute'' = Some (NewQuantity (f2i64 (RequestedCompute c))) \<and>
     m ''memory'' = Some (NewQuantity (memory_bytes (RequestedMemoryGB c)))"
proof -
  obtain pre r r' post where p: "rs = pre @ r # post" "rs' = pre @ r' # post" "\<not> list_ex (mentions cls) pre" "mentions cls r"
    "patch_requests cls c (r # post) = Some (r' # post)" by (rule patched_cases [OF assms(1)])
  have skip: "scan_requests cls (xs @ ys) a = scan_requests cls ys a" if "\<not> list_ex (mentions cls) xs" for xs ys a
    using that by (induction xs) (simp_all add: skip_request(3) del: scan_requests.simps)
  have "filter (mentions cls) post = []" using assms(2) p(4) unfolding p(1) by (auto simp: Suc_le_eq)
  then have post: "\<not> list_ex (mentions cls) post" by (auto simp: filter_empty_conv list_ex_iff)
  obtain d where "scan_requests cls (r' # post) acc = read_spec (patch_spec c d) acc \<or>
      scan_requests cls (r' # post) acc = scan_requests cls post (read_spec (patch_spec c d) acc)"
    using hit_request [OF p(4), of c post acc] p(5) by (metis list.inject option.inject)
  then have "scan_requests cls (r' # post) acc = read_spec (patch_spec c d) acc"
    using skip [OF post, of "[]"] by auto
  then show ?thesis unfolding p(2) skip [OF p(3)] using assms(3) by (simp add: read_spec_def patch_spec_def)
qed

definition sample_spec :: "string \<Rightarrow> device_spec" where
  "sample_spec cls = \<lparr>DsDeviceClass = cls, DsCount = 1, DsCapacity = None\<rparr>"

definition sample_requests :: "device_request list" where
  "sample_requests =
     [\<lparr>Exactly = Some (sample_spec ''nic''), FirstAvailable = []\<rparr>,
      \<lparr>Exactly = None, FirstAvailable = [sample_spec ''tpu'', sample_spec ''gpu'']\<rparr>]"

definition sample_configuration :: resource_configuration where
  "sample_configuration = \<lparr>Replicas = 2, GPUsPerReplica = 2, RequestedCompute = Fin 50, RequestedMemoryGB = Fin 8\<rparr>"

lemma written_template_reads_back_witness:
  "\<exists>m. scan_requests ''gpu'' (the (patch_requests ''gpu'' sample_configuration sample_requests)) (1, Map.empty) = (2, m) \<and>
     m ''compute'' = Some (NewQuantity (f2i64 (Fin 50))) \<and> m ''memory'' = Some (NewQuantity (memory_bytes (Fin 8)))"
  using written_template_reads_back [of "''gpu''" sample_configuration sample_requests "the (patch_requests ''gpu'' sample_configuration sample_requests)" "(1, Map.empty)"]
  by (simp add: sample_configuration_def sample_requests_def sample_spec_def mentions_def)

lemma written_template_matches_iff_witness:
  "templateMatchesDesiredConfig ''gpu'' sample_configuration (the (patch_requests ''gpu'' sample_configuration sample_requests))
     \<longleftrightarrow> recorded_exactly sample_configuration"
  using written_template_matches_iff [of "''gpu''" sample_configuration sample_requests "the (patch_requests ''gpu'' sample_configuration sample_requests)"]
  by (simp add: sample_requests_def sample_spec_def)

text \<open>With two alternatives lists that mention the class, reading goes on to the last one while patching
  changes the first, so what is written is not read back.\<close>

lemma two_alternatives_not_read_back:
  "fst (scan_requests ''gpu'' (the (patch_requests ''gpu'' sample_configuration (sample_requests @ sample_requests))) (1, Map.empty)) = 1"
  by (simp add: sample_configuration_def sample_requests_def sample_spec_def read_spec_def patch_spec_def)

section \<open>Creating templates\<close>

lemmas label_defs = ManagedByLabel_def OperatorName_def RevisionLabel_def OriginalTemplateLabel_def TemplateNameLabel_def AutoscalerLabel_def

definition has_labels :: "(string \<rightharpoonup> string) \<Rightarrow> (string \<times> string) list \<Rightarrow> bool" where
  "has_labels m sel = list_all (\<lambda>(k, v). m k = Some v) sel"

text \<open>What the calls of one patch may be: deletions, and the creation of a template whose request is the
  patched one and whose labels make the cleanup find it and the claims generated from it.\<close>

definition patch_call :: "autoscaler \<Rightarrow> resource_configuration \<Rightarrow> api_call \<Rightarrow> bool" where
  "patch_call a desired c = (case c of
     DeleteTemplateCall _ \<Rightarrow> True
   | CreateTemplate t \<Rightarrow>
       (\<exists>d l rs. Discovery (Status a) = Some d \<and> CtSpecLabels t = Some l \<and> CtNamespace t = AsNamespace a \<and>
          length (CtName t) \<le> 63 \<and>
          has_labels (CtLabels t) ((TemplateNameLabel, CtName t) # template_selector (ResourceClaim d)) \<and>
          has_labels l ((TemplateNameLabel, CtName t) # claim_selector a (ResourceClaim d)) \<and>
          patch_requests (DeviceClassName (ResourceRef (Target (Spec a)))) desired rs = Some (CtRequests t))
   | _ \<Rightarrow> False)"

lemma template_name_length: "length (template_name e a original revision) \<le> 63"
  by (simp add: template_name_def)

lemma new_template_requests: "CtRequests (new_template a name original rv base) = CtRequests base"
  by (simp add: new_template_def)

lemma writes_create_revised:
  assumes "Discovery (Status a) = Some d"
  shows "writes (patch_call a c) (create_revised e a c (template_name e a (ResourceClaim d) rv) (ResourceClaim d) rv base)"
proof (cases "patch_requests (DeviceClassName (ResourceRef (Target (Spec a)))) c (CtRequests base)")
  case None then show ?thesis by (simp add: create_revised_def new_template_def writes)
next
  case (Some rs)
  define t where "t = (new_template a (template_name e a (ResourceClaim d) rv) (ResourceClaim d) rv base)\<lparr>CtRequests := rs\<rparr>"
  have labels: "has_labels (CtLabels t) ((TemplateNameLabel, CtName t) # template_selector (ResourceClaim d))"
    "has_labels (the (CtSpecLabels t)) ((TemplateNameLabel, CtName t) # claim_selector a (ResourceClaim d))"
    by (simp_all add: t_def new_template_def has_labels_def template_selector_def claim_selector_def label_defs)
  have fields: "CtNamespace t = AsNamespace a" "length (CtName t) \<le> 63" "CtRequests t = rs" "CtSpecLabels t = Some (the (CtSpecLabels t))"
    by (simp_all add: t_def new_template_def template_name_length)
  have call: "patch_call a c (CreateTemplate t)"
    unfolding patch_call_def api_call.case
    by (rule exI [of _ d], rule exI [of _ "the (CtSpecLabels t)"], rule exI [of _ "CtRequests base"])
       (use assms fields labels Some in simp)
  show ?thesis
    unfolding create_revised_def Let_def new_template_requests Some option.case t_def [symmetric]
    by (intro writes writes_createTemplate call)
qed

text \<open>C31: patching a ResourceClaimTemplate writes templates only. A created one is in the autoscaler's
  namespace, has a name of at most 63 characters and one revised request, and carries the labels by which
  the cleanup finds the template and the claims generated from it.\<close>

theorem patch_template_writes:
  "\<exists>cs. calls (snd (run_state (patchResourceClaimTemplate e a c) s)) = calls s @ cs \<and> list_all (patch_call a c) cs"
proof -
  have del: "writes (patch_call a c) (deleteTemplate e k)" for k
    by (rule writes_deleteTemplate) (simp add: patch_call_def)
  have rev: "writes (patch_call a c) (getOwnerRevision e ns own)" for ns own
    unfolding getOwnerRevision_def by (intro writes)
  have "writes (patch_call a c) (patchResourceClaimTemplate e a c)"
  proof (cases "Discovery (Status a)")
    case None then show ?thesis unfolding patchResourceClaimTemplate_def by (simp add: writes)
  next
    case (Some d)
    show ?thesis unfolding patchResourceClaimTemplate_def Some option.case Let_def
      by (intro writes writes_create_revised [OF Some] del rev)
  qed
  then show ?thesis unfolding writes_def by blast
qed

section \<open>Pointing back\<close>

lemma repoint_back:
  assumes "\<forall>c \<in> set cs. ClaimTemplateName c \<noteq> Some new"
  shows "fst (updatePodTemplateResourceClaims (fst (updatePodTemplateResourceClaims cs old new)) new old) = cs"
  using assms unfolding updatePodTemplateResourceClaims_def by (auto intro!: map_idI)

lemma repoint_updated:
  "old \<noteq> new \<Longrightarrow> snd (updatePodTemplateResourceClaims (fst (updatePodTemplateResourceClaims cs old new)) new old) \<longleftrightarrow>
     snd (updatePodTemplateResourceClaims cs old new) \<or> (\<exists>c \<in> set cs. ClaimTemplateName c = Some new)"
  unfolding updatePodTemplateResourceClaims_def fst_conv snd_conv set_map bex_simps(7) by auto

text \<open>Restoring a workload after a patch writes back the claim references it had before the patch, and
  no other field, provided the patched name was not referenced before.\<close>

lemma restore_undoes_patch:
  assumes got: "get_workload e k (ns, name) (world s) = (Inr wl, w1)"
    and fresh: "\<forall>c \<in> set (WlClaims wl). ClaimTemplateName c \<noteq> Some new" "new \<noteq> []"
    and used: "\<exists>c \<in> set (WlClaims wl). ClaimTemplateName c = Some old"
    and upd: "update_workload e k (wl\<lparr>WlReplicas := Some n, WlClaims := fst (updatePodTemplateResourceClaims (WlClaims wl) old new)\<rparr>) w1 = (Inr (), w2)"
    and again: "get_workload e k (ns, name) w2 = (Inr wl2, w3)"
      "WlClaims wl2 = fst (updatePodTemplateResourceClaims (WlClaims wl) old new)"
  shows "calls (snd (run_state (do { patch_workload e k ns name old new n; restore_workload e k ns name new old }) s)) =
    calls s @ [UpdateWorkload k (wl\<lparr>WlReplicas := Some n, WlClaims := fst (updatePodTemplateResourceClaims (WlClaims wl) old new)\<rparr>),
      UpdateWorkload k (wl2\<lparr>WlClaims := WlClaims wl\<rparr>)]"
proof -
  have ne: "old \<noteq> new" using fresh used by auto
  have up: "updatePodTemplateResourceClaims (WlClaims wl2) new old = (WlClaims wl, True)"
    by (rule prod_eqI) (use repoint_back [OF fresh(1), of old] repoint_updated [OF ne, of "WlClaims wl"] used again(2) in
      \<open>simp_all add: updatePodTemplateResourceClaims_def [of "WlClaims wl"] del: set_map\<close>)
  show ?thesis
    unfolding patch_workload_def restore_workload_def updateWorkload_def observe_def emit_def
    using got upd again(1) fresh(2) up by (simp add: Let_def split: prod.split)
qed

text \<open>Without a current template name, restoring points every template reference of the pod at the
  original one, those of unrelated devices included, and writes exactly when one of them differs.\<close>

lemma restore_without_name_overwrites_all:
  "set (map ClaimTemplateName (fst (restoreAnyManagedTemplate cs original))) \<subseteq> {None, Some original} \<and>
   map ClaimName (fst (restoreAnyManagedTemplate cs original)) = map ClaimName cs \<and>
   (snd (restoreAnyManagedTemplate cs original) \<longleftrightarrow> fst (restoreAnyManagedTemplate cs original) \<noteq> cs)"
proof -
  have same: "c\<lparr>ClaimTemplateName := n\<rparr> = c \<longleftrightarrow> ClaimTemplateName c = n" for c n by (cases c) auto
  have "fst (restoreAnyManagedTemplate cs original) = map id cs \<longleftrightarrow>
      \<not> (\<exists>c \<in> set cs. ClaimTemplateName c \<noteq> None \<and> ClaimTemplateName c \<noteq> Some original)"
    unfolding restoreAnyManagedTemplate_def fst_conv map_eq_conv by (auto simp: same)
  then show ?thesis unfolding restoreAnyManagedTemplate_def by (auto split: if_splits)
qed

end
