(* ===== verification/Resource_Scaler.thy ===== *)
theory Resource_Scaler
  imports Claim_Properties
begin

text \<open>
  \<open>internal/scaler/scaler.go\<close>: one round of evaluation, from the metrics of a service to the writes that
  change its workload. Handlers are programs over the environment of \<^theory_text>\<open>Cluster\<close>; the in-memory
  \<open>ResourceClaimAutoscaler\<close> a Go method mutates through its pointer is returned with the result.
\<close>

section \<open>Latency offsets\<close>

text \<open>The offset of one latency: the previous offset plus what the measurement exceeds the stored estimate,
  less the previous offset, by.\<close>

definition cumulative_offset :: "f64 \<Rightarrow> f64 \<Rightarrow> f64 \<Rightarrow> f64" where
  "cumulative_offset previous measured stored =
     (let raw = fsub stored previous; new = fsub measured raw;
          new = (if flt new (Fin 0) then Fin 0 else new)
      in fadd previous new)"

text \<open>The other latency, in the early returns: no sign check, and the stored estimate is dereferenced.\<close>

definition unclamped_offset :: "f64 \<Rightarrow> f64 \<Rightarrow> int option \<Rightarrow> f64 res" where
  "unclamped_offset previous measured stored =
     (case deref stored of
        Inl e \<Rightarrow> Inl e
      | Inr v \<Rightarrow> Ok (fadd previous (fsub measured (fsub (i2f v) previous))))"

definition usable :: "f64 \<Rightarrow> int option \<Rightarrow> bool" where
  "usable measured stored = (case stored of None \<Rightarrow> False | Some v \<Rightarrow> fgt measured (Fin 0) \<and> fgt (i2f v) (Fin 0))"

definition offsets_from :: "latency_estimation \<Rightarrow> f64 \<Rightarrow> f64 \<Rightarrow> (f64 \<times> f64) res" where
  "offsets_from le measuredITL measuredTTFT =
     (let prevITL = get_or (map_option i2f (EstITLOffset le)) (Fin 0);
          prevTTFT = get_or (map_option i2f (EstTTFTOffset le)) (Fin 0)
      in if usable measuredITL (EstITL le)
         then (case unclamped_offset prevTTFT measuredTTFT (EstTTFT le) of
                 Inl e \<Rightarrow> Inl e
               | Inr ttft \<Rightarrow> Ok (cumulative_offset prevITL measuredITL (i2f (the (EstITL le))), ttft))
         else if usable measuredTTFT (EstTTFT le)
         then (case unclamped_offset prevITL measuredITL (EstITL le) of
                 Inl e \<Rightarrow> Inl e
               | Inr itl \<Rightarrow> Ok (itl, cumulative_offset prevTTFT measuredTTFT (i2f (the (EstTTFT le)))))
         else Ok (prevITL, prevTTFT))"

definition calculateLatencyOffsets :: "'w env \<Rightarrow> string \<Rightarrow> string \<Rightarrow> metrics \<Rightarrow> ('w, (f64 \<times> f64) res) prog" where
  "calculateLatencyOffsets e name ns metrics = do {
     r \<leftarrow> observe (get_autoscaler e (ns, name));
     State_Monad.return (case r of
       Inl _ \<Rightarrow> Ok (Fin 0, Fin 0)
     | Inr a \<Rightarrow> (case ScalingResults (Status a) \<bind> LastEstimation of
         None \<Rightarrow> Ok (Fin 0, Fin 0)
       | Some le \<Rightarrow> offsets_from le (getInterTokenLatency (hex_float e) metrics) (getTimeToFirstToken (hex_float e) metrics)))
   }"

section \<open>Grace period and status\<close>

text \<open>\<open>time.Time.Sub\<close> saturates.\<close>

definition time_sub :: "int \<Rightarrow> int \<Rightarrow> int" where
  "time_sub t u = max (- (2 ^ 63)) (min (2 ^ 63 - 1) (t - u))"

definition grace_period :: "rca_spec \<Rightarrow> scaling_action \<Rightarrow> int" where
  "grace_period spec act =
     (let b = GetEffectiveBehavior spec
      in wrap64 (GracePeriodSeconds (the (if act = ActionScaleUp then ScaleUp b else ScaleDown b)) * 10 ^ 9))"

definition checkGracePeriod :: "'w env \<Rightarrow> autoscaler \<Rightarrow> scaling_decision \<Rightarrow> ('w, bool) prog" where
  "checkGracePeriod e a d =
     (case ScalingStatus (Status a) \<bind> LastApplyTime of
        None \<Rightarrow> State_Monad.return False
      | Some t \<Rightarrow> do {
          now \<leftarrow> observe (time_now e);
          State_Monad.return (time_sub now t < grace_period (Spec a) (Action d))
        })"

definition arrow :: string where "arrow = map char_of [226, 134, 146 :: nat]"

definition condition_message :: "scaling_decision \<Rightarrow> string" where
  "condition_message d =
     (let change = '' (replicas: '' @ FormatInt (Replicas (CurrentConfig d)) @ arrow @ FormatInt (Replicas (DesiredConfig d))
      in if ReplicaChange d \<and> ResourceChange d then Reason d @ change @ '', resources also changed)''
         else if ReplicaChange d then Reason d @ change @ '')''
         else Reason d)"

definition stored_latency :: "f64 \<Rightarrow> int" where
  "stored_latency x = (let v = f2i32 x in if v < 0 then 0 else v)"

definition new_estimation :: "latency_result \<Rightarrow> f64 \<Rightarrow> f64 \<Rightarrow> latency_estimation" where
  "new_estimation l oi ot =
     \<lparr>EstTTFT = Some (stored_latency (TTFT l)), EstITL = Some (stored_latency (ITL l)),
      EstTTFTOffset = Some (f2i32 ot), EstITLOffset = Some (f2i32 oi)\<rparr>"

definition scaled_status ::
  "(condition list \<Rightarrow> condition \<Rightarrow> condition list) \<Rightarrow> int \<Rightarrow> autoscaler \<Rightarrow> scaling_decision \<Rightarrow> latency_result \<Rightarrow> f64 \<Rightarrow> f64 \<Rightarrow> rca_status" where
  "scaled_status set_cond now a d l oi ot =
     (let st = get_or (ScalingStatus (Status a)) empty_scaling_status;
          sr = get_or (ScalingResults (Status a)) empty_scaling_results;
          sr = sr\<lparr>LastEstimationTime := Some now\<rparr>;
          sr = (if fgt (E2E l) (Fin 0) then sr\<lparr>LastEstimation := Some (new_estimation l oi ot)\<rparr> else sr)
      in (Status a)
        \<lparr>ScalingStatus := Some (st\<lparr>DesiredReplicas := Some (wrap32 (Replicas (DesiredConfig d))), LastApplyTime := Some now\<rparr>),
         ScalingResults := Some sr,
         Conditions := set_cond (Conditions (Status a))
           \<lparr>CondType = ''ScalingActive'', CondStatus = True, CondReason = ''ScalingInProgress'',
            CondMessage = condition_message d, CondGeneration = AsGeneration a\<rparr>\<rparr>)"

definition updateScalingStatus ::
  "'w env \<Rightarrow> autoscaler \<Rightarrow> scaling_decision \<Rightarrow> latency_result \<Rightarrow> f64 \<Rightarrow> f64 \<Rightarrow> ('w, (api_error + unit) \<times> autoscaler) prog" where
  "updateScalingStatus e a d l oi ot = do {
     now \<leftarrow> observe (time_now e);
     let a = a\<lparr>Status := scaled_status (set_condition e) now a d l oi ot\<rparr>;
     r \<leftarrow> updateStatus e a;
     State_Monad.return (r, a)
   }"

section \<open>Applying the changes\<close>

definition applyResourceChanges :: "'w env \<Rightarrow> autoscaler \<Rightarrow> scaling_decision \<Rightarrow> ('w, unit res) prog" where
  "applyResourceChanges e a d = do {
     let st = (get_or (ScalingStatus (Status a)) empty_scaling_status)\<lparr>ReadyReplicas := Some 0, AvailableReplicas := Some 0\<rparr>;
     let a = a\<lparr>Status := (Status a)\<lparr>ScalingStatus := Some st\<rparr>\<rparr>;
     r \<leftarrow> patchResourceClaimTemplate e a (DesiredConfig d);
     case r of
       Inl f \<Rightarrow> State_Monad.return (case f of Error _ \<Rightarrow> Fail ''failed to patch ResourceClaimTemplate'' | _ \<Rightarrow> Inl f)
     | Inr name \<Rightarrow> do {
         p \<leftarrow> patchPodOwner e a name (wrap32 (Replicas (DesiredConfig d)));
         case p of
           Inl f \<Rightarrow> State_Monad.return (case f of Error _ \<Rightarrow> Fail ''failed to patch pod owner'' | _ \<Rightarrow> Inl f)
         | Inr _ \<Rightarrow> do {
             updateStatus e (a\<lparr>Status := (Status a)\<lparr>ScalingStatus := Some (st\<lparr>DesiredClaimTemplate := name\<rparr>)\<rparr>\<rparr>);
             State_Monad.return (Ok ())
           }
       }
   }"

definition updateReplicaStatusFromOwner ::
  "'w env \<Rightarrow> autoscaler \<Rightarrow> owner_reference \<Rightarrow> ('w, unit res \<times> autoscaler) prog" where
  "updateReplicaStatusFromOwner e a owner =
     (let st = get_or (ScalingStatus (Status a)) empty_scaling_status;
          a = a\<lparr>Status := (Status a)\<lparr>ScalingStatus := Some st\<rparr>\<rparr>
      in case workload_kind (OwnerKind owner) of
           None \<Rightarrow> State_Monad.return (Fail ''unsupported owner kind'', a)
         | Some k \<Rightarrow> do {
             r \<leftarrow> observe (get_workload e k (AsNamespace a, OwnerName owner));
             case r of
               Inl _ \<Rightarrow> State_Monad.return (Fail ''failed to get workload'', a)
             | Inr w \<Rightarrow> do {
                 let a = a\<lparr>Status := (Status a)\<lparr>ScalingStatus := Some (st\<lparr>ReadyReplicas := Some (WlReadyReplicas w),
                   AvailableReplicas := Some (WlAvailableReplicas w)\<rparr>)\<rparr>\<rparr>;
                 u \<leftarrow> updateStatus e a;
                 State_Monad.return (case u of Inl _ \<Rightarrow> Fail ''failed to update autoscaler status'' | Inr _ \<Rightarrow> Ok (), a)
               }
           })"

definition applyReplicaChanges :: "'w env \<Rightarrow> autoscaler \<Rightarrow> scaling_decision \<Rightarrow> ('w, unit res) prog" where
  "applyReplicaChanges e a d =
     (case Discovery (Status a) of
        None \<Rightarrow> State_Monad.return (Ok ())
      | Some disc \<Rightarrow>
          (case Owner disc of
             None \<Rightarrow> State_Monad.return (Ok ())
           | Some owner \<Rightarrow> do {
               updateReplicaStatusFromOwner e a owner;
               case workload_kind (OwnerKind owner) of
                 None \<Rightarrow> State_Monad.return (Ok ())
               | Some k \<Rightarrow> do {
                   r \<leftarrow> (if k = Deployment then patchDeployment e else patchStatefulSet e) (AsNamespace a) (OwnerName owner)
                          (ResourceClaim disc) (ResourceClaim disc) (wrap32 (Replicas (DesiredConfig d)));
                   State_Monad.return (case r of Inl (Error _) \<Rightarrow> Fail ''failed to patch replicas'' | Inl f \<Rightarrow> Inl f | Inr _ \<Rightarrow> Ok ())
                 }
             }))"

definition executeScalingChanges :: "'w env \<Rightarrow> autoscaler \<Rightarrow> scaling_decision \<Rightarrow> ('w, unit res) prog" where
  "executeScalingChanges e a d =
     (if ResourceChange d then applyResourceChanges e a d
      else if ReplicaChange d then applyReplicaChanges e a d
      else State_Monad.return (Ok ()))"

definition applyScalingAction ::
  "'w env \<Rightarrow> string \<Rightarrow> string \<Rightarrow> optimal_configuration \<Rightarrow> f64 \<Rightarrow> f64 \<Rightarrow> f64 \<Rightarrow> ('w, unit res) prog" where
  "applyScalingAction e name ns config rate oi ot = do {
     r \<leftarrow> observe (get_autoscaler e (ns, name));
     case r of
       Inl _ \<Rightarrow> State_Monad.return (Fail ''failed to fetch autoscaler'')
     | Inr a \<Rightarrow> do {
         t \<leftarrow> getCurrentResourcesFromTemplate e a;
         case determineScalingAction a t (resource_configuration.truncate config) rate of
           Inl f \<Rightarrow> State_Monad.return (Inl f)
         | Inr d \<Rightarrow>
             if Action d = ActionNone then State_Monad.return (Ok ())
             else do {
               wait \<leftarrow> checkGracePeriod e a d;
               if wait then State_Monad.return (Ok ())
               else do {
                 (u, a) \<leftarrow> updateScalingStatus e a d (EstimatedLatency config) oi ot;
                 case u of
                   Inl _ \<Rightarrow> State_Monad.return (Fail ''failed to update status'')
                 | Inr _ \<Rightarrow> executeScalingChanges e a d
               }
             }
       }
   }"

section \<open>One round\<close>

text \<open>The configuration without traffic: the minima of the constraints.\<close>

definition minimum_configuration :: "rca_spec \<Rightarrow> optimal_configuration" where
  "minimum_configuration spec =
     (let replicas = get_or (SpecConstraints spec \<bind> MinReplicas) 1;
          count = get_or (SpecConstraints spec \<bind> MinCountPerReplica) 1;
          compute = get_or (capacity_of (SpecConstraints spec) ''compute'' \<bind> CapMin \<bind> (\<lambda>q. Some (AsApproximateFloat64 q))) (Fin 1);
          memory = get_or (capacity_of (SpecConstraints spec) ''memory'' \<bind> CapMin \<bind> (\<lambda>q. Some (QValue q))) (8 * 1024 * 1024 * 1024)
      in zero_config\<lparr>Replicas := replicas, GPUsPerReplica := count, RequestedCompute := compute,
           RequestedMemoryGB := fdiv (i2f memory) (lit 1073741824),
           TotalGPUs := wrap32 (replicas * count), MeetsConstraints := True\<rparr>)"

text \<open>The prefill tokens of a round: measured, or the prompt, cut to what a batch leaves over.\<close>

definition prefill_tokens :: "rca_spec \<Rightarrow> f64 \<Rightarrow> int \<Rightarrow> f64" where
  "prefill_tokens spec measured promptLen =
     (if feq measured (Fin 0)
      then case Hint (Target spec) of
        None \<Rightarrow> i2f promptLen
      | Some h \<Rightarrow> (case MaxNumBatchedTokens h of
          None \<Rightarrow> i2f promptLen
        | Some n \<Rightarrow> fmin (i2f promptLen) (fsub (i2f n) (fmin (i2f (BatchSize h)) (i2f (MaxNumSeqs h)))))
      else measured)"

text \<open>The optimizer of a round, tuned.\<close>

definition prepare_optimizer ::
  "'w env \<Rightarrow> rca_spec \<Rightarrow> metrics \<Rightarrow> f64 \<Rightarrow> f64 \<Rightarrow> f64 \<Rightarrow> resource_optimizer res" where
  "prepare_optimizer e spec metrics rate oi ot =
     (let hx = hex_float e; prompt = getPromptTokens hx metrics; output = getOutputTokens hx metrics
      in case NewResourceOptimizer (gpu_order e) (model_order e) spec of
           Inl f \<Rightarrow> Inl f
         | Inr opt \<Rightarrow>
             (let opt = SetWorkloadParameters opt rate prompt output (getMaxNumSeqs spec);
                  opt = (if \<not> feq oi (Fin 0) \<or> \<not> feq ot (Fin 0)
                         then SetLatencyOffsets opt oi ot else opt);
                  prefill = prefill_tokens spec (getPrefillTokens hx metrics) prompt;
                  gpu = getNumGPU hx metrics
              in Ok (if fgt prefill (Fin 0) \<and> gpu = 1
                     then TuneWithMetrics (pow_frac e) opt prefill prompt output
                            (getComputeThreadUtilization hx metrics) (getMeasuredMemoryUsage hx metrics) gpu
                     else opt)))"

definition EvaluateAndScale :: "'w env \<Rightarrow> string \<Rightarrow> string \<Rightarrow> rca_spec \<Rightarrow> metrics \<Rightarrow> ('w, unit res) prog" where
  "EvaluateAndScale e name ns spec metrics = do {
     let rate = getArrivalRate (hex_float e) metrics;
     offs \<leftarrow> calculateLatencyOffsets e name ns metrics;
     case offs of
       Inl f \<Rightarrow> State_Monad.return (Inl f)
     | Inr (oi, ot) \<Rightarrow>
         if feq rate (Fin 0) then do {
           r \<leftarrow> applyScalingAction e name ns (minimum_configuration spec) rate (Fin 0) (Fin 0);
           State_Monad.return (case r of Inl (Error _) \<Rightarrow> Fail ''failed to apply scaling action'' | _ \<Rightarrow> r)
         }
         else case getTargetLatency (GetEffectiveTargetLatency spec) of
           Inl f \<Rightarrow> State_Monad.return (Inl f)
         | Inr targets \<Rightarrow>
             (case prepare_optimizer e spec metrics rate oi ot of
                Inl f \<Rightarrow> State_Monad.return (Inl f)
              | Inr opt \<Rightarrow>
                  (case FindOptimalConfiguration (pow_frac e) opt rate (Some targets) of
                     None \<Rightarrow> State_Monad.return (Inl Hang)
                   | Some (Inl _, _) \<Rightarrow> State_Monad.return (Fail ''failed to find optimal configuration'')
                   | Some (Inr config, _) \<Rightarrow> do {
                       r \<leftarrow> applyScalingAction e name ns config rate oi ot;
                       State_Monad.return (case r of Inl (Error _) \<Rightarrow> Fail ''failed to apply scaling action'' | _ \<Rightarrow> r)
                     }))
   }"

end
