(* ===== verification/Scaler_Properties.thy ===== *)
theory Scaler_Properties
  imports Resource_Scaler
begin

text \<open>
  What one round of evaluation may write, when it may write at all, and how the status it writes bears on
  the next round.
\<close>

section \<open>Programs that only read\<close>

abbreviation reads :: "('w, 'a) prog \<Rightarrow> bool" where "reads m \<equiv> writes (\<lambda>_. False) m"

lemma readsD: "reads m \<Longrightarrow> run_state m s = (r, s') \<Longrightarrow> calls s' = calls s"
  using writesD [of "\<lambda>_. False" m s r s'] by (auto simp: list_all_iff dest: last_in_set)

lemma reads_template [writes]: "reads (getCurrentResourcesFromTemplate e a)"
  unfolding getCurrentResourcesFromTemplate_def by (intro writes)

lemma reads_grace [writes]: "reads (checkGracePeriod e a d)"
  unfolding checkGracePeriod_def by (intro writes)

lemma reads_offsets [writes]: "reads (calculateLatencyOffsets e name ns metrics)"
  unfolding calculateLatencyOffsets_def by (intro writes)

lemma writes_reads: "reads m \<Longrightarrow> writes P m"
  by (erule writes_mono) simp

section \<open>When a round writes\<close>

lemma update_scaling_run:
  "run_state (updateScalingStatus e a d l oi ot) s =
     (let (now, w) = time_now e (world s);
          a' = a\<lparr>Status := scaled_status (set_condition e) now a d l oi ot\<rparr>;
          (r, w') = update_status e a' w
      in ((r, a'), s\<lparr>world := w', calls := calls s @ [UpdateStatus a']\<rparr>))"
  by (simp add: updateScalingStatus_def updateStatus_def observe_def emit_def Let_def split: prod.split)

lemma execute_extends: "\<exists>cs. calls (snd (run_state m s)) = calls s @ cs" if "writes (\<lambda>_. True) m" for m :: "('w, 'a) prog"
  using that unfolding writes_def by blast

lemma writes_any_templates: "writes (\<lambda>_. True) (patchResourceClaimTemplate e a c)"
  unfolding patchResourceClaimTemplate_def getOwnerRevision_def create_revised_def Let_def
  by (intro writes writes_deleteTemplate writes_createTemplate TrueI)

lemma writes_any_workload: "writes (\<lambda>_. True) (patch_workload e k ns name old new n)"
  unfolding patch_workload_def by (intro writes writes_updateWorkload TrueI)

lemma writes_any_execute: "writes (\<lambda>_. True) (executeScalingChanges e a d)"
  unfolding executeScalingChanges_def applyResourceChanges_def applyReplicaChanges_def patchPodOwner_def
    patchDeployment_def patchStatefulSet_def updateReplicaStatusFromOwner_def Let_def
  by (auto intro!: writes writes_any_templates writes_any_workload writes_updateStatus split: workload_kind.split if_split)

text \<open>The grace period since the last applied action, if any, has passed in a world.\<close>

definition grace_over :: "'w env \<Rightarrow> autoscaler \<Rightarrow> scaling_decision \<Rightarrow> 'w \<Rightarrow> bool" where
  "grace_over e a d w = (case ScalingStatus (Status a) \<bind> LastApplyTime of
     None \<Rightarrow> True | Some t \<Rightarrow> grace_period (Spec a) (Action d) \<le> time_sub (fst (time_now e w)) t)"

text \<open>The two ways a call of \<open>applyScalingAction\<close> goes: it writes nothing, or it starts with a status.\<close>

lemma apply_cases:
  assumes "run_state (applyScalingAction e name ns config rate oi ot) s = (r, s')"
  obtains (quiet) "calls s' = calls s"
  | (acts) a w t s2 d now rest where
      "get_autoscaler e (ns, name) (world s) = (Inr a, w)"
      "run_state (getCurrentResourcesFromTemplate e a) (s\<lparr>world := w\<rparr>) = (t, s2)"
      "determineScalingAction a t (resource_configuration.truncate config) rate = Ok d" "Action d \<noteq> ActionNone"
      "grace_over e a d (world s2)"
      "calls s' = calls s @ UpdateStatus (a\<lparr>Status := scaled_status (set_condition e) now a d (EstimatedLatency config) oi ot\<rparr>) # rest"
proof (cases "fst (get_autoscaler e (ns, name) (world s))")
  case (Inl err)
  then have "calls s' = calls s" using assms by (auto simp: applyScalingAction_def observe_def split: prod.splits)
  then show thesis by (rule quiet)
next
  case (Inr a)
  then obtain w where g: "get_autoscaler e (ns, name) (world s) = (Inr a, w)" by (metis prod.collapse)
  obtain t s2 where t: "run_state (getCurrentResourcesFromTemplate e a) (s\<lparr>world := w\<rparr>) = (t, s2)" by fastforce
  have c2: "calls s2 = calls s" using readsD [OF reads_template t] by simp
  show thesis
  proof (cases "determineScalingAction a t (resource_configuration.truncate config) rate")
    case (Inl f)
    then have "calls s' = calls s" using assms g t c2 by (auto simp: applyScalingAction_def observe_def)
    then show thesis by (rule quiet)
  next
    case (Inr d)
    obtain wait s3 where w: "run_state (checkGracePeriod e a d) s2 = (wait, s3)" by fastforce
    have c3: "calls s3 = calls s" using readsD [OF reads_grace w] c2 by simp
    show thesis
    proof (cases "Action d = ActionNone \<or> wait")
      case True
      then have "calls s' = calls s" using assms g t w c2 c3 Inr by (auto simp: applyScalingAction_def observe_def split: if_splits)
      then show thesis by (rule quiet)
    next
      case False
      let ?a = "\<lambda>now. a\<lparr>Status := scaled_status (set_condition e) now a d (EstimatedLatency config) oi ot\<rparr>"
      obtain now u s4 where u: "run_state (updateScalingStatus e a d (EstimatedLatency config) oi ot) s3 = ((u, ?a now), s4)"
        "calls s4 = calls s @ [UpdateStatus (?a now)]"
      proof -
        obtain now w5 where n: "time_now e (world s3) = (now, w5)" by fastforce
        obtain u w6 where "update_status e (?a now) w5 = (u, w6)" by fastforce
        then show thesis using that [of u now] c3 n unfolding update_scaling_run by (simp add: Let_def)
      qed
      have run: "run_state (applyScalingAction e name ns config rate oi ot) s =
        run_state (case u of Inl _ \<Rightarrow> State_Monad.return (Fail ''failed to update status'') | Inr _ \<Rightarrow> executeScalingChanges e (?a now) d) s4"
        using g t w u(1) Inr False by (simp add: applyScalingAction_def observe_def)
      have "writes (\<lambda>_. True) (case u of Inl _ \<Rightarrow> State_Monad.return (Fail ''failed to update status'') | Inr _ \<Rightarrow> executeScalingChanges e (?a now) d)"
        by (intro writes writes_any_execute)
      from execute_extends [OF this, of s4] obtain rest where "calls s' = calls s4 @ rest"
        unfolding run [symmetric] assms snd_conv by blast
      then have "calls s' = calls s @ UpdateStatus (?a now) # rest" using u(2) by simp
      moreover have "grace_over e a d (world s2)"
        using w False by (auto simp: grace_over_def checkGracePeriod_def observe_def split: prod.splits option.splits)
      ultimately show thesis using acts [OF g t Inr] False by blast
    qed
  qed
qed

text \<open>C9: a round writes nothing unless the fetched autoscaler asks for an action and its grace period has
  passed since the last applied one; the first write is then the autoscaler's own status, which records the
  desired replicas before any workload is touched.\<close>

theorem scaling_is_guarded:
  "let s' = snd (run_state (applyScalingAction e name ns config rate oi ot) s) in
   calls s' = calls s \<or>
   (\<exists>a w t s2 d a' rest.
    get_autoscaler e (ns, name) (world s) = (Inr a, w) \<and>
    run_state (getCurrentResourcesFromTemplate e a) (s\<lparr>world := w\<rparr>) = (t, s2) \<and>
    determineScalingAction a t (resource_configuration.truncate config) rate = Ok d \<and> Action d \<noteq> ActionNone \<and>
    grace_over e a d (world s2) \<and> calls s' = calls s @ UpdateStatus a' # rest \<and>
    ScalingStatus (Status a') \<bind> DesiredReplicas = Some (wrap32 (Replicas (DesiredConfig d))))"
proof -
  obtain r s' where run: "run_state (applyScalingAction e name ns config rate oi ot) s = (r, s')" by fastforce
  then show ?thesis
  proof (cases rule: apply_cases)
    case quiet then show ?thesis by (simp add: run)
  next
    case (acts a w t s2 d now rest)
    have "ScalingStatus (scaled_status (set_condition e) now a d l oi ot) \<bind> DesiredReplicas = Some (wrap32 (Replicas (DesiredConfig d)))" for l
      by (simp add: scaled_status_def Let_def)
    then show ?thesis unfolding run snd_conv Let_def using acts
      by (intro disjI2 exI [of _ a] exI [of _ w] exI [of _ t] exI [of _ s2] exI [of _ d]
          exI [of _ "a\<lparr>Status := scaled_status (set_condition e) now a d (EstimatedLatency config) oi ot\<rparr>"] exI [of _ rest]) simp
  qed
qed

section \<open>What a round may write\<close>

text \<open>\<open>frame e ns name c\<close>: a status write of the fetched autoscaler changes its status only, and keeps the
  discovery; a workload write changes replicas and claim references of a fetched workload only; templates
  are created and deleted; the specification, labels and finalizers of an autoscaler are never written.\<close>

definition fetched :: "'w env \<Rightarrow> key \<Rightarrow> autoscaler \<Rightarrow> bool" where
  "fetched e k a \<longleftrightarrow> (\<exists>w w'. get_autoscaler e k w = (Inr a, w'))"

definition status_write :: "'w env \<Rightarrow> key \<Rightarrow> autoscaler \<Rightarrow> bool" where
  "status_write e k a \<longleftrightarrow> (\<exists>b. fetched e k b \<and> a = b\<lparr>Status := Status a\<rparr> \<and> Discovery (Status a) = Discovery (Status b))"

definition workload_write :: "'w env \<Rightarrow> workload_kind \<Rightarrow> workload \<Rightarrow> bool" where
  "workload_write e k x \<longleftrightarrow> (\<exists>key w y w' old new. get_workload e k key w = (Inr y, w') \<and>
     x = y\<lparr>WlReplicas := WlReplicas x, WlClaims := fst (updatePodTemplateResourceClaims (WlClaims y) old new)\<rparr>)"

definition frame :: "'w env \<Rightarrow> key \<Rightarrow> api_call \<Rightarrow> bool" where
  "frame e k c = (case c of
     UpdateStatus a \<Rightarrow> status_write e k a
   | UpdateWorkload kind x \<Rightarrow> workload_write e kind x
   | UpdateAutoscaler _ \<Rightarrow> False
   | _ \<Rightarrow> True)"

lemma frame_templates: "writes (frame e k) (patchResourceClaimTemplate e' a c)"
  unfolding patchResourceClaimTemplate_def getOwnerRevision_def create_revised_def Let_def
  by (intro writes writes_deleteTemplate writes_createTemplate) (simp_all add: frame_def)

lemma writes_observe_bind:
  assumes "\<And>w0 a w. f w0 = (a, w) \<Longrightarrow> writes P (g a)"
  shows "writes P (observe f \<bind> g)"
  unfolding writes_def
proof
  fix s :: "'a sys"
  obtain a w where f: "f (world s) = (a, w)" by fastforce
  have "\<exists>cs. calls (snd (run_state (g a) (s\<lparr>world := w\<rparr>))) = calls (s\<lparr>world := w\<rparr>) @ cs \<and> list_all P cs"
    using assms [OF f] unfolding writes_def by blast
  then show "\<exists>cs. calls (snd (run_state (observe f \<bind> g) s)) = calls s @ cs \<and> list_all P cs"
    using f by (simp add: observe_def)
qed

lemma frame_patch: "writes (frame e k) (patch_workload e kind ns name old new n)"
  unfolding patch_workload_def
proof (rule writes_observe_bind)
  fix s r w assume g: "get_workload e kind (ns, name) s = (r, w)"
  show "writes (frame e k) (case r of
     Inl _ \<Rightarrow> State_Monad.return (Fail ''failed to get workload'')
   | Inr w \<Rightarrow> do {
       u \<leftarrow> updateWorkload e kind (w\<lparr>WlReplicas := Some n, WlClaims := fst (updatePodTemplateResourceClaims (WlClaims w) old new)\<rparr>);
       State_Monad.return (case u of Inl _ \<Rightarrow> Fail ''failed to update workload'' | Inr _ \<Rightarrow> Ok ())
     })"
  proof (cases r)
    case (Inl _) then show ?thesis by (simp add: writes)
  next
    case (Inr x)
    have "workload_write e kind (x\<lparr>WlReplicas := Some n, WlClaims := fst (updatePodTemplateResourceClaims (WlClaims x) old new)\<rparr>)"
      unfolding workload_write_def using g Inr by fastforce
    then show ?thesis unfolding Inr sum.case by (intro writes writes_updateWorkload) (simp add: frame_def)
  qed
qed

lemma status_write_again:
  assumes "status_write e k a" "Discovery st = Discovery (Status a)"
  shows "status_write e k (a\<lparr>Status := st\<rparr>)"
proof -
  obtain b where b: "fetched e k b" "a = b\<lparr>Status := Status a\<rparr>" "Discovery (Status a) = Discovery (Status b)"
    using assms(1) unfolding status_write_def by blast
  have "a\<lparr>Status := st\<rparr> = b\<lparr>Status := st\<rparr>" by (subst b(2)) simp
  then show ?thesis unfolding status_write_def using b assms(2) by (intro exI [of _ b]) simp
qed

lemma status_write_fetched: "fetched e k a \<Longrightarrow> status_write e k a"
  unfolding status_write_def by auto

lemma frame_status:
  "status_write e k a \<Longrightarrow> Discovery st = Discovery (Status a) \<Longrightarrow> writes (frame e k) (updateStatus e (a\<lparr>Status := st\<rparr>))"
  by (rule writes_updateStatus) (simp add: frame_def status_write_again)

lemma frame_replica_status: 
  assumes "status_write e k a"
  shows "writes (frame e k) (updateReplicaStatusFromOwner e a owner)"
  unfolding updateReplicaStatusFromOwner_def Let_def
  using assms by (auto intro!: writes frame_status status_write_again simp: frame_def)

lemma frame_execute:
  assumes "status_write e k a"
  shows "writes (frame e k) (executeScalingChanges e a d)"
  unfolding executeScalingChanges_def applyResourceChanges_def applyReplicaChanges_def patchPodOwner_def
    patchDeployment_def patchStatefulSet_def Let_def
  using assms
  by (auto intro!: writes frame_templates frame_patch frame_replica_status frame_status status_write_again split: workload_kind.split if_split)

lemma frame_update_scaling:
  assumes "fetched e k a" "run_state (updateScalingStatus e a d l oi ot) s = ((u, a'), s')"
  shows "status_write e k a'" "\<exists>cs. calls s' = calls s @ cs \<and> list_all (frame e k) cs"
proof -
  obtain now where a: "a' = a\<lparr>Status := scaled_status (set_condition e) now a d l oi ot\<rparr>" "calls s' = calls s @ [UpdateStatus a']"
    using assms(2) unfolding update_scaling_run by (auto simp: Let_def split: prod.splits)
  have "status_write e k a'" unfolding a(1)
    by (rule status_write_again [OF status_write_fetched [OF assms(1)]]) (simp add: scaled_status_def Let_def)
  then show "status_write e k a'" "\<exists>cs. calls s' = calls s @ cs \<and> list_all (frame e k) cs"
    using a(2) by (auto simp: frame_def)
qed

lemma writes_tie:
  assumes "\<And>s r s'. run_state m s = (r, s') \<Longrightarrow> (\<exists>cs. calls s' = calls s @ cs \<and> list_all P cs) \<and> writes P (f r)"
  shows "writes P (m \<bind> f)"
  unfolding writes_def
proof
  fix s
  obtain r s' where m: "run_state m s = (r, s')" by fastforce
  obtain cs where c: "calls s' = calls s @ cs" "list_all P cs" "writes P (f r)" using assms [OF m] by blast
  obtain ds where "calls (snd (run_state (f r) s')) = calls s' @ ds" "list_all P ds" using c(3) unfolding writes_def by blast
  then show "\<exists>cs. calls (snd (run_state (m \<bind> f) s)) = calls s @ cs \<and> list_all P cs"
    using m c by (intro exI [of _ "cs @ ds"]) simp
qed

lemma frame_apply: "writes (frame e (ns, name)) (applyScalingAction e name ns config rate oi ot)"
  unfolding applyScalingAction_def
proof (rule writes_observe_bind)
  fix s r w assume g: "get_autoscaler e (ns, name) s = (r, w)"
  show "writes (frame e (ns, name)) (case r of
     Inl _ \<Rightarrow> State_Monad.return (Fail ''failed to fetch autoscaler'')
   | Inr a \<Rightarrow> do {
       t \<leftarrow> getCurrentResourcesFromTemplate e a;
       case determineScalingAction a t (resource_configuration.truncate config) rate of
         Inl f \<Rightarrow> State_Monad.return (Inl f)
       | Inr d \<Rightarrow>
           if Action d = ActionNone then State_Monad.return (Ok ())
           else do {
             wait \<leftarrow> checkGracePeriod e a d;
             if wait then State_Monad.return (Ok ())
             else do {
               (u, a) \<leftarrow> updateScalingStatus e a d (EstimatedLatency config) oi ot;
               case u of
                 Inl _ \<Rightarrow> State_Monad.return (Fail ''failed to update status'')
               | Inr _ \<Rightarrow> executeScalingChanges e a d
             }
           }
     })"
  proof (cases r)
    case (Inl _) then show ?thesis by (simp add: writes)
  next
    case (Inr a)
    then have a: "fetched e (ns, name) a" using g unfolding fetched_def by blast
    have act: "writes (frame e (ns, name)) (do {
        (u, a) \<leftarrow> updateScalingStatus e a d (EstimatedLatency config) oi ot;
        case u of Inl _ \<Rightarrow> State_Monad.return (Fail ''failed to update status'') | Inr _ \<Rightarrow> executeScalingChanges e a d })" for d
      by (rule writes_tie) (auto intro!: writes frame_execute dest: frame_update_scaling [OF a])
    show ?thesis unfolding Inr sum.case by (intro writes act writes_reads [OF reads_template] writes_reads [OF reads_grace])
  qed
qed

text \<open>C22: a whole round of evaluation, whatever the metrics, the specification and the cluster's answers,
  stays inside this frame.\<close>

theorem evaluation_frame:
  "\<exists>cs. calls (snd (run_state (EvaluateAndScale e name ns spec metrics) s)) = calls s @ cs \<and> list_all (frame e (ns, name)) cs"
proof -
  have "writes (frame e (ns, name)) (EvaluateAndScale e name ns spec metrics)"
    unfolding EvaluateAndScale_def Let_def by (intro writes frame_apply writes_reads [OF reads_offsets])
  then show ?thesis unfolding writes_def by blast
qed

section \<open>Changing resources\<close>

text \<open>The workload as it is written: the fetched one with its replicas, and with every claim that named the old
  template naming the new one.\<close>

definition repointed :: "string \<Rightarrow> string \<Rightarrow> int \<Rightarrow> workload \<Rightarrow> workload \<Rightarrow> bool" where
  "repointed old new n y x \<longleftrightarrow> x = y\<lparr>WlReplicas := Some n, WlClaims := WlClaims x\<rparr> \<and>
     map ClaimName (WlClaims x) = map ClaimName (WlClaims y) \<and>
     map ClaimTemplateName (WlClaims x) = map (\<lambda>c. if ClaimTemplateName c = Some old then Some new else ClaimTemplateName c) (WlClaims y)"

lemma patch_workload_ok:
  assumes "run_state (patch_workload e k ns name old new n) s = (Inr (), s')"
  shows "\<exists>y w x. get_workload e k (ns, name) (world s) = (Inr y, w) \<and> fst (update_workload e k x w) = Inr () \<and>
    calls s' = calls s @ [UpdateWorkload k x] \<and> repointed old new n y x"
  using assms unfolding patch_workload_def
  by (auto simp: observe_def updateWorkload_def emit_def updatePodTemplateResourceClaims_def repointed_def
      split: prod.splits sum.splits)

lemma patch_owner_ok:
  assumes "run_state (patchPodOwner e a new n) s = (Inr (), s')"
  shows "\<exists>d owner k y w x. Discovery (Status a) = Some d \<and> Owner d = Some owner \<and> workload_kind (OwnerKind owner) = Some k \<and>
    get_workload e k (AsNamespace a, OwnerName owner) (world s) = (Inr y, w) \<and> fst (update_workload e k x w) = Inr () \<and>
    calls s' = calls s @ [UpdateWorkload k x] \<and> repointed (current_template a (ResourceClaim d)) new n y x"
  using assms unfolding patchPodOwner_def patchDeployment_def patchStatefulSet_def
  by (auto dest!: patch_workload_ok split: option.splits workload_kind.splits)

definition no_status :: "api_call \<Rightarrow> bool" where
  "no_status c = (case c of UpdateStatus _ \<Rightarrow> False | _ \<Rightarrow> True)"

lemma no_status_templates: "writes no_status (patchResourceClaimTemplate e a c)"
  unfolding patchResourceClaimTemplate_def getOwnerRevision_def create_revised_def Let_def
  by (intro writes writes_deleteTemplate writes_createTemplate) (simp_all add: no_status_def)

lemma no_status_owner: "writes no_status (patchPodOwner e a new n)"
  unfolding patchPodOwner_def patchDeployment_def patchStatefulSet_def patch_workload_def
  by (auto intro!: writes writes_updateWorkload simp: no_status_def split: workload_kind.split)

text \<open>The object of a resource change: its counts are reset before the writes, its template recorded after them.\<close>

definition reset_counts :: "autoscaler \<Rightarrow> scaling_status" where
  "reset_counts a = (get_or (ScalingStatus (Status a)) empty_scaling_status)\<lparr>ReadyReplicas := Some 0, AvailableReplicas := Some 0\<rparr>"

definition with_scaling :: "autoscaler \<Rightarrow> scaling_status \<Rightarrow> autoscaler" where
  "with_scaling a st = a\<lparr>Status := (Status a)\<lparr>ScalingStatus := Some st\<rparr>\<rparr>"

definition recorded :: "autoscaler \<Rightarrow> string \<Rightarrow> autoscaler" where
  "recorded a name = with_scaling a ((reset_counts a)\<lparr>DesiredClaimTemplate := name\<rparr>)"

lemma recorded_fields:
  "Discovery (Status (with_scaling a (reset_counts a))) = Discovery (Status a)"
  "current_template (with_scaling a (reset_counts a)) x = current_template a x"
  "desired_template (recorded a name) = name" "ScalingStatus (Status (recorded a name)) \<bind> ReadyReplicas = Some 0"
  by (simp_all add: recorded_def with_scaling_def reset_counts_def current_template_def desired_template_def get_or_def
      empty_scaling_status_def split: option.split)

lemma resource_change_run:
  "run_state (applyResourceChanges e a d) s =
     (case run_state (patchResourceClaimTemplate e (with_scaling a (reset_counts a)) (DesiredConfig d)) s of
        (Inl f, s1) \<Rightarrow> (case f of Error _ \<Rightarrow> Fail ''failed to patch ResourceClaimTemplate'' | _ \<Rightarrow> Inl f, s1)
      | (Inr name, s1) \<Rightarrow>
          (case run_state (patchPodOwner e (with_scaling a (reset_counts a)) name (wrap32 (Replicas (DesiredConfig d)))) s1 of
             (Inl f, s2) \<Rightarrow> (case f of Error _ \<Rightarrow> Fail ''failed to patch pod owner'' | _ \<Rightarrow> Inl f, s2)
           | (Inr _, s2) \<Rightarrow> (Ok (), snd (run_state (updateStatus e (recorded a name)) s2))))"
  by (simp add: applyResourceChanges_def Let_def with_scaling_def reset_counts_def recorded_def split: prod.split sum.split fault.split)

text \<open>C21: a resource change that succeeds has got a template, has had the cluster accept the discovered owner with the
  desired replicas and with every claim that named the current template naming the new one, and only then attempts
  once to record that template, whatever the answer; one that fails attempts to record nothing.\<close>

theorem resource_change_outcome:
  "let (r, s') = run_state (applyResourceChanges e a d) s;
       (p, s1) = run_state (patchResourceClaimTemplate e (with_scaling a (reset_counts a)) (DesiredConfig d)) s in
   \<exists>cs. list_all no_status cs \<and> (case r of
      Inl _ \<Rightarrow> calls s' = calls s @ cs
    | Inr _ \<Rightarrow> \<exists>new disc owner k y w x. p = Inr new \<and> Discovery (Status a) = Some disc \<and> Owner disc = Some owner \<and>
        workload_kind (OwnerKind owner) = Some k \<and>
        get_workload e k (AsNamespace a, OwnerName owner) (world s1) = (Inr y, w) \<and> fst (update_workload e k x w) = Inr () \<and>
        repointed (current_template a (ResourceClaim disc)) new (wrap32 (Replicas (DesiredConfig d))) y x \<and>
        calls s' = calls s @ cs @ [UpdateWorkload k x, UpdateStatus (recorded a new)])"
proof -
  let ?b = "with_scaling a (reset_counts a)" and ?n = "wrap32 (Replicas (DesiredConfig d))"
  obtain r1 s1 where p: "run_state (patchResourceClaimTemplate e ?b (DesiredConfig d)) s = (r1, s1)" by fastforce
  obtain cs where cs: "calls s1 = calls s @ cs" "list_all no_status cs" using writesD [OF no_status_templates p] by blast
  note run = resource_change_run [of e a d s, unfolded p]
  show ?thesis
  proof (cases r1)
    case (Inl f) then show ?thesis using cs run p by (auto split: fault.split)
  next
    case name: (Inr name)
    obtain r2 s2 where q: "run_state (patchPodOwner e ?b name ?n) s1 = (r2, s2)" by fastforce
    show ?thesis
    proof (cases r2)
      case (Inl f)
      obtain ds where "calls s2 = calls s1 @ ds" "list_all no_status ds" using writesD [OF no_status_owner q] by blast
      then show ?thesis using cs run name p q Inl by (simp split: fault.split)
    next
      case ok: (Inr u)
      have ns: "AsNamespace ?b = AsNamespace a" by (simp add: with_scaling_def)
      obtain disc owner k y w x where w: "Discovery (Status a) = Some disc" "Owner disc = Some owner"
        "workload_kind (OwnerKind owner) = Some k" "get_workload e k (AsNamespace a, OwnerName owner) (world s1) = (Inr y, w)"
        "fst (update_workload e k x w) = Inr ()" "calls s2 = calls s1 @ [UpdateWorkload k x]"
        "repointed (current_template a (ResourceClaim disc)) name ?n y x"
        using patch_owner_ok [of e ?b name ?n s1 s2] q ok unfolding recorded_fields ns by auto
      have "calls (snd (run_state (updateStatus e (recorded a name)) s2)) = calls s @ cs @ [UpdateWorkload k x, UpdateStatus (recorded a name)]"
        using w(6) cs(1) by (simp add: updateStatus_def emit_def split: prod.split)
      then show ?thesis using cs(2) w run name p q ok by simp
    qed
  qed
qed

section \<open>Offsets\<close>

text \<open>Computing the offsets dereferences nil, and so brings the controller down, exactly when a usable
  measurement of one latency meets an estimation that lacks the other; an estimation this controller wrote
  has both.\<close>

lemma offsets_panic_iff:
  "((case offsets_from le itl ttft of Inl f \<Rightarrow> f = Panic ''nil pointer dereference'' | Inr _ \<Rightarrow> False) \<longleftrightarrow>
     (usable itl (EstITL le) \<and> EstTTFT le = None) \<or> (usable ttft (EstTTFT le) \<and> EstITL le = None))
   \<and> is_ok (offsets_from (new_estimation l oi ot) itl ttft)"
  by (auto simp: offsets_from_def unclamped_offset_def deref_def Let_def usable_def new_estimation_def split: option.splits)

lemma cumulative_offset_ge:
  assumes "fsub m (fsub s (i2f n)) \<noteq> NaN" "\<bar>n\<bar> \<le> 2 ^ 53"
  shows "fle (i2f n) (cumulative_offset (i2f n) m s)"
proof -
  let ?new = "fsub m (fsub s (i2f n))"
  have nn: "fnn (if flt ?new (Fin 0) then Fin 0 else ?new)"
    using assms(1) by (auto simp: fnn_iff not_flt [symmetric])
  have p: "i2f n = Fin (of_int n)" using assms(2) i2f_exact by simp
  have "fadd (i2f n) x \<noteq> NaN" if "fnn x" for x using that p by (cases x) auto
  then have "fadd (i2f n) (if flt ?new (Fin 0) then Fin 0 else ?new) \<noteq> NaN" using nn by blast
  moreover have "i2f n \<noteq> NaN" using p by simp
  ultimately have "fle (i2f n) (fadd (i2f n) (if flt ?new (Fin 0) then Fin 0 else ?new))"
    using fadd_ge [OF wf64_i2f _ nn] by blast
  then show ?thesis by (simp add: cumulative_offset_def Let_def)
qed

lemma i2f_small:
  assumes "\<bar>a\<bar> \<le> 2 ^ 31" "\<bar>b\<bar> \<le> 2 ^ 31"
  shows "i2f a = Fin (of_int a)" "i2f b = Fin (of_int b)" "i2f (a - b) = Fin (of_int a - of_int b)"
  using assms i2f_exact [of a] i2f_exact [of b] i2f_exact [of "a - b"] by simp_all

lemma i2f_sub: "\<bar>a\<bar> \<le> 2 ^ 31 \<Longrightarrow> \<bar>b\<bar> \<le> 2 ^ 31 \<Longrightarrow> fsub (i2f a) (i2f b) = i2f (a - b)"
  using i2f_small [of a b] by (simp add: fsub_def i2f_def)

text \<open>While the inter-token latency is measured and estimated, its correction never decreases, however
  far the measurements fall below the estimates.\<close>

lemma offset_ratchet:
  assumes "offsets_from le itl ttft = Ok (x, y)" "usable itl (EstITL le)"
    and "EstITL le = Some n" "\<bar>n\<bar> \<le> 2 ^ 31" "EstITLOffset le = Some k" "\<bar>k\<bar> \<le> 2 ^ 31"
  shows "fle (i2f k) x"
proof -
  have x: "x = cumulative_offset (i2f k) itl (i2f n)"
    using assms by (auto simp: offsets_from_def Let_def split: sum.splits)
  have k: "i2f k = Fin (of_int k)" "i2f (n - k) = Fin (of_int n - of_int k)" using i2f_small [OF assms(4,6)] by simp_all
  have "fsub itl (i2f (n - k)) \<noteq> NaN"
    using assms(2,3) unfolding k by (cases itl) (auto simp: usable_def fsub_def)
  then have "fsub itl (fsub (i2f n) (i2f k)) \<noteq> NaN" using i2f_sub assms(4,6) by simp
  moreover have "\<bar>k\<bar> \<le> 2 ^ 53" using assms(6) by simp
  ultimately show ?thesis unfolding x by (rule cumulative_offset_ge)
qed

text \<open>A perfect prediction is not a fixed point: when the measurement equals the stored estimate, which
  already contains the offset, the offset is doubled.\<close>

lemma perfect_prediction_doubles_offset:
  assumes "EstITL le = Some n" "EstITLOffset le = Some k" "EstTTFT le \<noteq> None"
    and "0 < n" "n < 2 ^ 31" "0 \<le> k" "k < 2 ^ 31"
  shows "\<exists>y. offsets_from le (i2f n) ttft = Ok (i2f (2 * k), y)"
proof -
  have e: "i2f n = Fin (of_int n)" "i2f k = Fin (of_int k)" using assms(4-7) by (auto intro!: i2f_exact)
  have "fsub (i2f n) (fsub (i2f n) (i2f k)) = i2f (n - (n - k))"
    using assms(4-7) i2f_sub [of n k] i2f_sub [of n "n - k"] by auto
  moreover have "\<not> flt (i2f k) (Fin 0)" using assms(6) e by simp
  moreover have "fadd (i2f k) (i2f k) = i2f (2 * k)" unfolding e by (simp add: i2f_def)
  ultimately have c: "cumulative_offset (i2f k) (i2f n) (i2f n) = i2f (2 * k)" by (simp add: cumulative_offset_def Let_def)
  obtain t where t: "EstTTFT le = Some t" using assms(3) by blast
  have u: "usable (i2f n) (EstITL le)" using assms(1,4) e by (simp add: usable_def)
  show ?thesis using u by (simp add: offsets_from_def Let_def t unclamped_offset_def deref_def assms(1,2) c)
qed

definition sample_estimation :: latency_estimation where
  "sample_estimation = \<lparr>EstTTFT = Some 400, EstITL = Some 30, EstTTFTOffset = Some 0, EstITLOffset = Some 10\<rparr>"

lemma offset_ratchet_witness:
  "\<exists>x y. offsets_from sample_estimation (Fin 5) (Fin 300) = Ok (x, y) \<and> fle (i2f 10) x"
proof -
  have u: "usable (Fin 5) (EstITL sample_estimation)"
    by (simp add: usable_def sample_estimation_def f64_eval)
  then obtain x y where xy: "offsets_from sample_estimation (Fin 5) (Fin 300) = Ok (x, y)"
    by (auto simp: offsets_from_def Let_def unclamped_offset_def deref_def sample_estimation_def)
  have "fle (i2f 10) x"
    by (rule offset_ratchet [OF xy u, of 30 10]) (simp_all add: sample_estimation_def)
  then show ?thesis using xy by blast
qed

lemma perfect_prediction_doubles_offset_witness:
  "\<exists>y. offsets_from sample_estimation (i2f 30) (Fin 300) = Ok (i2f (2 * 10), y)"
  by (rule perfect_prediction_doubles_offset) (simp_all add: sample_estimation_def)

section \<open>The status of a round\<close>

text \<open>What is stored as an estimate is a valid non-negative int32: the floor of the latency when it is
  below two to the 31st milliseconds, and zero for anything larger, negative or not a number.\<close>

lemma stored_estimates:
  "EstTTFT (new_estimation l oi ot) =
     Some (case TTFT l of Fin q \<Rightarrow> if 0 \<le> q \<and> q < 2 ^ 31 then \<lfloor>q\<rfloor> else 0 | _ \<Rightarrow> 0) \<and>
   EstITL (new_estimation l oi ot) =
     Some (case ITL l of Fin q \<Rightarrow> if 0 \<le> q \<and> q < 2 ^ 31 then \<lfloor>q\<rfloor> else 0 | _ \<Rightarrow> 0)"
proof -
  have "stored_latency x = (case x of Fin q \<Rightarrow> if 0 \<le> q \<and> q < 2 ^ 31 then \<lfloor>q\<rfloor> else 0 | _ \<Rightarrow> 0)" for x
  proof (cases x)
    case (Fin q)
    have "\<lfloor>q\<rfloor> < 2 ^ 31 \<longleftrightarrow> q < 2 ^ 31" "0 \<le> q \<Longrightarrow> 0 \<le> \<lfloor>q\<rfloor>" "q < 0 \<Longrightarrow> \<not> q \<le> - 1 \<Longrightarrow> \<lceil>q\<rceil> = 0"
      by (simp_all add: floor_less_iff ceiling_eq_iff)
    then show ?thesis using Fin by (auto simp: stored_latency_def Let_def trunc_def floor_less_iff)
  qed (simp_all add: stored_latency_def)
  then show "EstTTFT (new_estimation l oi ot) =
     Some (case TTFT l of Fin q \<Rightarrow> if 0 \<le> q \<and> q < 2 ^ 31 then \<lfloor>q\<rfloor> else 0 | _ \<Rightarrow> 0) \<and>
    EstITL (new_estimation l oi ot) =
     Some (case ITL l of Fin q \<Rightarrow> if 0 \<le> q \<and> q < 2 ^ 31 then \<lfloor>q\<rfloor> else 0 | _ \<Rightarrow> 0)"
    by (simp_all add: new_estimation_def)
qed

text \<open>Once the status of a replica change is stored, deciding again on the same template and demand takes
  no action, whether or not the workload was patched: a patch that failed after the status write is not
  retried.\<close>

lemma decision_rests_after_status:
  assumes "DesiredConfig d = desired" "wrap32 (Replicas desired) = Replicas desired"
    and "current_configuration a t = desired\<lparr>Replicas := r0\<rparr>"
    and "total_compute desired = Fin x" "total_memory desired = Fin m" "0 \<le> m"
  shows "\<exists>d'. determineScalingAction (a\<lparr>Status := scaled_status sc now a d l oi ot\<rparr>) t desired rate = Ok d' \<and>
     Action d' = ActionNone"
proof -
  have "current_configuration (a\<lparr>Status := scaled_status sc now a d l oi ot\<rparr>) t = (current_configuration a t)\<lparr>Replicas := Replicas desired\<rparr>"
    using assms(1,2) by (auto simp: current_configuration_def scaled_status_def Let_def split: sum.split)
  then have "desired = current_configuration (a\<lparr>Status := scaled_status sc now a d l oi ot\<rparr>) t" using assms(3) by simp
  from decision_rests [OF this assms(4-6)] show ?thesis .
qed

lemma decision_rests_after_status_witness:
  "\<exists>d'. determineScalingAction ((sample_autoscaler None [] 1)\<lparr>Status := scaled_status (\<lambda>cs c. c # cs) 0 (sample_autoscaler None [] 1)
       (sample_decision ActionScaleUp (conf 1 1 100 80) (conf 2 1 100 80)) zero_latency (Fin 0) (Fin 0)\<rparr>)
       (Inr (1, Map.empty)) (conf 2 1 100 80) (Fin 3) = Ok d' \<and> Action d' = ActionNone"
  by (rule decision_rests_after_status [of _ _ _ _ 1 200 160])
     (simp_all add: sample_decision_def current_configuration_def sample_autoscaler_def conf_def Let_def
       defaultComputeThreadPercent_def defaultMemoryGB_def total_compute_def total_memory_def f64_eval)

end
