(* ===== verification/Discovery.thy ===== *)
theory Discovery
  imports Claim_Properties
begin

text \<open>
  \<open>internal/discovery/discovery.go\<close>: from a service to the workload behind its pods and the
  ResourceClaimTemplate that workload uses. Discovery only reads, so its definitions pass the world on
  without recording calls. The walk up the owner references has no bound in the source: \<open>climb\<close> is a
  \<open>partial_function\<close> whose \<^const>\<open>None\<close> is a walk that never ends.
\<close>

record discovery_result =
  DrOwner :: owner_reference
  DrTemplate :: string

definition kindPod :: string where "kindPod = ''Pod''"
definition kindReplicaSet :: string where "kindReplicaSet = ''ReplicaSet''"
definition kindDeployment :: string where "kindDeployment = ''Deployment''"
definition kindStatefulSet :: string where "kindStatefulSet = ''StatefulSet''"

section \<open>The owner chain\<close>

definition map_api :: "('a \<Rightarrow> 'b) \<Rightarrow> (api_error + 'a) \<times> 'w \<Rightarrow> (api_error + 'b) \<times> 'w" where
  "map_api f r = (case r of (Inl e, w) \<Rightarrow> (Inl e, w) | (Inr a, w) \<Rightarrow> (Inr (f a), w))"

text \<open>The owner references of an object, for the kinds the switch distinguishes.\<close>

definition owners_of :: "'w env \<Rightarrow> string \<Rightarrow> owner_reference \<Rightarrow> 'w \<Rightarrow> ((api_error + owner_reference list) \<times> 'w) option" where
  "owners_of e ns cur w =
     (let key = (ns, OwnerName cur); kind = OwnerKind cur in
      if kind = kindPod then Some (map_api PodOwners (get_pod e key w))
      else if kind = kindReplicaSet then Some (get_replicaset e key w)
      else if kind = kindDeployment then Some (map_api WlOwners (get_workload e Deployment key w))
      else if kind = kindStatefulSet then Some (map_api WlOwners (get_workload e StatefulSet key w))
      else None)"

definition controller_ref :: "owner_reference list \<Rightarrow> owner_reference option" where
  "controller_ref refs = find (\<lambda>r. OwnerController r = Some True) refs"

definition supported_owner :: "owner_reference \<Rightarrow> bool" where
  "supported_owner r \<longleftrightarrow> OwnerKind r = kindReplicaSet \<or> OwnerKind r = kindDeployment \<or> OwnerKind r = kindStatefulSet"

text \<open>The reference built from the current kind, name, UID and API version.\<close>

definition bare :: "owner_reference \<Rightarrow> owner_reference" where
  "bare r = r\<lparr>OwnerController := None, OwnerBlockDeletion := None\<rparr>"

partial_function (option) climb ::
  "'w env \<Rightarrow> string \<Rightarrow> owner_reference \<Rightarrow> 'w \<Rightarrow> (owner_reference option \<times> 'w) option" where
  "climb e ns cur w =
     (case owners_of e ns cur w of
        None \<Rightarrow> Some (Some cur, w)
      | Some (Inl err, w') \<Rightarrow> Some (None, w')
      | Some (Inr refs, w') \<Rightarrow>
          (case controller_ref refs of
             None \<Rightarrow> Some (Some cur, w')
           | Some c \<Rightarrow> if supported_owner c then climb e ns (bare c) w' else Some (Some cur, w')))"

definition discoverOwner :: "'w env \<Rightarrow> pod \<Rightarrow> 'w \<Rightarrow> (owner_reference option \<times> 'w) option" where
  "discoverOwner e p w =
     climb e (PodNamespace p) \<lparr>OwnerAPIVersion = ''v1'', OwnerKind = kindPod, OwnerName = PodName p, OwnerUID = PodUID p,
       OwnerController = None, OwnerBlockDeletion = None\<rparr> w"

section \<open>The pods of a service\<close>

fun check_pods ::
  "'w env \<Rightarrow> string \<Rightarrow> bool \<Rightarrow> owner_reference option \<Rightarrow> string list \<Rightarrow> 'w \<Rightarrow> owner_reference option res \<times> 'w" where
  "check_pods e ns first common [] w = (Ok common, w)"
| "check_pods e ns first common (p # ps) w =
     (case get_pod e (ns, p) w of
        (Inl _, w) \<Rightarrow> check_pods e ns False common ps w
      | (Inr pod, w) \<Rightarrow>
          (case discoverOwner e pod w of
             None \<Rightarrow> (Inl Hang, w)
           | Some (None, w) \<Rightarrow> check_pods e ns False common ps w
           | Some (Some own, w) \<Rightarrow>
               if first then check_pods e ns False (Some own) ps w
               else (case common of
                       None \<Rightarrow> (Crash ''nil pointer dereference'', w)
                     | Some c \<Rightarrow>
                         if OwnerKind c \<noteq> OwnerKind own \<or> OwnerName c \<noteq> OwnerName own
                         then (Fail ''inconsistent owners detected'', w)
                         else check_pods e ns False common ps w)))"

section \<open>The template of the workload\<close>

definition pod_claims_of :: "'w env \<Rightarrow> owner_reference \<Rightarrow> string \<Rightarrow> 'w \<Rightarrow> pod_claim list res \<times> 'w" where
  "pod_claims_of e owner ns w =
     (let key = (ns, OwnerName owner); kind = OwnerKind owner;
          got = (\<lambda>msg r. case r of (Inl _, w) \<Rightarrow> (Fail msg, w) | (Inr cs, w) \<Rightarrow> (Ok cs, w))
      in if kind = kindDeployment then got ''failed to get Deployment'' (map_api WlClaims (get_workload e Deployment key w))
         else if kind = kindStatefulSet then got ''failed to get StatefulSet'' (map_api WlClaims (get_workload e StatefulSet key w))
         else if kind = kindPod then got ''failed to get Pod'' (map_api PodClaims (get_pod e key w))
         else (Fail ''unsupported owner kind'', w))"

definition claimed_template :: "pod_claim list \<Rightarrow> string" where
  "claimed_template cs =
     (case find (\<lambda>c. ClaimTemplateName c \<noteq> None) cs of None \<Rightarrow> [] | Some c \<Rightarrow> get_or (ClaimTemplateName c) [])"

definition discoverResourceClaimTemplate ::
  "'w env \<Rightarrow> owner_reference option \<Rightarrow> string \<Rightarrow> string \<Rightarrow> 'w \<Rightarrow> string res \<times> 'w" where
  "discoverResourceClaimTemplate e owner ns cls w =
     (case owner of None \<Rightarrow> (Fail ''no owner provided'', w) | Some owner \<Rightarrow>
       (case pod_claims_of e owner ns w of
          (Inl f, w) \<Rightarrow> (Inl f, w)
        | (Inr cs, w) \<Rightarrow>
            let name = claimed_template cs in
            if name = [] then (Fail ''no ResourceClaimTemplate found in workload'', w)
            else (case get_template e (ns, name) w of
                (Inl _, w) \<Rightarrow> (Fail ''failed to get ResourceClaimTemplate'', w)
              | (Inr t, w) \<Rightarrow>
                  if cls = [] then (Ok name, w)
                  else if CtRequests t = [] then (Fail ''ResourceClaimTemplate has no device requests'', w)
                  else if list_ex (\<lambda>r. (case Exactly r of Some x \<Rightarrow> DsDeviceClass x = cls | None \<Rightarrow> False) \<or>
                         list_ex (\<lambda>d. DsDeviceClass d = cls) (FirstAvailable r)) (CtRequests t)
                  then (Ok name, w)
                  else (Fail ''ResourceClaimTemplate does not have device class'', w))))"

definition pod_names :: "endpoint_target option list \<Rightarrow> string list" where
  "pod_names ts = List.map_filter (\<lambda>t. case t of Some r \<Rightarrow> if TargetKind r = kindPod then Some (TargetName r) else None | None \<Rightarrow> None) ts"

definition DiscoverFromService ::
  "'w env \<Rightarrow> string \<Rightarrow> string \<Rightarrow> string \<Rightarrow> 'w \<Rightarrow> discovery_result option res \<times> 'w" where
  "DiscoverFromService e name ns cls w =
     (case get_service e (ns, name) w of
        (Inl _, w) \<Rightarrow> (Fail ''failed to get service'', w)
      | (Inr _, w) \<Rightarrow>
        (case list_endpoints e ns name w of
           (Inl _, w) \<Rightarrow> (Fail ''failed to list EndpointSlices'', w)
         | (Inr ts, w) \<Rightarrow>
             if pod_names ts = [] then (Ok None, w)
             else (case check_pods e ns True None (pod_names ts) w of
                 (Inl f, w) \<Rightarrow> (Inl f, w)
               | (Inr None, w) \<Rightarrow> (Ok None, w)
               | (Inr (Some own), w) \<Rightarrow>
                   (case discoverResourceClaimTemplate e (Some own) ns cls w of
                      (Inl (Error _), w) \<Rightarrow> (Fail ''failed to discover ResourceClaimTemplate'', w)
                    | (Inl f, w) \<Rightarrow> (Inl f, w)
                    | (Inr t, w) \<Rightarrow> (Ok (Some \<lparr>DrOwner = own, DrTemplate = t\<rparr>), w)))))"

section \<open>The walk\<close>

text \<open>One step up: the supported controller of the current object.\<close>

definition parent :: "'w env \<Rightarrow> string \<Rightarrow> owner_reference \<Rightarrow> 'w \<Rightarrow> (owner_reference \<times> 'w) option" where
  "parent e ns cur w =
     (case owners_of e ns cur w of
        Some (Inr refs, w') \<Rightarrow> (case controller_ref refs of
           Some c \<Rightarrow> if supported_owner c then Some (bare c, w') else None | None \<Rightarrow> None)
      | _ \<Rightarrow> None)"

lemma climb_step: "climb e ns cur w = (case parent e ns cur w of
     Some (c, w') \<Rightarrow> climb e ns c w'
   | None \<Rightarrow> (case owners_of e ns cur w of
        None \<Rightarrow> Some (Some cur, w) | Some (Inl _, w') \<Rightarrow> Some (None, w') | Some (Inr _, w') \<Rightarrow> Some (Some cur, w')))"
  unfolding parent_def by (subst climb.simps) (auto split: option.split sum.split prod.split)

lemma climb_returns:
  assumes "\<And>cur w c w'. parent e ns cur w = Some (c, w') \<Longrightarrow> (m c w' :: nat) < m cur w"
  shows "\<exists>r. climb e ns cur w = Some r"
proof (induction "m cur w" arbitrary: cur w rule: less_induct)
  case less
  show ?case
  proof (cases "parent e ns cur w")
    case None then show ?thesis by (subst climb_step) (auto split: option.split sum.split prod.split)
  next
    case (Some p)
    then have "\<exists>r. climb e ns (fst p) (snd p) = Some r" using less assms [of cur w "fst p" "snd p"] by simp
    then show ?thesis using Some by (subst climb_step) (auto split: prod.split)
  qed
qed

lemma climb_top:
  assumes "climb e ns cur w = Some (Some own, w')"
  shows "\<exists>w0. parent e ns own w0 = None"
proof -
  have "\<forall>own w'. r = (Some own, w') \<longrightarrow> (\<exists>w0. parent e ns own w0 = None)" if "climb e ns cur w = Some r" for r
  proof (rule climb.raw_induct [of "\<lambda>e ns cur w r. \<forall>own w'. r = (Some own, w') \<longrightarrow> (\<exists>w0. parent e ns own w0 = None)", OF _ that])
    fix cl e and ns :: string and cur and w :: 'a and r
    assume IH: "\<And>e ns cur w r. cl e ns cur w = Some r \<Longrightarrow> \<forall>own w'. r = (Some own, w') \<longrightarrow> (\<exists>w0. parent e ns own w0 = None)"
      and step: "(case owners_of e ns cur w of
        None \<Rightarrow> Some (Some cur, w)
      | Some (Inl err, w') \<Rightarrow> Some (None, w')
      | Some (Inr refs, w') \<Rightarrow>
          (case controller_ref refs of
             None \<Rightarrow> Some (Some cur, w')
           | Some c \<Rightarrow> if supported_owner c then cl e ns (bare c) w' else Some (Some cur, w'))) = Some r"
    have "(\<exists>c w'. cl e ns c w' = Some r) \<or> fst r = None \<or> (fst r = Some cur \<and> parent e ns cur w = None)"
    proof (cases "parent e ns cur w")
      case None
      then show ?thesis using step by (auto simp: parent_def split: option.splits sum.splits if_splits)
    next
      case (Some p)
      then have "cl e ns (fst p) (snd p) = Some r"
        using step by (auto simp: parent_def split: option.splits sum.splits if_splits)
      then show ?thesis by blast
    qed
    then show "\<forall>own w'. r = (Some own, w') \<longrightarrow> (\<exists>w0. parent e ns own w0 = None)"
      using IH by auto
  qed
  then show ?thesis using assms by blast
qed

lemma climb_diverges:
  assumes "\<And>cur w. cur \<in> S \<Longrightarrow> \<exists>c w'. parent e ns cur w = Some (c, w') \<and> c \<in> S" "cur \<in> S"
  shows "climb e ns cur w = None"
proof (rule ccontr)
  assume "climb e ns cur w \<noteq> None"
  then obtain r where r: "climb e ns cur w = Some r" by blast
  have "\<not> (e' = e \<and> ns' = ns \<and> cur \<in> S)" if "climb e' ns' cur w = Some r" for e' ns' cur w r
  proof (rule climb.raw_induct [of "\<lambda>e' ns' cur w r. \<not> (e' = e \<and> ns' = ns \<and> cur \<in> S)", OF _ that])
    fix cl e' ns' cur w r
    assume IH: "\<And>e' ns' cur w r. cl e' ns' cur w = Some r \<Longrightarrow> \<not> (e' = e \<and> ns' = ns \<and> cur \<in> S)"
      and step: "(case owners_of e' ns' cur w of
        None \<Rightarrow> Some (Some cur, w)
      | Some (Inl err, w') \<Rightarrow> Some (None, w')
      | Some (Inr refs, w') \<Rightarrow>
          (case controller_ref refs of
             None \<Rightarrow> Some (Some cur, w')
           | Some c \<Rightarrow> if supported_owner c then cl e' ns' (bare c) w' else Some (Some cur, w'))) = Some r"
    show "\<not> (e' = e \<and> ns' = ns \<and> cur \<in> S)"
    proof
      assume h: "e' = e \<and> ns' = ns \<and> cur \<in> S"
      then obtain c w' where "parent e ns cur w = Some (c, w')" "c \<in> S" using assms(1) by blast
      then have "cl e ns c w' = Some r" using step h by (auto simp: parent_def split: option.splits sum.splits if_splits)
      then show False using IH h \<open>c \<in> S\<close> by blast
    qed
  qed
  then show False using r assms(2) by blast
qed

end
