(* ===== verification/Service_Monitor.thy ===== *)
theory Service_Monitor
  imports Metric_Handler "HOL-Library.AList"
begin

text \<open>
  \<open>internal/monitor/service_monitor.go\<close>: one monitoring event per autoscaler, each with a one-shot timer,
  a channel of capacity one, and a goroutine that reads the channel, collects metrics, calls back and
  re-arms the timer. The operations of the \<open>ServiceMonitor\<close> are functions on the state, run under its
  mutex; timers, timer callbacks and monitoring loops run beside them, as steps of a relation.

  Events are shared by pointer, so they live in a heap, a list indexed by their identity; the map
  \<open>events\<close> holds identities, and an event that has left the map stays in the heap as long as its
  goroutines may use it. Every timer context of an event is a generation of that event: re-arming cancels
  the old generation.
\<close>

section \<open>State\<close>

record metrics_result =
  MrMessage :: string
  MrMetrics :: metrics

record trigger_event =
  TeAutoscaler :: string
  TeNamespace :: string
  TeSpec :: "rca_spec option"

text \<open>Where the goroutine of an event is: at the \<open>select\<close>, past the collection and about to re-arm, or
  returned.\<close>

datatype loop_phase = Listening | Rearming | Ended

record monitoring_event =
  EvAutoscaler :: string
  EvNamespace :: string
  EvScaleUpTrigger :: scaling_trigger
  EvScaleDownTrigger :: scaling_trigger
  EvSpec :: "rca_spec option"
  EvLast :: int
  EvTimer :: "nat option"
  EvGen :: nat
  EvDone :: bool
  EvQueue :: "trigger_event list"
  EvClosed :: bool
  EvMonitorDone :: bool
  EvLoop :: loop_phase

record service_monitor =
  SmRunning :: bool
  SmEvents :: "(string \<times> nat) list"
  SmHeap :: "monitoring_event list"
  SmPending :: "(nat \<times> nat) list"
  SmCallback :: bool
  SmNotified :: "(string \<times> string \<times> rca_spec \<times> metrics) list"
  SmCrashed :: bool

definition NewServiceMonitor :: service_monitor where
  "NewServiceMonitor = \<lparr>SmRunning = False, SmEvents = [], SmHeap = [], SmPending = [], SmCallback = False,
     SmNotified = [], SmCrashed = False\<rparr>"

definition event_key :: "string \<Rightarrow> string \<Rightarrow> string" where
  "event_key name ns = ns @ ''/'' @ name"

definition put :: "nat \<Rightarrow> monitoring_event \<Rightarrow> service_monitor \<Rightarrow> service_monitor" where
  "put i ev s = s\<lparr>SmHeap := (SmHeap s)[i := ev]\<rparr>"

text \<open>The context of a generation is done when it was cancelled or replaced.\<close>

definition ctx_done :: "monitoring_event \<Rightarrow> nat \<Rightarrow> bool" where
  "ctx_done ev g \<longleftrightarrow> g \<noteq> EvGen ev \<or> EvDone ev"

section \<open>Operations\<close>

definition Start :: "service_monitor \<Rightarrow> unit res \<times> service_monitor" where
  "Start s = (if SmRunning s then (Fail ''service monitor already started'', s) else (Ok (), s\<lparr>SmRunning := True\<rparr>))"

text \<open>Stopping the timer, cancelling its context and closing the channel; closing twice panics.\<close>

definition release :: "monitoring_event \<Rightarrow> monitoring_event res" where
  "release ev = (if EvClosed ev then Crash ''close of closed channel''
     else Ok (ev\<lparr>EvTimer := None, EvDone := True, EvClosed := True\<rparr>))"

fun release_all :: "(string \<times> nat) list \<Rightarrow> service_monitor \<Rightarrow> unit res \<times> service_monitor" where
  "release_all [] s = (Ok (), s)"
| "release_all ((k, i) # rest) s =
     (case release (SmHeap s ! i) of
        Inl f \<Rightarrow> (Inl f, s)
      | Inr ev \<Rightarrow> release_all rest ((put i ev s)\<lparr>SmEvents := AList.delete k (SmEvents s)\<rparr>))"

text \<open>Cancelling the monitor's context cancels every context derived from it.\<close>

definition Stop :: "service_monitor \<Rightarrow> unit res \<times> service_monitor" where
  "Stop s =
     (if \<not> SmRunning s then (Ok (), s)
      else release_all (SmEvents s)
        (s\<lparr>SmRunning := False, SmHeap := map (\<lambda>ev. ev\<lparr>EvDone := True, EvMonitorDone := True\<rparr>) (SmHeap s)\<rparr>))"

definition IsRegistered :: "service_monitor \<Rightarrow> string \<Rightarrow> string \<Rightarrow> bool" where
  "IsRegistered s name ns \<longleftrightarrow> map_of (SmEvents s) (event_key name ns) \<noteq> None"

definition cancel_existing :: "service_monitor \<Rightarrow> string \<Rightarrow> service_monitor res" where
  "cancel_existing s key =
     (case map_of (SmEvents s) key of
        None \<Rightarrow> Ok s
      | Some i \<Rightarrow> (case release (SmHeap s ! i) of
            Inl f \<Rightarrow> Inl f
          | Inr ev \<Rightarrow> Ok (put i (ev\<lparr>EvMonitorDone := True\<rparr>) s)))"

definition new_event :: "string \<Rightarrow> string \<Rightarrow> rca_spec option \<Rightarrow> scaling_trigger \<Rightarrow> scaling_trigger \<Rightarrow> int \<Rightarrow> monitoring_event" where
  "new_event name ns spec up down now =
     \<lparr>EvAutoscaler = name, EvNamespace = ns, EvScaleUpTrigger = up, EvScaleDownTrigger = down, EvSpec = spec, EvLast = now,
      EvTimer = Some 0, EvGen = 0, EvDone = False, EvQueue = [], EvClosed = False, EvMonitorDone = False, EvLoop = Listening\<rparr>"

text \<open>\<open>context.WithCancel\<close> of a nil parent panics, so registering needs a started monitor.\<close>

definition RegisterWithCollector ::
  "service_monitor \<Rightarrow> string \<Rightarrow> string \<Rightarrow> rca_spec option \<Rightarrow> behavior \<Rightarrow> int \<Rightarrow> unit res \<times> service_monitor" where
  "RegisterWithCollector s name ns spec b now =
     (case cancel_existing s (event_key name ns) of
        Inl f \<Rightarrow> (Inl f, s)
      | Inr s \<Rightarrow>
          (case deref (ScaleUp b) of
             Inl f \<Rightarrow> (Inl f, s)
           | Inr up \<Rightarrow>
               if \<not> SmRunning s then (Crash ''cannot create context from nil parent'', s)
               else (case deref (ScaleDown b) of
                       Inl f \<Rightarrow> (Inl f, s)
                     | Inr down \<Rightarrow>
                         (Ok (), s\<lparr>SmHeap := SmHeap s @ [new_event name ns spec (Trigger up) (Trigger down) now],
                                   SmEvents := AList.update (event_key name ns) (length (SmHeap s)) (SmEvents s)\<rparr>))))"

definition SetScalingActionCallback :: "service_monitor \<Rightarrow> bool \<Rightarrow> service_monitor" where
  "SetScalingActionCallback s present = s\<lparr>SmCallback := present\<rparr>"

definition notifyScalingAction :: "service_monitor \<Rightarrow> string \<Rightarrow> string \<Rightarrow> rca_spec \<Rightarrow> metrics \<Rightarrow> service_monitor" where
  "notifyScalingAction s name ns spec m =
     (if SmCallback s then s\<lparr>SmNotified := SmNotified s @ [(name, ns, spec, m)]\<rparr> else s)"

definition rearmed :: "monitoring_event \<Rightarrow> monitoring_event" where
  "rearmed ev = ev\<lparr>EvTimer := Some (Suc (EvGen ev)), EvGen := Suc (EvGen ev), EvDone := False\<rparr>"

definition UpdateTriggerTime :: "service_monitor \<Rightarrow> string \<Rightarrow> string \<Rightarrow> unit res \<times> service_monitor" where
  "UpdateTriggerTime s name ns =
     (case map_of (SmEvents s) (event_key name ns) of
        None \<Rightarrow> (Fail ''monitoring event not found'', s)
      | Some i \<Rightarrow>
          if \<not> SmRunning s then (Crash ''cannot create context from nil parent'', s)
          else (Ok (), put i (rearmed (SmHeap s ! i)) s))"

definition UpdateCachedSpec :: "service_monitor \<Rightarrow> string \<Rightarrow> string \<Rightarrow> rca_spec option \<Rightarrow> unit res \<times> service_monitor" where
  "UpdateCachedSpec s name ns spec =
     (case map_of (SmEvents s) (event_key name ns) of
        None \<Rightarrow> (Fail ''monitoring event not found'', s)
      | Some i \<Rightarrow> (Ok (), put i ((SmHeap s ! i)\<lparr>EvSpec := spec\<rparr>) s))"

definition Unregister :: "service_monitor \<Rightarrow> string \<Rightarrow> string \<Rightarrow> unit res \<times> service_monitor" where
  "Unregister s name ns =
     (case map_of (SmEvents s) (event_key name ns) of
        None \<Rightarrow> (Fail ''monitoring event not found'', s)
      | Some i \<Rightarrow> (case release (SmHeap s ! i) of
            Inl f \<Rightarrow> (Inl f, s)
          | Inr ev \<Rightarrow> (Ok (), (put i ev s)\<lparr>SmEvents := AList.delete (event_key name ns) (SmEvents s)\<rparr>)))"

section \<open>Steps\<close>

text \<open>A panic brings the process down.\<close>

definition outcome :: "unit res \<times> service_monitor \<Rightarrow> service_monitor" where
  "outcome r = (case r of (Inl (Panic _), s) \<Rightarrow> s\<lparr>SmCrashed := True\<rparr> | (_, s) \<Rightarrow> s)"

definition trigger_of :: "monitoring_event \<Rightarrow> trigger_event" where
  "trigger_of ev = \<lparr>TeAutoscaler = EvAutoscaler ev, TeNamespace = EvNamespace ev, TeSpec = EvSpec ev\<rparr>"

text \<open>The callers of the operations, as the controller makes the calls: a registration passes the
  effective behaviour of the specification it caches.\<close>

inductive sm_call :: "service_monitor \<Rightarrow> service_monitor \<Rightarrow> bool" where
  call_start: "sm_call s (outcome (Start s))"
| call_stop: "sm_call s (outcome (Stop s))"
| call_callback: "sm_call s (SetScalingActionCallback s b)"
| call_register: "sm_call s (outcome (RegisterWithCollector s name ns (Some spec) (GetEffectiveBehavior spec) now))"
| call_update: "sm_call s (outcome (UpdateCachedSpec s name ns (Some spec)))"
| call_unregister: "sm_call s (outcome (Unregister s name ns))"

text \<open>Timers, their callbacks, and the monitoring loops. A \<open>select\<close> takes any case that is ready, and its
  default only when none is; sending on a closed channel is ready and panics.\<close>

inductive sm_run :: "service_monitor \<Rightarrow> service_monitor \<Rightarrow> bool" where
  timer_fires: "i < length (SmHeap s) \<Longrightarrow> EvTimer (SmHeap s ! i) = Some g \<Longrightarrow>
     sm_run s ((put i ((SmHeap s ! i)\<lparr>EvTimer := None\<rparr>) s)\<lparr>SmPending := (i, g) # SmPending s\<rparr>)"
| callback_done: "(i, g) \<in> set (SmPending s) \<Longrightarrow> ctx_done (SmHeap s ! i) g \<Longrightarrow>
     sm_run s (s\<lparr>SmPending := remove1 (i, g) (SmPending s)\<rparr>)"
| callback_send: "(i, g) \<in> set (SmPending s) \<Longrightarrow> \<not> EvClosed (SmHeap s ! i) \<Longrightarrow> EvQueue (SmHeap s ! i) = [] \<Longrightarrow>
     sm_run s ((put i ((SmHeap s ! i)\<lparr>EvQueue := [trigger_of (SmHeap s ! i)]\<rparr>) s)\<lparr>SmPending := remove1 (i, g) (SmPending s)\<rparr>)"
| callback_full: "(i, g) \<in> set (SmPending s) \<Longrightarrow> \<not> ctx_done (SmHeap s ! i) g \<Longrightarrow> \<not> EvClosed (SmHeap s ! i) \<Longrightarrow>
     EvQueue (SmHeap s ! i) \<noteq> [] \<Longrightarrow> sm_run s (s\<lparr>SmPending := remove1 (i, g) (SmPending s)\<rparr>)"
| callback_panic: "(i, g) \<in> set (SmPending s) \<Longrightarrow> EvClosed (SmHeap s ! i) \<Longrightarrow> sm_run s (s\<lparr>SmCrashed := True\<rparr>)"
| loop_skip: "i < length (SmHeap s) \<Longrightarrow> EvLoop (SmHeap s ! i) = Listening \<Longrightarrow> EvQueue (SmHeap s ! i) = t # q \<Longrightarrow>
     TeSpec t = None \<Longrightarrow> sm_run s (put i ((SmHeap s ! i)\<lparr>EvQueue := q\<rparr>) s)"
| loop_collect: "i < length (SmHeap s) \<Longrightarrow> EvLoop (SmHeap s ! i) = Listening \<Longrightarrow> EvQueue (SmHeap s ! i) = t # q \<Longrightarrow>
     TeSpec t = Some spec \<Longrightarrow>
     sm_run s (notifyScalingAction (put i ((SmHeap s ! i)\<lparr>EvQueue := q, EvLast := now, EvLoop := Rearming\<rparr>) s)
       (EvAutoscaler (SmHeap s ! i)) (EvNamespace (SmHeap s ! i)) spec collected)"
| loop_rearm: "i < length (SmHeap s) \<Longrightarrow> EvLoop (SmHeap s ! i) = Rearming \<Longrightarrow>
     sm_run s (outcome (UpdateTriggerTime (put i ((SmHeap s ! i)\<lparr>EvLoop := Listening\<rparr>) s)
       (EvAutoscaler (SmHeap s ! i)) (EvNamespace (SmHeap s ! i))))"
| loop_end: "i < length (SmHeap s) \<Longrightarrow> EvLoop (SmHeap s ! i) = Listening \<Longrightarrow>
     (EvClosed (SmHeap s ! i) \<and> EvQueue (SmHeap s ! i) = []) \<or> EvMonitorDone (SmHeap s ! i) \<Longrightarrow>
     sm_run s (put i ((SmHeap s ! i)\<lparr>EvLoop := Ended\<rparr>) s)"

inductive_cases sm_runE: "sm_run s t"

inductive sm_reach :: "service_monitor \<Rightarrow> bool" where
  reach_new: "sm_reach NewServiceMonitor"
| reach_call: "sm_reach s \<Longrightarrow> \<not> SmCrashed s \<Longrightarrow> sm_call s t \<Longrightarrow> sm_reach t"
| reach_run: "sm_reach s \<Longrightarrow> \<not> SmCrashed s \<Longrightarrow> sm_run s t \<Longrightarrow> sm_reach t"

end
