(* ===== verification/Autoscaler_Controller.thy ===== *)
theory Autoscaler_Controller
  imports Scaler_Properties Discovery Service_Monitor
begin

text \<open>
  \<open>internal/controller/resourceclaimautoscaler_controller.go\<close>: the reconciler of autoscalers, its handlers
  of claim events, and the callback of the service monitor. The reconciler's own fields are the record
  \<open>controller\<close>, which its methods take and return; the cluster is the environment of \<^theory_text>\<open>Cluster\<close>.
\<close>

section \<open>State and results\<close>

text \<open>\<open>MonitorOnce\<close>: the \<open>sync.Once\<close> has run. Only whether the shared \<open>Monitor\<close> is set matters here.\<close>

record controller =
  MonitorOnce :: bool
  Watcher :: "service_monitor option"
  MonitorSet :: bool

datatype reconcile_result = Done | Requeue | RequeueAfter int

definition FinalizerName :: string where "FinalizerName = ''autoscaling.x-llmd.ai/finalizer''"

definition retry_delay :: int where "retry_delay = 30 * 10 ^ 9"

fun containsString :: "string list \<Rightarrow> string \<Rightarrow> bool" where
  "containsString [] s = False"
| "containsString (x # xs) s = (if x = s then True else containsString xs s)"

fun removeString :: "string list \<Rightarrow> string \<Rightarrow> string list" where
  "removeString [] s = []"
| "removeString (x # xs) s = (if x \<noteq> s then x # removeString xs s else removeString xs s)"

definition SetMonitor :: "controller \<Rightarrow> bool \<Rightarrow> controller" where
  "SetMonitor c present = c\<lparr>MonitorSet := present\<rparr>"

definition ensure_started :: "controller \<Rightarrow> controller" where
  "ensure_started c =
     (if MonitorOnce c then c
      else c\<lparr>MonitorOnce := True, Watcher := map_option (\<lambda>m. snd (Start m)) (Watcher c)\<rparr>)"

text \<open>An error of \<open>Unregister\<close> is logged.\<close>

definition unregister_watch :: "controller \<Rightarrow> string \<Rightarrow> string \<Rightarrow> unit res \<times> controller" where
  "unregister_watch c name ns =
     (case Watcher c of
        None \<Rightarrow> (Ok (), c)
      | Some m \<Rightarrow> (case Unregister m name ns of
            (Inl (Error _), m') \<Rightarrow> (Ok (), c\<lparr>Watcher := Some m'\<rparr>)
          | (r, m') \<Rightarrow> (r, c\<lparr>Watcher := Some m'\<rparr>)))"

section \<open>Deletion\<close>

definition restored_claims :: "string \<Rightarrow> pod_claim list \<Rightarrow> pod_claim list" where
  "restored_claims original cs =
     map (\<lambda>c. if ClaimTemplateName c \<noteq> None then c\<lparr>ClaimTemplateName := Some original\<rparr> else c) cs"

definition cleanup_replicas :: "autoscaler \<Rightarrow> int" where
  "cleanup_replicas a = (case SpecConstraints (Spec a) of
     None \<Rightarrow> 1 | Some c \<Rightarrow> (case MinReplicas c of None \<Rightarrow> 1 | Some n \<Rightarrow> n))"

definition cleanupWorkload :: "'w env \<Rightarrow> autoscaler \<Rightarrow> ('w, unit res) prog" where
  "cleanupWorkload e a =
     (case Discovery (Status a) of
        None \<Rightarrow> State_Monad.return (Ok ())
      | Some d \<Rightarrow>
          (case Owner d of
             None \<Rightarrow> State_Monad.return (Ok ())
           | Some owner \<Rightarrow>
               (case workload_kind (OwnerKind owner) of
                  None \<Rightarrow> State_Monad.return (Ok ())
                | Some k \<Rightarrow> do {
                    r \<leftarrow> observe (get_workload e k (AsNamespace a, OwnerName owner));
                    case r of
                      Inl err \<Rightarrow> State_Monad.return (if err = NotFound then Ok () else Fail ''failed to get workload'')
                    | Inr w \<Rightarrow> do {
                        u \<leftarrow> updateWorkload e k (w\<lparr>WlReplicas := Some (cleanup_replicas a),
                               WlClaims := restored_claims (ResourceClaim d) (WlClaims w)\<rparr>);
                        State_Monad.return (case u of Inl _ \<Rightarrow> Fail ''failed to update workload'' | Inr _ \<Rightarrow> Ok ())
                      }
                  })))"

definition has_template :: "autoscaler \<Rightarrow> bool" where
  "has_template a = (case Discovery (Status a) of None \<Rightarrow> False | Some d \<Rightarrow> ResourceClaim d \<noteq> [])"

text \<open>The branch for an autoscaler that is being deleted.\<close>

definition reconcile_deleted :: "'w env \<Rightarrow> controller \<Rightarrow> autoscaler \<Rightarrow> ('w, reconcile_result res \<times> controller) prog" where
  "reconcile_deleted e c a =
     (if \<not> containsString (AsFinalizers a) FinalizerName then State_Monad.return (Ok Done, c)
      else case unregister_watch c (AsName a) (AsNamespace a) of
        (Inl f, c) \<Rightarrow> State_Monad.return (Inl f, c)
      | (Inr _, c) \<Rightarrow> do {
          r \<leftarrow> (if has_template a then cleanupWorkload e a else State_Monad.return (Ok ()));
          case r of
            Inl f \<Rightarrow> State_Monad.return (Inl f, c)
          | Inr _ \<Rightarrow> do {
              u \<leftarrow> updateAutoscaler e (a\<lparr>AsFinalizers := removeString (AsFinalizers a) FinalizerName\<rparr>);
              State_Monad.return (case u of Inl _ \<Rightarrow> Fail ''failed to remove finalizer'' | Inr _ \<Rightarrow> Ok Done, c)
            }
        })"

section \<open>Discovery\<close>

definition add_condition :: "'w env \<Rightarrow> autoscaler \<Rightarrow> string \<Rightarrow> bool \<Rightarrow> string \<Rightarrow> string \<Rightarrow> autoscaler" where
  "add_condition e a ty ok reason msg =
     a\<lparr>Status := (Status a)\<lparr>Conditions := set_condition e (Conditions (Status a))
       \<lparr>CondType = ty, CondStatus = ok, CondReason = reason, CondMessage = msg, CondGeneration = AsGeneration a\<rparr>\<rparr>\<rparr>"

text \<open>Discovery, when the status holds none yet; a message built from an error keeps its constant prefix.\<close>

definition discover_target :: "'w env \<Rightarrow> autoscaler \<Rightarrow> ('w, autoscaler res) prog" where
  "discover_target e a =
     (if Discovery (Status a) \<noteq> None then State_Monad.return (Ok a)
      else do {
        let ref = ServiceRef (Target (Spec a));
        let ns = (if ServiceNamespace ref = [] then AsNamespace a else ServiceNamespace ref);
        r \<leftarrow> observe (DiscoverFromService e (ServiceName ref) ns (DeviceClassName (ResourceRef (Target (Spec a)))));
        State_Monad.return (case r of
          Inl (Error _) \<Rightarrow> Ok (add_condition e a ''ScalingTargetDiscovery'' False ''ScalingTargetDiscoveryFailed''
            ''Failed to discover scaling target: '')
        | Inl f \<Rightarrow> Inl f
        | Inr None \<Rightarrow> Ok a
        | Inr (Some d) \<Rightarrow> Ok (add_condition e
            (a\<lparr>Status := (Status a)\<lparr>Discovery := Some \<lparr>Owner = Some (DrOwner d), ResourceClaim = DrTemplate d\<rparr>\<rparr>\<rparr>)
            ''ScalingTargetDiscovery'' True ''ScalingTargetDiscovered''
            (''Successfully discovered scaling target: '' @ OwnerKind (DrOwner d) @ ''/'' @ OwnerName (DrOwner d))))
      })"

section \<open>Registration\<close>

definition NewRegisteration :: "service_monitor \<Rightarrow> autoscaler \<Rightarrow> int \<Rightarrow> unit res \<times> service_monitor" where
  "NewRegisteration m a now =
     RegisterWithCollector m (AsName a) (AsNamespace a) (Some (Spec a)) (GetEffectiveBehavior (Spec a)) now"

text \<open>Both branches that wait for a monitor: the status write is not checked.\<close>

definition wait_for :: "'w env \<Rightarrow> controller \<Rightarrow> autoscaler \<Rightarrow> string \<Rightarrow> string \<Rightarrow> ('w, reconcile_result res \<times> controller) prog" where
  "wait_for e c a reason msg = do {
     _ \<leftarrow> updateStatus e (add_condition e a ''MonitoringActive'' False reason msg);
     State_Monad.return (Ok (RequeueAfter retry_delay), c)
   }"

definition finish_status :: "'w env \<Rightarrow> controller \<Rightarrow> autoscaler \<Rightarrow> ('w, reconcile_result res \<times> controller) prog" where
  "finish_status e c a = do {
     u \<leftarrow> updateStatus e a;
     State_Monad.return (case u of Inl _ \<Rightarrow> Fail ''failed to update status'' | Inr _ \<Rightarrow> Ok Done, c)
   }"

text \<open>The registration with the service monitor and the final status write.\<close>

definition watch_autoscaler :: "'w env \<Rightarrow> controller \<Rightarrow> autoscaler \<Rightarrow> ('w, reconcile_result res \<times> controller) prog" where
  "watch_autoscaler e c a =
     (case Watcher c of
        None \<Rightarrow> wait_for e c a ''ServiceMonitorNotInitialized'' ''ServiceMonitor is not initialized, will retry''
      | Some m \<Rightarrow>
          if \<not> MonitorSet c then wait_for e c a ''MonitorNotInitialized'' ''Monitor is not initialized, will retry''
          else if IsRegistered m (AsName a) (AsNamespace a) then
            (case UpdateCachedSpec m (AsName a) (AsNamespace a) (Some (Spec a)) of
               (Inl f, m) \<Rightarrow> State_Monad.return (Inl f, c\<lparr>Watcher := Some m\<rparr>)
             | (Inr _, m) \<Rightarrow> finish_status e (c\<lparr>Watcher := Some m\<rparr>) a)
          else do {
            now \<leftarrow> observe (time_now e);
            case NewRegisteration m a now of
              (Inl (Error _), m) \<Rightarrow> finish_status e (c\<lparr>Watcher := Some m\<rparr>)
                (add_condition e a ''MonitoringActive'' False ''RegistrationFailed'' ''Failed to register monitoring: '')
            | (Inl f, m) \<Rightarrow> State_Monad.return (Inl f, c\<lparr>Watcher := Some m\<rparr>)
            | (Inr _, m) \<Rightarrow> finish_status e (c\<lparr>Watcher := Some m\<rparr>)
                (add_condition e a ''MonitoringActive'' True ''MonitoringRegistered'' ''Successfully registered monitoring'')
          })"

section \<open>Reconcile\<close>

text \<open>The branch for an autoscaler that is not being deleted: the finalizer first, then discovery and registration.\<close>

definition reconcile_live :: "'w env \<Rightarrow> controller \<Rightarrow> autoscaler \<Rightarrow> ('w, reconcile_result res \<times> controller) prog" where
  "reconcile_live e c a =
     (if \<not> containsString (AsFinalizers a) FinalizerName then do {
        u \<leftarrow> updateAutoscaler e (a\<lparr>AsFinalizers := AsFinalizers a @ [FinalizerName]\<rparr>);
        State_Monad.return (case u of Inl _ \<Rightarrow> Fail ''failed to add finalizer'' | Inr _ \<Rightarrow> Ok Requeue, c)
      }
      else do {
        r \<leftarrow> discover_target e a;
        case r of
          Inl f \<Rightarrow> State_Monad.return (Inl f, c)
        | Inr a \<Rightarrow> watch_autoscaler e c a
      })"

definition Reconcile :: "'w env \<Rightarrow> string \<Rightarrow> string \<Rightarrow> controller \<Rightarrow> ('w, reconcile_result res \<times> controller) prog" where
  "Reconcile e ns name c = do {
     let c = ensure_started c;
     r \<leftarrow> observe (get_autoscaler e (ns, name));
     case r of
       Inl err \<Rightarrow>
         if err = NotFound then
           (case unregister_watch c name ns of
              (Inl f, c) \<Rightarrow> State_Monad.return (Inl f, c)
            | (Inr _, c) \<Rightarrow> State_Monad.return (Ok Done, c))
         else State_Monad.return (Fail ''failed to get ResourceClaimAutoscaler'', c)
     | Inr a \<Rightarrow> if AsDeletion a = None then reconcile_live e c a else reconcile_deleted e c a
   }"

section \<open>Claim events\<close>

text \<open>The labels of a claim this operator manages: the autoscaler's name.\<close>

definition managed_claim :: "resource_claim \<Rightarrow> string option" where
  "managed_claim c =
     (case RcLabels c of
        None \<Rightarrow> None
      | Some l \<Rightarrow> if l ManagedByLabel = Some OperatorName then l AutoscalerLabel else None)"

text \<open>The update predicate: whether the event passes, in which case the update handler is started too.\<close>

definition claim_updated :: "resource_claim \<Rightarrow> resource_claim \<Rightarrow> bool" where
  "claim_updated old new = (managed_claim new \<noteq> None \<and> RcAllocated old \<noteq> RcAllocated new)"

text \<open>The delete predicate: the autoscaler and the template name its goroutine gets.\<close>

definition claim_deleted :: "resource_claim \<Rightarrow> (string \<times> string) option" where
  "claim_deleted c =
     (case RcLabels c of
        None \<Rightarrow> None
      | Some l \<Rightarrow>
          (case (l ManagedByLabel, l AutoscalerLabel, l TemplateNameLabel) of
             (Some m, Some a, Some t) \<Rightarrow> if m = OperatorName then Some (a, t) else None
           | _ \<Rightarrow> None))"

definition mapResourceClaimToAutoscaler :: "resource_claim \<Rightarrow> (string \<times> string) list" where
  "mapResourceClaimToAutoscaler c = (case managed_claim c of None \<Rightarrow> [] | Some a \<Rightarrow> [(RcNamespace c, a)])"

definition with_replicas :: "workload \<Rightarrow> scaling_status \<Rightarrow> scaling_status" where
  "with_replicas w st = st\<lparr>ReadyReplicas := Some (WlReadyReplicas w), AvailableReplicas := Some (WlAvailableReplicas w)\<rparr>"

definition updateReplicaStatus :: "'w env \<Rightarrow> autoscaler \<Rightarrow> owner_reference \<Rightarrow> ('w, unit res \<times> autoscaler) prog" where
  "updateReplicaStatus e a owner = do {
     let st = get_or (ScalingStatus (Status a)) empty_scaling_status;
     let a = a\<lparr>Status := (Status a)\<lparr>ScalingStatus := Some st\<rparr>\<rparr>;
     case workload_kind (OwnerKind owner) of
       None \<Rightarrow> State_Monad.return (Fail ''unsupported owner kind'', a)
     | Some k \<Rightarrow> do {
         r \<leftarrow> observe (get_workload e k (AsNamespace a, OwnerName owner));
         case r of
           Inl _ \<Rightarrow> State_Monad.return (Fail ''failed to get workload'', a)
         | Inr w \<Rightarrow> do {
             let a = a\<lparr>Status := (Status a)\<lparr>ScalingStatus := Some (with_replicas w st)\<rparr>\<rparr>;
             u \<leftarrow> updateStatus e a;
             State_Monad.return (case u of Inl _ \<Rightarrow> Fail ''failed to update autoscaler status'' | Inr _ \<Rightarrow> Ok (), a)
           }
       }
   }"

definition status_owner :: "autoscaler \<Rightarrow> owner_reference option" where
  "status_owner a = Discovery (Status a) \<bind> Owner"

definition handleResourceClaimUpdate :: "'w env \<Rightarrow> resource_claim \<Rightarrow> resource_claim option \<Rightarrow> ('w, unit res) prog" where
  "handleResourceClaimUpdate e claim old =
     (case managed_claim claim of
        None \<Rightarrow> State_Monad.return (Ok ())
      | Some name \<Rightarrow>
          if (case old of None \<Rightarrow> False | Some o' \<Rightarrow> RcAllocated o' = RcAllocated claim) then State_Monad.return (Ok ())
          else do {
            r \<leftarrow> observe (get_autoscaler e (RcNamespace claim, name));
            case r of
              Inl err \<Rightarrow> State_Monad.return (if err = NotFound then Ok () else Fail ''failed to get autoscaler'')
            | Inr a \<Rightarrow> do {
                a \<leftarrow> (case status_owner a of
                        None \<Rightarrow> State_Monad.return a
                      | Some owner \<Rightarrow> do { (_, a) \<leftarrow> updateReplicaStatus e a owner; State_Monad.return a });
                if RcAllocated claim
                then do { _ \<leftarrow> CleanupOldResourceClaimTemplates e a; State_Monad.return (Ok ()) }
                else State_Monad.return (Ok ())
              }
          })"

text \<open>Deleting a template that was not found deletes the empty object.\<close>

definition DeleteTemplate :: "'w env \<Rightarrow> string \<Rightarrow> string \<Rightarrow> ('w, unit res) prog" where
  "DeleteTemplate e name ns = do {
     r \<leftarrow> observe (get_template e (ns, name));
     case r of
       Inl err \<Rightarrow>
         if err \<noteq> NotFound then State_Monad.return (Fail ''failed to get template'')
         else do {
           u \<leftarrow> deleteTemplate e ([], []);
           State_Monad.return (case u of Inl err \<Rightarrow> if err = NotFound then Ok () else Fail ''failed to delete template'' | Inr _ \<Rightarrow> Ok ())
         }
     | Inr t \<Rightarrow> do {
         u \<leftarrow> deleteTemplate e (CtNamespace t, CtName t);
         State_Monad.return (case u of Inl err \<Rightarrow> if err = NotFound then Ok () else Fail ''failed to delete template'' | Inr _ \<Rightarrow> Ok ())
       }
   }"

text \<open>The goroutine of the delete predicate.\<close>

definition after_claim_deleted :: "'w env \<Rightarrow> resource_claim \<Rightarrow> string \<Rightarrow> string \<Rightarrow> ('w, unit) prog" where
  "after_claim_deleted e claim name template = do {
     r \<leftarrow> observe (get_autoscaler e (RcNamespace claim, name));
     case r of
       Inl _ \<Rightarrow> State_Monad.return ()
     | Inr a \<Rightarrow>
         if desired_template a = [] then State_Monad.return ()
         else if desired_template a = template then
           (case status_owner a of
              None \<Rightarrow> State_Monad.return ()
            | Some owner \<Rightarrow> do { _ \<leftarrow> updateReplicaStatus e a owner; State_Monad.return () })
         else (case Discovery (Status a) of
              None \<Rightarrow> State_Monad.return ()
            | Some d \<Rightarrow> if template \<noteq> ResourceClaim d
                then do { _ \<leftarrow> DeleteTemplate e template (RcNamespace claim); State_Monad.return () }
                else State_Monad.return ())
   }"

section \<open>The scaling callback\<close>

text \<open>One attempt to record a failed round in the status.\<close>

definition record_failure :: "'w env \<Rightarrow> string \<Rightarrow> string \<Rightarrow> ('w, api_error + unit) prog" where
  "record_failure e name ns = do {
     r \<leftarrow> observe (get_autoscaler e (ns, name));
     case r of
       Inl err \<Rightarrow> State_Monad.return (Inl err)
     | Inr a \<Rightarrow> updateStatus e (add_condition e a ''ScalingActive'' False ''ScalingFailed'' ''Failed to scale: '')
   }"

text \<open>\<open>retry\<close> is client-go's \<open>RetryOnConflict\<close> with its default back-off. A panic in the round is not
  caught; an error is logged.\<close>

definition handleScalingAction ::
  "'w env \<Rightarrow> (('w, api_error + unit) prog \<Rightarrow> ('w, api_error + unit) prog) \<Rightarrow> string \<Rightarrow> string \<Rightarrow> rca_spec \<Rightarrow> metrics \<Rightarrow> ('w, unit res) prog" where
  "handleScalingAction e retry name ns spec metrics = do {
     r \<leftarrow> EvaluateAndScale e name ns spec metrics;
     case r of
       Inl (Error _) \<Rightarrow> do { _ \<leftarrow> retry (record_failure e name ns); State_Monad.return (Ok ()) }
     | _ \<Rightarrow> State_Monad.return r
   }"

end
