(* ===== verification/World_Steps.thy ===== *)
theory World_Steps
  imports Autoscaler_Controller
begin

text \<open>
  How programs change the world. A relation between worlds that is reflexive and transitive, and in which every
  single call of the environment stays, contains every program made of such calls. The one call left out
  is the write of an autoscaler object, which the reconciler makes to add and remove its finalizer.
\<close>

definition drifts :: "('w \<Rightarrow> 'w \<Rightarrow> bool) \<Rightarrow> ('w \<Rightarrow> 'a \<times> 'w) \<Rightarrow> bool" where
  "drifts R f \<longleftrightarrow> (\<forall>w. R w (snd (f w)))"

definition moves :: "('w \<Rightarrow> 'w \<Rightarrow> bool) \<Rightarrow> ('w, 'a) prog \<Rightarrow> bool" where
  "moves R m \<longleftrightarrow> (\<forall>s. R (world s) (world (snd (run_state m s))))"

definition obeys :: "('w \<Rightarrow> 'w \<Rightarrow> bool) \<Rightarrow> 'w env \<Rightarrow> bool" where
  "obeys R e \<longleftrightarrow> (\<forall>k. drifts R (get_autoscaler e k)) \<and> (\<forall>k. drifts R (get_template e k)) \<and> (\<forall>d k. drifts R (get_workload e d k)) \<and>
     (\<forall>k. drifts R (get_replicaset e k)) \<and> (\<forall>k. drifts R (get_pod e k)) \<and> (\<forall>k. drifts R (get_service e k)) \<and>
     (\<forall>ns n. drifts R (list_endpoints e ns n)) \<and> (\<forall>ns l. drifts R (list_templates e ns l)) \<and> (\<forall>ns l. drifts R (list_claims e ns l)) \<and>
     (\<forall>t. drifts R (create_template e t)) \<and> (\<forall>k. drifts R (delete_template e k)) \<and> (\<forall>d x. drifts R (update_workload e d x)) \<and>
     (\<forall>a. drifts R (update_status e a)) \<and> drifts R (time_now e)"

lemma obeysD:
  assumes "obeys R e"
  shows "drifts R (get_autoscaler e k)" "drifts R (get_template e k)" "drifts R (get_workload e d k)" "drifts R (get_replicaset e k)"
    "drifts R (get_pod e k)" "drifts R (get_service e k)" "drifts R (list_endpoints e ns n)" "drifts R (list_templates e ns l)"
    "drifts R (list_claims e ns l)" "drifts R (create_template e t)" "drifts R (delete_template e k)" "drifts R (update_workload e d x)"
    "drifts R (update_status e a)" "drifts R (time_now e)"
  using assms unfolding obeys_def by blast+

lemma driftsD: "drifts R f \<Longrightarrow> f w = (r, w') \<Longrightarrow> R w w'"
  unfolding drifts_def by (metis snd_conv)

named_theorems moves "programs that stay in a relation of worlds"

section \<open>The interface\<close>

locale world_relation =
  fixes R :: "'w \<Rightarrow> 'w \<Rightarrow> bool"
  assumes R_refl: "R w w"
    and R_trans: "R u v \<Longrightarrow> R v w \<Longrightarrow> R u w"
begin

lemma moves_return [moves]: "moves R (State_Monad.return a)"
  by (simp add: moves_def R_refl)

lemma moves_observe [moves]: "drifts R f \<Longrightarrow> moves R (observe f)"
  by (auto simp: moves_def drifts_def observe_def split: prod.split) (metis snd_conv)

lemma moves_emit: "drifts R f \<Longrightarrow> moves R (emit c f)"
  by (auto simp: moves_def drifts_def emit_def split: prod.split) (metis snd_conv)

lemma moves_bind [moves]: "moves R m \<Longrightarrow> (\<And>a. moves R (f a)) \<Longrightarrow> moves R (m \<bind> f)"
  unfolding moves_def by (auto split: prod.split) (metis R_trans snd_conv)

lemma moves_cases [moves]:
  "(\<And>x. moves R (f x)) \<Longrightarrow> (\<And>a. moves R (g a)) \<Longrightarrow> moves R (case r of Inl x \<Rightarrow> f x | Inr a \<Rightarrow> g a)"
  "moves R h \<Longrightarrow> (\<And>a. moves R (g a)) \<Longrightarrow> moves R (case p of None \<Rightarrow> h | Some a \<Rightarrow> g a)"
  "moves R h \<Longrightarrow> moves R i \<Longrightarrow> moves R (if b then h else i)"
  "(\<And>a c. moves R (k a c)) \<Longrightarrow> moves R (case q of (a, c) \<Rightarrow> k a c)"
  by (auto split: sum.split option.split prod.split)

lemma moves_calls [moves]:
  assumes "obeys R e"
  shows "moves R (createTemplate e t)" "moves R (deleteTemplate e k)" "moves R (updateWorkload e d x)" "moves R (updateStatus e a)"
  unfolding createTemplate_def deleteTemplate_def updateWorkload_def updateStatus_def by (intro moves_emit obeysD [OF assms])+

section \<open>The scaler\<close>

lemma moves_reads [moves]:
  assumes "obeys R e"
  shows "moves R (getCurrentResourcesFromTemplate e a)" "moves R (checkGracePeriod e a d)" "moves R (calculateLatencyOffsets e name ns ms)"
    "moves R (getOwnerRevision e ns owner)"
  unfolding getCurrentResourcesFromTemplate_def checkGracePeriod_def calculateLatencyOffsets_def getOwnerRevision_def
  by (intro moves assms obeysD [OF assms])+

lemma moves_templates [moves]: "obeys R e \<Longrightarrow> moves R (patchResourceClaimTemplate e a c)"
  unfolding patchResourceClaimTemplate_def create_revised_def Let_def by (intro moves obeysD | assumption)+

lemma moves_workload [moves]: "obeys R e \<Longrightarrow> moves R (patch_workload e k ns name old new n)"
  unfolding patch_workload_def by (intro moves obeysD | assumption)+

lemma moves_owner [moves]: "obeys R e \<Longrightarrow> moves R (patchPodOwner e a name n)"
  unfolding patchPodOwner_def patchDeployment_def patchStatefulSet_def
  by (auto intro!: moves split: workload_kind.split)

lemma moves_changes [moves]: "obeys R e \<Longrightarrow> moves R (executeScalingChanges e a d)"
  unfolding executeScalingChanges_def applyResourceChanges_def applyReplicaChanges_def updateReplicaStatusFromOwner_def
    patchDeployment_def patchStatefulSet_def Let_def
  by (auto intro!: moves obeysD)

lemma moves_apply [moves]: "obeys R e \<Longrightarrow> moves R (applyScalingAction e name ns config rate oi ot)"
  unfolding applyScalingAction_def updateScalingStatus_def Let_def by (intro moves obeysD | assumption)+

lemma moves_round [moves]: "obeys R e \<Longrightarrow> moves R (EvaluateAndScale e name ns spec ms)"
  unfolding EvaluateAndScale_def Let_def by (intro moves obeysD | assumption)+

section \<open>Discovery\<close>

lemma snd_map_api [simp]: "snd (map_api g r) = snd r"
  by (simp add: map_api_def split: prod.split sum.split)

lemma drifts_owners:
  assumes "obeys R e" "owners_of e ns cur w = Some p"
  shows "R w (snd p)"
  using assms(2) obeysD(4,5,3) [OF assms(1)] unfolding owners_of_def Let_def drifts_def by (auto split: if_splits)

lemma drifts_climb: "climb e ns cur w = Some p \<Longrightarrow> obeys R e \<Longrightarrow> R w (snd p)"
proof (induction e ns cur w p rule: climb.raw_induct [rotated, consumes 1, case_names step])
  case (step up e ns cur w p)
  show ?case
  proof (cases "owners_of e ns cur w")
    case None then show ?thesis using step(2) R_refl by auto
  next
    case (Some q)
    have q: "R w (snd q)" by (rule drifts_owners [OF step(3) Some])
    show ?thesis
    proof (cases "\<exists>refs c. fst q = Inr refs \<and> controller_ref refs = Some c \<and> supported_owner c")
      case True
      then obtain c where "up e ns (bare c) (snd q) = Some p" using step(2) Some by (auto simp: split_beta)
      then have "R (snd q) (snd p)" using step(1,3) by blast
      then show ?thesis using q R_trans by blast
    next
      case False
      then have "snd p = snd q" using step(2) Some by (cases q) (auto split: sum.splits option.splits if_splits)
      then show ?thesis using q by simp
    qed
  qed
qed

lemma drifts_pods: "obeys R e \<Longrightarrow> R w (snd (check_pods e ns first common ps w))"
proof (induction ps arbitrary: first common w)
  case Nil show ?case by (simp add: R_refl)
next
  case (Cons p ps)
  obtain r u where g: "get_pod e (ns, p) w = (r, u)" by fastforce
  have u: "R w u" by (rule driftsD [OF obeysD(5) [OF Cons.prems] g])
  have rest: "R w (snd (check_pods e ns b c ps v))" if "R w v" for b c v
    by (rule R_trans [OF that Cons.IH [OF Cons.prems]])
  show ?case
  proof (cases r)
    case (Inl err) then show ?thesis using g rest [OF u] by simp
  next
    case (Inr pod)
    show ?thesis
    proof (cases "discoverOwner e pod u")
      case None then show ?thesis using g Inr u by simp
    next
      case (Some q)
      then have "R u (snd q)" using drifts_climb [OF _ Cons.prems] by (simp add: discoverOwner_def)
      then have v: "R w (snd q)" by (rule R_trans [OF u])
      show ?thesis using g Inr Some v rest [OF v] by (cases q) (simp split: option.split)
    qed
  qed
qed

lemma drifts_claims_of:
  assumes "obeys R e"
  shows "R w (snd (pod_claims_of e owner ns w))"
proof -
  have r: "snd (case q of (Inl _, u) \<Rightarrow> (x, u) | (Inr cs, u) \<Rightarrow> (f cs, u)) = snd q"
    for q :: "(api_error + pod_claim list) \<times> 'w" and x :: "pod_claim list res" and f
    by (simp split: prod.split sum.split)
  have "R w (snd (get_workload e d k w))" "R w (snd (get_pod e k w))" for d k
    using obeysD(3,5) [OF assms] by (simp_all add: drifts_def)
  then show ?thesis by (simp add: pod_claims_of_def Let_def r R_refl)
qed

lemma drifts_template:
  assumes "obeys R e"
  shows "R w (snd (discoverResourceClaimTemplate e owner ns cls w))"
proof (cases owner)
  case None then show ?thesis by (simp add: discoverResourceClaimTemplate_def R_refl)
next
  case (Some own)
  obtain r u where c: "pod_claims_of e own ns w = (r, u)" by fastforce
  have u: "R w u" using drifts_claims_of [OF assms, of w own ns] c by simp
  show ?thesis
  proof (cases r)
    case (Inl f) then show ?thesis using Some c u by (simp add: discoverResourceClaimTemplate_def)
  next
    case (Inr cs)
    obtain t v where t: "get_template e (ns, claimed_template cs) u = (t, v)" by fastforce
    have "R w v" by (rule R_trans [OF u driftsD [OF obeysD(2) [OF assms] t]])
    then show ?thesis using Some c Inr t u by (simp add: discoverResourceClaimTemplate_def Let_def split: sum.split)
  qed
qed

lemma drifts_service:
  assumes "obeys R e"
  shows "drifts R (DiscoverFromService e name ns cls)"
  unfolding drifts_def
proof
  fix w
  obtain r u where s: "get_service e (ns, name) w = (r, u)" by fastforce
  have u: "R w u" by (rule driftsD [OF obeysD(6) [OF assms] s])
  obtain t v where l: "list_endpoints e ns name u = (t, v)" by fastforce
  have v: "R w v" by (rule R_trans [OF u driftsD [OF obeysD(7) [OF assms] l]])
  have x: "R w (snd (check_pods e ns True None ps v))" for ps by (rule R_trans [OF v drifts_pods [OF assms]])
  show "R w (snd (DiscoverFromService e name ns cls w))"
  proof (cases r)
    case (Inl f) then show ?thesis using s u by (simp add: DiscoverFromService_def)
  next
    case r: (Inr z)
    show ?thesis
    proof (cases t)
      case (Inl f) then show ?thesis using s r l v by (simp add: DiscoverFromService_def)
    next
      case (Inr ts)
      obtain q y where c: "check_pods e ns True None (pod_names ts) v = (q, y)" by fastforce
      have y: "R w y" using x [of "pod_names ts"] c by simp
      have d: "R w (snd (discoverResourceClaimTemplate e own ns cls y))" for own by (rule R_trans [OF y drifts_template [OF assms]])
      show ?thesis using s r l Inr c v y d
        by (auto simp: DiscoverFromService_def split: sum.split option.split prod.split fault.split) (metis snd_conv)+
    qed
  qed
qed

section \<open>The controller\<close>

lemma moves_discover [moves]: "obeys R e \<Longrightarrow> moves R (discover_target e a)"
  unfolding discover_target_def Let_def by (intro moves drifts_service | assumption)+

lemma moves_watch [moves]: "obeys R e \<Longrightarrow> moves R (watch_autoscaler e c a)"
  unfolding watch_autoscaler_def wait_for_def finish_status_def
  by (auto intro!: moves obeysD split: option.split sum.split prod.split fault.split)

lemma moves_cleanup [moves]: "obeys R e \<Longrightarrow> moves R (cleanupWorkload e a)"
  unfolding cleanupWorkload_def by (intro moves obeysD | assumption)+

lemma moves_replicas [moves]: "obeys R e \<Longrightarrow> moves R (updateReplicaStatus e a owner)"
  unfolding updateReplicaStatus_def Let_def by (intro moves obeysD | assumption)+

lemma moves_unused [moves]: "obeys R e \<Longrightarrow> moves R (delete_unused e desired bound pending ts)"
  by (induction ts) (auto intro!: moves)

lemma moves_old_templates [moves]: "obeys R e \<Longrightarrow> moves R (CleanupOldResourceClaimTemplates e a)"
  unfolding CleanupOldResourceClaimTemplates_def by (intro moves obeysD | assumption)+

lemma moves_claim_updated [moves]: "obeys R e \<Longrightarrow> moves R (handleResourceClaimUpdate e claim old)"
  unfolding handleResourceClaimUpdate_def by (intro moves obeysD | assumption)+

lemma moves_claim_deleted [moves]: "obeys R e \<Longrightarrow> moves R (after_claim_deleted e claim name template)"
  unfolding after_claim_deleted_def DeleteTemplate_def by (intro moves obeysD | assumption)+

lemma moves_callback:
  assumes "obeys R e" "\<And>m. moves R m \<Longrightarrow> moves R (retry m)"
  shows "moves R (handleScalingAction e retry name ns spec ms)"
proof -
  have "moves R (record_failure e name ns)"
    unfolding record_failure_def by (intro moves obeysD assms(1))
  then have "moves R (retry (record_failure e name ns))" by (rule assms(2))
  then show ?thesis
    unfolding handleScalingAction_def by (auto intro!: moves assms(1) split: sum.split fault.split)
qed

end

end
