(* ===== verification/Registry.thy ===== *)
theory Registry
  imports Main
begin

text \<open>
  The contract of a registry: named entries that are added, updated when present, and removed. What clients
  rely on is stated against the map it stands for.
\<close>

datatype ('n, 'v) registry_op = Add 'n 'v | Upd 'n 'v | Del 'n

fun spec_op :: "('n \<Rightarrow> 'k) \<Rightarrow> ('n, 'v) registry_op \<Rightarrow> ('k \<rightharpoonup> 'v) \<Rightarrow> ('k \<rightharpoonup> 'v)" where
  "spec_op key (Add n v) m = m(key n \<mapsto> v)"
| "spec_op key (Upd n v) m = (if m (key n) = None then m else m(key n \<mapsto> v))"
| "spec_op key (Del n) m = m(key n := None)"

fun exec_op :: "('n \<Rightarrow> 'v \<Rightarrow> 's \<Rightarrow> 's) \<Rightarrow> ('n \<Rightarrow> 'v \<Rightarrow> 's \<Rightarrow> 's) \<Rightarrow> ('n \<Rightarrow> 's \<Rightarrow> 's) \<Rightarrow> ('n, 'v) registry_op \<Rightarrow> 's \<Rightarrow> 's" where
  "exec_op add upd del (Add n v) s = add n v s"
| "exec_op add upd del (Upd n v) s = upd n v s"
| "exec_op add upd del (Del n) s = del n s"

locale registry =
  fixes inv :: "'s \<Rightarrow> bool"
    and key :: "'n \<Rightarrow> 'k"
    and look :: "'s \<Rightarrow> 'k \<Rightarrow> 'v option"
    and add :: "'n \<Rightarrow> 'v \<Rightarrow> 's \<Rightarrow> 's"
    and upd :: "'n \<Rightarrow> 'v \<Rightarrow> 's \<Rightarrow> 's"
    and del :: "'n \<Rightarrow> 's \<Rightarrow> 's"
  assumes add_inv: "inv s \<Longrightarrow> inv (add n v s)"
    and upd_inv: "inv s \<Longrightarrow> inv (upd n v s)"
    and del_inv: "inv s \<Longrightarrow> inv (del n s)"
    and look_add: "inv s \<Longrightarrow> look (add n v s) = (look s)(key n \<mapsto> v)"
    and look_upd: "inv s \<Longrightarrow> look (upd n v s) = (if look s (key n) = None then look s else (look s)(key n \<mapsto> v))"
    and look_del: "inv s \<Longrightarrow> look (del n s) = (look s)(key n := None)"
begin

lemma exec_inv: "inv s \<Longrightarrow> inv (exec_op add upd del c s)"
  by (cases c) (simp_all add: add_inv upd_inv del_inv)

lemma exec_refines: "inv s \<Longrightarrow> look (exec_op add upd del c s) = spec_op key c (look s)"
  by (cases c) (simp_all add: look_add look_upd look_del)

text \<open>A sequence of operations computes on the state what it computes on the map.\<close>

lemma run_refines:
  "inv s \<Longrightarrow> inv (fold (exec_op add upd del) cs s) \<and> look (fold (exec_op add upd del) cs s) = fold (spec_op key) cs (look s)"
  by (induction cs arbitrary: s) (simp_all add: exec_inv exec_refines)

text \<open>What a client does that registers a name unless it is there, and updates it otherwise.\<close>

lemma ensure:
  "inv s \<Longrightarrow> look (if look s (key n) = None then add n v s else upd n v s) = (look s)(key n \<mapsto> v)"
  by (simp add: look_add look_upd)

lemma ensure_inv: "inv s \<Longrightarrow> inv (if look s (key n) = None then add n v s else upd n v s)"
  by (simp add: add_inv upd_inv)

end

end
