(* ===== verification/Service_Monitor_Properties.thy ===== *)
theory Service_Monitor_Properties
  imports Service_Monitor Registry
begin

text \<open>
  The service monitor as a state machine: in every reachable state a registered event is open and has its
  next collection under way, and no operation of a started monitor panics.
\<close>

section \<open>The invariant\<close>

definition ev_ok :: "monitoring_event \<Rightarrow> bool" where
  "ev_ok ev \<longleftrightarrow> length (EvQueue ev) \<le> 1 \<and> EvSpec ev \<noteq> None \<and> (\<forall>t \<in> set (EvQueue ev). TeSpec t \<noteq> None)"

text \<open>The next collection of an event is under way: its timer runs, or has fired and its callback is about
  to send, or a trigger is queued, or the loop is about to re-arm.\<close>

definition awake :: "(nat \<times> nat) list \<Rightarrow> nat \<Rightarrow> monitoring_event \<Rightarrow> bool" where
  "awake pending i ev \<longleftrightarrow> EvTimer ev = Some (EvGen ev) \<or> (i, EvGen ev) \<in> set pending \<or> EvQueue ev \<noteq> [] \<or> EvLoop ev = Rearming"

definition open_event :: "(nat \<times> nat) list \<Rightarrow> string \<Rightarrow> nat \<Rightarrow> monitoring_event \<Rightarrow> bool" where
  "open_event pending k i ev \<longleftrightarrow> k = event_key (EvAutoscaler ev) (EvNamespace ev) \<and>
     \<not> EvClosed ev \<and> \<not> EvDone ev \<and> \<not> EvMonitorDone ev \<and> EvLoop ev \<noteq> Ended \<and> awake pending i ev"

definition sm_inv :: "service_monitor \<Rightarrow> bool" where
  "sm_inv s \<longleftrightarrow> distinct (map fst (SmEvents s)) \<and> (SmEvents s \<noteq> [] \<longrightarrow> SmRunning s) \<and>
     (\<forall>p \<in> set (SmPending s). fst p < length (SmHeap s)) \<and> (\<forall>i < length (SmHeap s). ev_ok (SmHeap s ! i)) \<and>
     (\<forall>(k, i) \<in> set (SmEvents s). i < length (SmHeap s) \<and> open_event (SmPending s) k i (SmHeap s ! i))"

lemma put_simps [simp]:
  "SmEvents (put i ev s) = SmEvents s" "SmRunning (put i ev s) = SmRunning s" "SmPending (put i ev s) = SmPending s"
  "SmHeap (put i ev s) = (SmHeap s)[i := ev]" "SmCrashed (put i ev s) = SmCrashed s" "SmNotified (put i ev s) = SmNotified s"
  "SmCallback (put i ev s) = SmCallback s" "put i ev (put i ev' s) = put i ev s"
  by (simp_all add: put_def)

lemma sm_inv_lookup:
  assumes "sm_inv s" "map_of (SmEvents s) k = Some i"
  shows "i < length (SmHeap s)" "open_event (SmPending s) k i (SmHeap s ! i)" "SmRunning s" "ev_ok (SmHeap s ! i)"
  using assms map_of_SomeD [OF assms(2)] by (auto simp: sm_inv_def)

lemma sm_inv_entry:
  assumes "sm_inv s" "(k, i) \<in> set (SmEvents s)"
  shows "map_of (SmEvents s) k = Some i"
  using assms by (auto simp: sm_inv_def)

lemma sm_inv_open: "sm_inv s \<Longrightarrow> (k, i) \<in> set (SmEvents s) \<Longrightarrow> i < length (SmHeap s) \<and> open_event (SmPending s) k i (SmHeap s ! i)"
  by (auto simp: sm_inv_def)

lemma distinct_ids: "sm_inv s \<Longrightarrow> (k, i) \<in> set (SmEvents s) \<Longrightarrow> (k', i) \<in> set (SmEvents s) \<Longrightarrow> k = k'"
  using sm_inv_open [of s k i] sm_inv_open [of s k' i] unfolding open_event_def by metis

text \<open>Every step changes one event and the callbacks of that event only.\<close>

lemma sm_inv_change:
  assumes "sm_inv s" "i < length (SmHeap s)" "ev_ok ev"
    and "\<And>k. (k, i) \<in> set (SmEvents s) \<Longrightarrow> open_event ps k i ev"
    and "\<And>p. p \<in> set ps \<Longrightarrow> fst p < length (SmHeap s)"
    and "\<And>j g. j \<noteq> i \<Longrightarrow> (j, g) \<in> set (SmPending s) \<Longrightarrow> (j, g) \<in> set ps"
  shows "sm_inv ((put i ev s)\<lparr>SmPending := ps\<rparr>)"
  unfolding sm_inv_def
proof (intro conjI)
  show "\<forall>(k, j) \<in> set (SmEvents ((put i ev s)\<lparr>SmPending := ps\<rparr>)).
      j < length (SmHeap ((put i ev s)\<lparr>SmPending := ps\<rparr>)) \<and>
      open_event (SmPending ((put i ev s)\<lparr>SmPending := ps\<rparr>)) k j (SmHeap ((put i ev s)\<lparr>SmPending := ps\<rparr>) ! j)"
  proof (clarify)
    fix k j assume m: "(k, j) \<in> set (SmEvents ((put i ev s)\<lparr>SmPending := ps\<rparr>))"
    then have j: "j < length (SmHeap s)" "open_event (SmPending s) k j (SmHeap s ! j)" using assms(1) by (auto simp: sm_inv_def)
    show "j < length (SmHeap ((put i ev s)\<lparr>SmPending := ps\<rparr>)) \<and>
      open_event (SmPending ((put i ev s)\<lparr>SmPending := ps\<rparr>)) k j (SmHeap ((put i ev s)\<lparr>SmPending := ps\<rparr>) ! j)"
      using j assms(2,4,6) m by (cases "j = i") (auto simp: open_event_def awake_def)
  qed
qed (use assms in \<open>auto simp: sm_inv_def nth_list_update\<close>)

lemma sm_inv_put:
  "sm_inv s \<Longrightarrow> i < length (SmHeap s) \<Longrightarrow> ev_ok ev \<Longrightarrow>
   (\<And>k. (k, i) \<in> set (SmEvents s) \<Longrightarrow> open_event (SmPending s) k i ev) \<Longrightarrow> sm_inv (put i ev s)"
  using sm_inv_change [of s i ev "SmPending s"] by (simp add: sm_inv_def)

lemma sm_inv_pending:
  assumes "sm_inv s" "(i, g) \<in> set (SmPending s)"
    and "\<And>k. (k, i) \<in> set (SmEvents s) \<Longrightarrow> open_event (remove1 (i, g) (SmPending s)) k i (SmHeap s ! i)"
  shows "sm_inv (s\<lparr>SmPending := remove1 (i, g) (SmPending s)\<rparr>)"
proof -
  have i: "i < length (SmHeap s)" "ev_ok (SmHeap s ! i)" using assms(1,2) by (auto simp: sm_inv_def)
  have "sm_inv ((put i (SmHeap s ! i) s)\<lparr>SmPending := remove1 (i, g) (SmPending s)\<rparr>)"
    by (rule sm_inv_change [OF assms(1) i assms(3)])
       (use assms(1) set_remove1_subset [of "(i, g)" "SmPending s"] in \<open>auto simp: sm_inv_def\<close>)
  then show ?thesis by (simp add: put_def)
qed

lemma sm_inv_flags [simp]:
  "sm_inv (s\<lparr>SmCallback := b\<rparr>) = sm_inv s" "sm_inv (s\<lparr>SmNotified := ns\<rparr>) = sm_inv s" "sm_inv (s\<lparr>SmCrashed := c\<rparr>) = sm_inv s"
  by (simp_all add: sm_inv_def)

section \<open>Operations\<close>

lemma inv_Start: "sm_inv s \<Longrightarrow> sm_inv (snd (Start s))"
  by (auto simp: Start_def sm_inv_def)

lemma release_open: "\<not> EvClosed ev \<Longrightarrow> release ev = Ok (ev\<lparr>EvTimer := None, EvDone := True, EvClosed := True\<rparr>)"
  by (simp add: release_def)

lemma release_all_ok:
  assumes "SmEvents s = xs" "distinct (map fst xs)" "distinct (map snd xs)"
    and "\<And>k i. (k, i) \<in> set xs \<Longrightarrow> i < length (SmHeap s) \<and> \<not> EvClosed (SmHeap s ! i)"
    and "\<And>i. i < length (SmHeap s) \<Longrightarrow> ev_ok (SmHeap s ! i)"
  shows "\<exists>s'. release_all xs s = (Ok (), s') \<and> SmEvents s' = [] \<and> SmPending s' = SmPending s \<and>
     length (SmHeap s') = length (SmHeap s) \<and> (\<forall>i < length (SmHeap s'). ev_ok (SmHeap s' ! i)) \<and>
     SmRunning s' = SmRunning s \<and> SmCrashed s' = SmCrashed s"
  using assms
proof (induction xs arbitrary: s)
  case Nil then show ?case by simp
next
  case (Cons x xs)
  obtain k i where x: "x = (k, i)" by fastforce
  have o: "i < length (SmHeap s)" "\<not> EvClosed (SmHeap s ! i)" using Cons.prems(4) x by auto
  define ev where "ev = (SmHeap s ! i)\<lparr>EvTimer := None, EvDone := True, EvClosed := True\<rparr>"
  define t where "t = (put i ev s)\<lparr>SmEvents := AList.delete k (SmEvents s)\<rparr>"
  have del: "AList.delete k (SmEvents s) = xs"
    using Cons.prems(1,2) x by (auto simp: delete_id)
  have ok: "ev_ok ev" using Cons.prems(5) [OF o(1)] by (simp add: ev_def ev_ok_def)
  have "\<exists>s'. release_all xs t = (Ok (), s') \<and> SmEvents s' = [] \<and> SmPending s' = SmPending t \<and>
     length (SmHeap s') = length (SmHeap t) \<and> (\<forall>i < length (SmHeap s'). ev_ok (SmHeap s' ! i)) \<and>
     SmRunning s' = SmRunning t \<and> SmCrashed s' = SmCrashed t"
  proof (rule Cons.IH)
    show "SmEvents t = xs" by (simp add: t_def del)
    show "distinct (map fst xs)" "distinct (map snd xs)" using Cons.prems(2,3) by auto
    show "j < length (SmHeap t) \<and> \<not> EvClosed (SmHeap t ! j)" if "(k', j) \<in> set xs" for k' j
      using that Cons.prems(3) Cons.prems(4) [of k' j] x by (auto simp: t_def image_iff nth_list_update)
    show "ev_ok (SmHeap t ! j)" if "j < length (SmHeap t)" for j
      using that ok Cons.prems(5) [of j] by (cases "j = i") (auto simp: t_def)
  qed
  moreover have "release_all (x # xs) s = release_all xs t"
    using o by (simp add: x release_open ev_def t_def)
  ultimately show ?case by (simp add: t_def)
qed

lemma inv_Stop:
  assumes "sm_inv s"
  shows "sm_inv (snd (Stop s))" "fst (Stop s) = Ok ()" "SmCrashed (snd (Stop s)) = SmCrashed s"
proof -
  define t where "t = s\<lparr>SmRunning := False, SmHeap := map (\<lambda>ev. ev\<lparr>EvDone := True, EvMonitorDone := True\<rparr>) (SmHeap s)\<rparr>"
  have ids: "distinct (map snd (SmEvents s))"
    using assms distinct_ids [OF assms] unfolding distinct_map by (auto simp: sm_inv_def distinct_map inj_on_def)
  have "\<exists>s'. release_all (SmEvents s) t = (Ok (), s') \<and> SmEvents s' = [] \<and> SmPending s' = SmPending t \<and>
     length (SmHeap s') = length (SmHeap t) \<and> (\<forall>i < length (SmHeap s'). ev_ok (SmHeap s' ! i)) \<and>
     SmRunning s' = SmRunning t \<and> SmCrashed s' = SmCrashed t"
    by (rule release_all_ok) (use assms ids in \<open>auto simp: t_def sm_inv_def open_event_def ev_ok_def\<close>)
  then obtain s' where s': "release_all (SmEvents s) t = (Ok (), s')" "SmEvents s' = []" "SmPending s' = SmPending t"
    "length (SmHeap s') = length (SmHeap t)" "\<forall>i < length (SmHeap s'). ev_ok (SmHeap s' ! i)" "SmCrashed s' = SmCrashed t" by blast
  have "sm_inv s'" using s' assms by (auto simp: sm_inv_def t_def)
  then show "sm_inv (snd (Stop s))" "fst (Stop s) = Ok ()" "SmCrashed (snd (Stop s)) = SmCrashed s"
    using s' assms by (auto simp: Stop_def t_def [symmetric]) (simp_all add: t_def)
qed

lemma set_update: "distinct (map fst xs) \<Longrightarrow> (k, v) \<in> set (AList.update k' v' xs) \<longleftrightarrow> (if k = k' then v = v' else (k, v) \<in> set xs)"
proof -
  assume d: "distinct (map fst xs)"
  then have "distinct (map fst (AList.update k' v' xs))" by (rule distinct_update)
  then have "(k, v) \<in> set (AList.update k' v' xs) \<longleftrightarrow> map_of (AList.update k' v' xs) k = Some v" by simp
  also have "\<dots> \<longleftrightarrow> (if k = k' then v = v' else map_of xs k = Some v)" by (auto simp: update_conv')
  finally show ?thesis using d by simp
qed

lemma cancel_existing_ok:
  assumes "sm_inv s"
  obtains s1 where "cancel_existing s key = Ok s1" "SmEvents s1 = SmEvents s" "SmPending s1 = SmPending s" "SmRunning s1 = SmRunning s"
    "length (SmHeap s1) = length (SmHeap s)" "SmCrashed s1 = SmCrashed s" "\<forall>i < length (SmHeap s1). ev_ok (SmHeap s1 ! i)"
    "\<And>k i. (k, i) \<in> set (SmEvents s) \<Longrightarrow> k \<noteq> key \<Longrightarrow> SmHeap s1 ! i = SmHeap s ! i"
proof (cases "map_of (SmEvents s) key")
  case None then show thesis using that [of s] assms by (simp add: cancel_existing_def sm_inv_def)
next
  case (Some i)
  let ?ev = "(SmHeap s ! i)\<lparr>EvTimer := None, EvDone := True, EvClosed := True, EvMonitorDone := True\<rparr>"
  note i = sm_inv_lookup [OF assms Some]
  have c: "\<not> EvClosed (SmHeap s ! i)" using i(2) by (simp add: open_event_def)
  have "cancel_existing s key = Ok (put i ?ev s)"
    using c by (simp add: cancel_existing_def Some release_def)
  moreover have "ev_ok ?ev" using i(4) by (simp add: ev_ok_def)
  moreover have "SmHeap (put i ?ev s) ! j = SmHeap s ! j" if "(k, j) \<in> set (SmEvents s)" "k \<noteq> key" for k j
    using that distinct_ids [OF assms, of k j key] map_of_SomeD [OF Some] by (cases "j = i") auto
  ultimately show thesis using that [of "put i ?ev s"] assms i(1) by (auto simp: sm_inv_def nth_list_update)
qed

lemma inv_Register:
  assumes "sm_inv s" "ScaleUp b \<noteq> None" "ScaleDown b \<noteq> None"
  shows "sm_inv (snd (RegisterWithCollector s name ns (Some spec) b now))"
    "SmRunning s \<Longrightarrow> fst (RegisterWithCollector s name ns (Some spec) b now) = Ok ()"
    "SmRunning s \<Longrightarrow> SmEvents (snd (RegisterWithCollector s name ns (Some spec) b now)) =
       AList.update (event_key name ns) (length (SmHeap s)) (SmEvents s)"
    "SmRunning s \<Longrightarrow> \<exists>h up down. SmHeap (snd (RegisterWithCollector s name ns (Some spec) b now)) =
       h @ [new_event name ns (Some spec) up down now] \<and> length h = length (SmHeap s) \<and>
       (\<forall>(k, i) \<in> set (SmEvents s). k \<noteq> event_key name ns \<longrightarrow> h ! i = SmHeap s ! i)"
    "SmRunning (snd (RegisterWithCollector s name ns (Some spec) b now)) = SmRunning s"
proof -
  let ?key = "event_key name ns"
  obtain up down where b: "ScaleUp b = Some up" "ScaleDown b = Some down" using assms(2,3) by blast
  let ?ev = "new_event name ns (Some spec) (Trigger up) (Trigger down) now"
  obtain s1 where s1: "cancel_existing s ?key = Ok s1" "SmEvents s1 = SmEvents s" "SmPending s1 = SmPending s" "SmRunning s1 = SmRunning s"
    "length (SmHeap s1) = length (SmHeap s)" "SmCrashed s1 = SmCrashed s" "\<forall>i < length (SmHeap s1). ev_ok (SmHeap s1 ! i)"
    "\<And>k i. (k, i) \<in> set (SmEvents s) \<Longrightarrow> k \<noteq> ?key \<Longrightarrow> SmHeap s1 ! i = SmHeap s ! i"
    by (rule cancel_existing_ok [OF assms(1), of ?key]) (rule that)
  let ?t = "s1\<lparr>SmHeap := SmHeap s1 @ [?ev], SmEvents := AList.update ?key (length (SmHeap s1)) (SmEvents s1)\<rparr>"
  have run: "RegisterWithCollector s name ns (Some spec) b now =
      (if SmRunning s then (Ok (), ?t) else (Crash ''cannot create context from nil parent'', s1))"
    by (simp add: RegisterWithCollector_def s1(1,4) b deref_def)
  have new: "ev_ok ?ev" "open_event (SmPending s) ?key (length (SmHeap s)) ?ev"
    by (simp_all add: new_event_def ev_ok_def open_event_def awake_def)
  have d: "distinct (map fst (SmEvents s))" using assms(1) by (simp add: sm_inv_def)
  have t: "sm_inv ?t" if r: "SmRunning s"
    unfolding sm_inv_def
  proof (intro conjI)
    show "\<forall>(k, i) \<in> set (SmEvents ?t). i < length (SmHeap ?t) \<and> open_event (SmPending ?t) k i (SmHeap ?t ! i)"
    proof clarify
      fix k i assume "(k, i) \<in> set (SmEvents ?t)"
      then have "k = ?key \<and> i = length (SmHeap s) \<or> k \<noteq> ?key \<and> (k, i) \<in> set (SmEvents s)"
        using d s1(2,5) by (auto simp: set_update split: if_splits)
      then show "i < length (SmHeap ?t) \<and> open_event (SmPending ?t) k i (SmHeap ?t ! i)"
        using s1 new sm_inv_open [OF assms(1), of k i] by (auto simp: nth_append)
    qed
  qed (use assms(1) s1 new r d in \<open>auto simp: sm_inv_def distinct_update nth_append less_Suc_eq\<close>)
  have "sm_inv s1" if "\<not> SmRunning s"
    using that assms(1) s1(1) by (auto simp: sm_inv_def cancel_existing_def)
  then show "sm_inv (snd (RegisterWithCollector s name ns (Some spec) b now))" unfolding run using t by auto
  show "SmRunning s \<Longrightarrow> fst (RegisterWithCollector s name ns (Some spec) b now) = Ok ()"
    "SmRunning s \<Longrightarrow> SmEvents (snd (RegisterWithCollector s name ns (Some spec) b now)) = AList.update ?key (length (SmHeap s)) (SmEvents s)"
    "SmRunning (snd (RegisterWithCollector s name ns (Some spec) b now)) = SmRunning s"
    unfolding run using s1 by auto
  show "SmRunning s \<Longrightarrow> \<exists>h up down. SmHeap (snd (RegisterWithCollector s name ns (Some spec) b now)) =
       h @ [new_event name ns (Some spec) up down now] \<and> length h = length (SmHeap s) \<and>
       (\<forall>(k, i) \<in> set (SmEvents s). k \<noteq> ?key \<longrightarrow> h ! i = SmHeap s ! i)"
    unfolding run using s1(5,8) by auto
qed

lemma inv_UpdateTriggerTime:
  assumes "sm_inv s"
  shows "sm_inv (snd (UpdateTriggerTime s name ns))" "\<not> (\<exists>m. fst (UpdateTriggerTime s name ns) = Crash m)"
proof -
  have "sm_inv (put i (rearmed (SmHeap s ! i)) s)" if "map_of (SmEvents s) (event_key name ns) = Some i" for i
    using sm_inv_lookup [OF assms that] sm_inv_open [OF assms]
    by (intro sm_inv_put assms) (auto simp: rearmed_def ev_ok_def open_event_def awake_def)
  then show "sm_inv (snd (UpdateTriggerTime s name ns))" "\<not> (\<exists>m. fst (UpdateTriggerTime s name ns) = Crash m)"
    using assms sm_inv_lookup(3) [OF assms] by (auto simp: UpdateTriggerTime_def split: option.split)
qed

lemma inv_UpdateCachedSpec:
  assumes "sm_inv s"
  shows "sm_inv (snd (UpdateCachedSpec s name ns (Some spec)))" "\<not> (\<exists>m. fst (UpdateCachedSpec s name ns (Some spec)) = Crash m)"
proof -
  have "sm_inv (put i ((SmHeap s ! i)\<lparr>EvSpec := Some spec\<rparr>) s)" if "map_of (SmEvents s) (event_key name ns) = Some i" for i
    using sm_inv_lookup [OF assms that] sm_inv_open [OF assms]
    by (intro sm_inv_put assms) (auto simp: ev_ok_def open_event_def awake_def)
  then show "sm_inv (snd (UpdateCachedSpec s name ns (Some spec)))" "\<not> (\<exists>m. fst (UpdateCachedSpec s name ns (Some spec)) = Crash m)"
    using assms by (auto simp: UpdateCachedSpec_def split: option.split)
qed

lemma inv_Unregister:
  assumes "sm_inv s"
  shows "sm_inv (snd (Unregister s name ns))" "\<not> (\<exists>m. fst (Unregister s name ns) = Crash m)"
proof -
  have c: "sm_inv ((put i ((SmHeap s ! i)\<lparr>EvTimer := None, EvDone := True, EvClosed := True\<rparr>) s)\<lparr>SmEvents := AList.delete (event_key name ns) (SmEvents s)\<rparr>) \<and>
      release (SmHeap s ! i) = Ok ((SmHeap s ! i)\<lparr>EvTimer := None, EvDone := True, EvClosed := True\<rparr>)"
    if m: "map_of (SmEvents s) (event_key name ns) = Some i" for i
  proof
    let ?ev = "(SmHeap s ! i)\<lparr>EvTimer := None, EvDone := True, EvClosed := True\<rparr>"
    note i = sm_inv_lookup [OF assms m]
    show "release (SmHeap s ! i) = Ok ?ev" using i(2) by (simp add: release_def open_event_def)
    have "j \<noteq> i" if "(k, j) \<in> set (SmEvents s)" "k \<noteq> event_key name ns" for k j
      using that distinct_ids [OF assms, of k j "event_key name ns"] map_of_SomeD [OF m] by blast
    moreover have "ev_ok ?ev" using i(4) by (simp add: ev_ok_def)
    moreover have "AList.delete (event_key name ns) (SmEvents s) \<noteq> [] \<Longrightarrow> SmEvents s \<noteq> []" by auto
    ultimately show "sm_inv ((put i ?ev s)\<lparr>SmEvents := AList.delete (event_key name ns) (SmEvents s)\<rparr>)"
      using assms i(1,3) by (auto simp: sm_inv_def distinct_map_filter nth_list_update AList.delete_eq)
  qed
  then show "sm_inv (snd (Unregister s name ns))" "\<not> (\<exists>m. fst (Unregister s name ns) = Crash m)"
    using assms by (auto simp: Unregister_def split: option.split)
qed

section \<open>Reachable states\<close>

lemma outcome_inv [simp]: "sm_inv (outcome r) = sm_inv (snd r)"
  by (cases r) (auto simp: outcome_def split: sum.split fault.split)

lemma inv_call: "sm_call s t \<Longrightarrow> sm_inv s \<Longrightarrow> sm_inv t"
  by (induction rule: sm_call.induct)
     (auto simp: SetScalingActionCallback_def inv_Start inv_Stop inv_Register inv_UpdateCachedSpec inv_Unregister)

lemma inv_run: "sm_run s t \<Longrightarrow> sm_inv s \<Longrightarrow> sm_inv t"
proof (induction rule: sm_run.induct)
  case (timer_fires i s g)
  let ?ev = "(SmHeap s ! i)\<lparr>EvTimer := None\<rparr>"
  have ok: "ev_ok ?ev" using timer_fires by (auto simp: sm_inv_def ev_ok_def)
  have "sm_inv ((put i ?ev s)\<lparr>SmPending := (i, g) # SmPending s\<rparr>)"
    by (rule sm_inv_change [OF timer_fires(3,1) ok])
       (use timer_fires sm_inv_open [OF timer_fires(3)] in \<open>auto simp: open_event_def awake_def sm_inv_def\<close>)
  then show ?case .
next
  case (callback_done i g s)
  show ?case
    by (rule sm_inv_pending [OF callback_done(3,1)])
       (use sm_inv_open [OF callback_done(3)] callback_done(2) in \<open>auto simp: open_event_def awake_def ctx_done_def\<close>)
next
  case (callback_send i g s)
  let ?ev = "(SmHeap s ! i)\<lparr>EvQueue := [trigger_of (SmHeap s ! i)]\<rparr>"
  have i: "i < length (SmHeap s)" using callback_send(1,4) by (auto simp: sm_inv_def)
  have ok: "ev_ok ?ev" using callback_send(4) i by (auto simp: sm_inv_def ev_ok_def trigger_of_def)
  have "sm_inv ((put i ?ev s)\<lparr>SmPending := remove1 (i, g) (SmPending s)\<rparr>)"
    by (rule sm_inv_change [OF callback_send(4) i ok])
       (use callback_send(4) sm_inv_open [OF callback_send(4)] set_remove1_subset [of "(i, g)" "SmPending s"]
         in \<open>auto simp: open_event_def awake_def sm_inv_def\<close>)
  then show ?case .
next
  case (callback_full i g s)
  show ?case
    by (rule sm_inv_pending [OF callback_full(5,1)])
       (use sm_inv_open [OF callback_full(5)] callback_full(4) in \<open>auto simp: open_event_def awake_def\<close>)
next
  case (callback_panic i g s) then show ?case by simp
next
  case (loop_skip i s t q)
  then show ?case by (auto simp: sm_inv_def ev_ok_def)
next
  case (loop_collect i s t q spec now collected)
  have "sm_inv (put i ((SmHeap s ! i)\<lparr>EvQueue := q, EvLast := now, EvLoop := Rearming\<rparr>) s)"
    by (rule sm_inv_put [OF loop_collect(5,1)])
       (use loop_collect sm_inv_open [OF loop_collect(5)] in \<open>auto simp: sm_inv_def ev_ok_def open_event_def awake_def\<close>)
  then show ?case by (simp add: notifyScalingAction_def)
next
  case (loop_rearm i s)
  let ?ev = "SmHeap s ! i"
  let ?s = "put i (?ev\<lparr>EvLoop := Listening\<rparr>) s"
  let ?key = "event_key (EvAutoscaler ?ev) (EvNamespace ?ev)"
  show ?case
  proof (cases "map_of (SmEvents s) ?key = Some i")
    case True
    have "sm_inv (put i (rearmed (?ev\<lparr>EvLoop := Listening\<rparr>)) s)"
      by (rule sm_inv_put [OF loop_rearm(3,1)])
         (use loop_rearm sm_inv_open [OF loop_rearm(3)] in \<open>auto simp: sm_inv_def rearmed_def ev_ok_def open_event_def awake_def\<close>)
    then show ?thesis
      using True sm_inv_lookup(3) [OF loop_rearm(3) True] loop_rearm(1) by (simp add: UpdateTriggerTime_def)
  next
    case False
    have "sm_inv ?s"
    proof (rule sm_inv_put [OF loop_rearm(3,1)])
      show "ev_ok (?ev\<lparr>EvLoop := Listening\<rparr>)" using loop_rearm by (auto simp: sm_inv_def ev_ok_def)
      fix k assume "(k, i) \<in> set (SmEvents s)"
      then have "map_of (SmEvents s) k = Some i" "k = ?key"
        using sm_inv_entry [OF loop_rearm(3)] sm_inv_open [OF loop_rearm(3)] by (auto simp: open_event_def)
      then show "open_event (SmPending s) k i (?ev\<lparr>EvLoop := Listening\<rparr>)" using False by simp
    qed
    then show ?thesis by (simp add: inv_UpdateTriggerTime)
  qed
next
  case (loop_end i s)
  then show ?case
    by (intro sm_inv_put) (use sm_inv_open [OF loop_end(4)] in \<open>auto simp: sm_inv_def ev_ok_def open_event_def\<close>)
qed

lemma reach_inv: "sm_reach s \<Longrightarrow> sm_inv s"
proof (induction rule: sm_reach.induct)
  case reach_new show ?case by (simp add: NewServiceMonitor_def sm_inv_def)
next
  case (reach_call s t) then show ?case using inv_call by blast
next
  case (reach_run s t) then show ?case using inv_run by blast
qed

text \<open>C4: in every reachable state a registered event is open, its loop has not ended, its context and its
  monitor's are live, and its next collection is under way: no trigger is lost for good.\<close>

theorem registered_event_awake:
  assumes "sm_reach s" "(k, i) \<in> set (SmEvents s)"
  shows "SmRunning s \<and> i < length (SmHeap s) \<and> open_event (SmPending s) k i (SmHeap s ! i)"
  using sm_inv_open [OF reach_inv [OF assms(1)] assms(2)] reach_inv [OF assms(1)] assms(2) by (auto simp: sm_inv_def)

section \<open>Progress\<close>

text \<open>The run reaches a collection for the event.\<close>

definition collects :: "service_monitor \<Rightarrow> nat \<Rightarrow> bool" where
  "collects s i \<longleftrightarrow> (\<exists>t spec m. sm_run\<^sup>*\<^sup>* s t \<and> \<not> SmCrashed t \<and>
     SmNotified t = SmNotified s @ [(EvAutoscaler (SmHeap s ! i), EvNamespace (SmHeap s ! i), spec, m)])"

lemma collects_step:
  assumes "sm_run s t" "collects t i" "SmNotified t = SmNotified s"
    "EvAutoscaler (SmHeap t ! i) = EvAutoscaler (SmHeap s ! i)" "EvNamespace (SmHeap t ! i) = EvNamespace (SmHeap s ! i)"
  shows "collects s i"
  using assms unfolding collects_def by (metis converse_rtranclp_into_rtranclp)

lemma collects_queued:
  assumes "i < length (SmHeap s)" "ev_ok (SmHeap s ! i)" "EvLoop (SmHeap s ! i) = Listening" "EvQueue (SmHeap s ! i) \<noteq> []"
    "SmCallback s" "\<not> SmCrashed s"
  shows "collects s i"
proof -
  obtain t q where q: "EvQueue (SmHeap s ! i) = t # q" using assms(4) by (cases "EvQueue (SmHeap s ! i)") auto
  then obtain spec where spec: "TeSpec t = Some spec" using assms(2) by (auto simp: ev_ok_def)
  let ?t = "notifyScalingAction (put i ((SmHeap s ! i)\<lparr>EvQueue := q, EvLast := 0, EvLoop := Rearming\<rparr>) s)
     (EvAutoscaler (SmHeap s ! i)) (EvNamespace (SmHeap s ! i)) spec Map.empty"
  have "sm_run\<^sup>*\<^sup>* s ?t" using loop_collect [OF assms(1,3) q spec, of 0 Map.empty] by (rule r_into_rtranclp)
  moreover have "\<not> SmCrashed ?t"
    "SmNotified ?t = SmNotified s @ [(EvAutoscaler (SmHeap s ! i), EvNamespace (SmHeap s ! i), spec, Map.empty)]"
    using assms(5,6) by (simp_all add: notifyScalingAction_def)
  ultimately show ?thesis unfolding collects_def by blast
qed

lemma collects_fired:
  assumes "i < length (SmHeap s)" "ev_ok (SmHeap s ! i)" "EvLoop (SmHeap s ! i) = Listening" "(i, g) \<in> set (SmPending s)"
    "\<not> EvClosed (SmHeap s ! i)" "SmCallback s" "\<not> SmCrashed s"
  shows "collects s i"
proof (cases "EvQueue (SmHeap s ! i) = []")
  case True
  show ?thesis
  proof (rule collects_step [OF callback_send [OF assms(4,5) True]])
    show "collects ((put i ((SmHeap s ! i)\<lparr>EvQueue := [trigger_of (SmHeap s ! i)]\<rparr>) s)\<lparr>SmPending := remove1 (i, g) (SmPending s)\<rparr>) i"
      by (rule collects_queued) (use assms in \<open>auto simp: ev_ok_def trigger_of_def\<close>)
  qed (use assms in auto)
next
  case False then show ?thesis using collects_queued assms by blast
qed

lemma collects_armed:
  assumes "i < length (SmHeap s)" "ev_ok (SmHeap s ! i)" "EvLoop (SmHeap s ! i) = Listening" "EvTimer (SmHeap s ! i) = Some g"
    "\<not> EvClosed (SmHeap s ! i)" "SmCallback s" "\<not> SmCrashed s"
  shows "collects s i"
proof (rule collects_step [OF timer_fires [OF assms(1,4)]])
  show "collects ((put i ((SmHeap s ! i)\<lparr>EvTimer := None\<rparr>) s)\<lparr>SmPending := (i, g) # SmPending s\<rparr>) i"
    by (rule collects_fired [of _ _ g]) (use assms in \<open>auto simp: ev_ok_def\<close>)
qed (use assms in auto)

text \<open>C15: from every reachable state with a callback, timers, channels and loops, with no further call, can
  bring a registered event to its next collection, which notifies the controller with its name.\<close>

theorem next_collection_reachable:
  assumes "sm_reach s" "\<not> SmCrashed s" "SmCallback s" "map_of (SmEvents s) k = Some i"
  shows "collects s i"
proof -
  note inv = reach_inv [OF assms(1)]
  note i = sm_inv_lookup [OF inv assms(4)]
  have o: "k = event_key (EvAutoscaler (SmHeap s ! i)) (EvNamespace (SmHeap s ! i))" "\<not> EvClosed (SmHeap s ! i)"
    "EvLoop (SmHeap s ! i) \<noteq> Ended" "awake (SmPending s) i (SmHeap s ! i)" using i(2) by (simp_all add: open_event_def)
  show ?thesis
  proof (cases "EvLoop (SmHeap s ! i)")
    case Listening
    then show ?thesis using o i(1,4) assms(2,3) collects_armed collects_fired collects_queued
      unfolding awake_def by (metis loop_phase.distinct(1))
  next
    case Rearming
    let ?ev = "rearmed ((SmHeap s ! i)\<lparr>EvLoop := Listening\<rparr>)"
    have "outcome (UpdateTriggerTime (put i ((SmHeap s ! i)\<lparr>EvLoop := Listening\<rparr>) s)
       (EvAutoscaler (SmHeap s ! i)) (EvNamespace (SmHeap s ! i))) = put i ?ev s"
      using assms(4) o(1) i(1,3) by (simp add: UpdateTriggerTime_def outcome_def)
    then have step: "sm_run s (put i ?ev s)" using loop_rearm [OF i(1) Rearming] by simp
    show ?thesis
    proof (rule collects_step [OF step])
      show "collects (put i ?ev s) i"
        by (rule collects_armed [of _ _ "Suc (EvGen (SmHeap s ! i))"])
           (use i o assms in \<open>auto simp: rearmed_def ev_ok_def\<close>)
    qed (use i in \<open>auto simp: rearmed_def\<close>)
  next
    case Ended then show ?thesis using o by simp
  qed
qed

section \<open>Panics\<close>

lemma outcome_crash: "SmCrashed (outcome r) \<longleftrightarrow> SmCrashed (snd r) \<or> (\<exists>m. fst r = Crash m)"
  by (cases r) (auto simp: outcome_def split: sum.split fault.split)

lemma crash_fields [simp]:
  "SmCrashed (snd (Start s)) = SmCrashed s" "SmCrashed (snd (UpdateTriggerTime s n m)) = SmCrashed s"
  "SmCrashed (snd (UpdateCachedSpec s n m sp)) = SmCrashed s" "SmCrashed (snd (Unregister s n m)) = SmCrashed s"
  "SmCrashed (snd (RegisterWithCollector s n m sp b now)) = SmCrashed s" "fst (Start s) \<noteq> Crash x"
  by (auto simp: Start_def UpdateTriggerTime_def UpdateCachedSpec_def Unregister_def RegisterWithCollector_def cancel_existing_def
      split: option.split sum.split)

lemma register_unstarted:
  assumes "sm_inv s" "\<not> SmRunning s" "ScaleUp b \<noteq> None"
  shows "\<exists>m. fst (RegisterWithCollector s name ns sp b now) = Crash m"
proof -
  have "map_of (SmEvents s) k = None" for k using sm_inv_lookup(3) [OF assms(1), of k] assms(2) by (cases "map_of (SmEvents s) k") auto
  then show ?thesis using assms(2,3) by (auto simp: RegisterWithCollector_def cancel_existing_def deref_def)
qed

lemma run_crash:
  assumes "sm_inv s" "\<not> SmCrashed s" "sm_run s t" "SmCrashed t"
  shows "(\<exists>i g. (i, g) \<in> set (SmPending s) \<and> EvClosed (SmHeap s ! i)) \<and> t = s\<lparr>SmCrashed := True\<rparr>"
  using assms(3)
proof (cases rule: sm_run.cases)
  case (loop_rearm i)
  let ?s = "put i ((SmHeap s ! i)\<lparr>EvLoop := Listening\<rparr>) s"
  have "\<not> (\<exists>m. fst (UpdateTriggerTime ?s n ns) = Crash m)" for n ns
    using sm_inv_lookup(3) [OF assms(1)] by (auto simp: UpdateTriggerTime_def split: option.splits)
  then show ?thesis using loop_rearm(1) assms(2,4) by (auto simp: outcome_crash)
qed (use assms(2,4) in \<open>auto simp: notifyScalingAction_def split: if_splits\<close>)

text \<open>C16: from a reachable state exactly two steps bring the process down. Of the calls only a registration does, and
  exactly when the monitor is not started; starting, stopping, setting the callback, updating, re-arming and
  unregistering never do. Of the steps of timers, callbacks and loops only the send of a timer callback on the channel of
  an event released meanwhile does, and it can exactly when such a callback is pending.\<close>

theorem panics_only_unstarted_or_released:
  assumes "sm_reach s" "\<not> SmCrashed s"
  shows "(SmCrashed (outcome (RegisterWithCollector s name ns (Some spec) (GetEffectiveBehavior spec) now)) \<longleftrightarrow> \<not> SmRunning s) \<and>
    \<not> SmCrashed (outcome (Start s)) \<and> \<not> SmCrashed (outcome (Stop s)) \<and> \<not> SmCrashed (SetScalingActionCallback s b) \<and>
    \<not> SmCrashed (outcome (UpdateCachedSpec s name ns (Some spec))) \<and> \<not> SmCrashed (outcome (UpdateTriggerTime s name ns)) \<and>
    \<not> SmCrashed (outcome (Unregister s name ns)) \<and>
    (\<forall>t. sm_run s t \<and> SmCrashed t \<longleftrightarrow>
       (\<exists>i g. (i, g) \<in> set (SmPending s) \<and> EvClosed (SmHeap s ! i)) \<and> t = s\<lparr>SmCrashed := True\<rparr>)"
proof -
  note inv = reach_inv [OF assms(1)]
  have up: "ScaleUp (GetEffectiveBehavior spec) \<noteq> None" using effective_behavior_some by blast
  have "SmCrashed (outcome (RegisterWithCollector s name ns (Some spec) (GetEffectiveBehavior spec) now)) \<longleftrightarrow> \<not> SmRunning s"
    using register_unstarted [OF inv _ up] inv_Register(2) [OF inv effective_behavior_some] assms(2)
    by (cases "SmRunning s") (auto simp: outcome_crash)
  moreover have "\<not> SmCrashed (outcome (Start s))" "\<not> SmCrashed (outcome (Stop s))" "\<not> SmCrashed (SetScalingActionCallback s b)"
    "\<not> SmCrashed (outcome (UpdateCachedSpec s name ns (Some spec)))" "\<not> SmCrashed (outcome (Unregister s name ns))"
    using assms(2) inv_Stop [OF inv] inv_UpdateCachedSpec(2) [OF inv] inv_Unregister(2) [OF inv]
    by (auto simp: outcome_crash SetScalingActionCallback_def)
  moreover have "\<not> SmCrashed (outcome (UpdateTriggerTime s name ns))"
    using sm_inv_lookup(3) [OF inv] assms(2) by (auto simp: outcome_crash UpdateTriggerTime_def split: option.splits)
  moreover have "sm_run s t \<and> SmCrashed t \<longleftrightarrow>
      (\<exists>i g. (i, g) \<in> set (SmPending s) \<and> EvClosed (SmHeap s ! i)) \<and> t = s\<lparr>SmCrashed := True\<rparr>" for t
    using run_crash [OF inv assms(2)] callback_panic by auto
  ultimately show ?thesis by blast
qed

definition sample_spec_rca :: rca_spec where
  "sample_spec_rca = \<lparr>Target = \<lparr>ServiceRef = \<lparr>ServiceName = ''vllm'', ServiceNamespace = ''default''\<rparr>,
     ResourceRef = \<lparr>DeviceClassName = ''gpu''\<rparr>, Hint = None\<rparr>, TargetLatency = None, SpecBehavior = None,
     SpecConstraints = None, MinTargetUtilization = []\<rparr>"

definition sample_event :: monitoring_event where
  "sample_event = new_event ''rca'' ''default'' (Some sample_spec_rca) \<lparr>PeriodSeconds = 60\<rparr> \<lparr>PeriodSeconds = 60\<rparr> 0"

text \<open>A started monitor with one event, armed; and the same after its timer has fired.\<close>

definition sample_monitor :: service_monitor where
  "sample_monitor = NewServiceMonitor\<lparr>SmRunning := True, SmCallback := True, SmHeap := [sample_event], SmEvents := [(''default/rca'', 0)]\<rparr>"

definition fired_monitor :: service_monitor where
  "fired_monitor = sample_monitor\<lparr>SmHeap := [sample_event\<lparr>EvTimer := None\<rparr>], SmPending := [(0, 0)]\<rparr>"

lemma register_sample:
  "outcome (RegisterWithCollector (NewServiceMonitor\<lparr>SmRunning := True, SmCallback := True\<rparr>) ''rca'' ''default'' (Some sample_spec_rca)
     (GetEffectiveBehavior sample_spec_rca) 0) = sample_monitor"
  by (simp add: RegisterWithCollector_def cancel_existing_def NewServiceMonitor_def outcome_def sample_monitor_def sample_event_def
      GetEffectiveBehavior_def sample_spec_rca_def deref_def GetDefaultScalingBehavior_def DefaultPeriodSeconds_def event_key_def)

lemma reach_sample: "sm_reach sample_monitor"
proof -
  let ?s0 = "NewServiceMonitor\<lparr>SmRunning := True\<rparr>"
  let ?s1 = "?s0\<lparr>SmCallback := True\<rparr>"
  have c: "\<not> SmCrashed NewServiceMonitor" "\<not> SmCrashed ?s0" "\<not> SmCrashed ?s1" by (simp_all add: NewServiceMonitor_def)
  have "outcome (Start NewServiceMonitor) = ?s0" by (simp add: Start_def NewServiceMonitor_def outcome_def)
  then have r0: "sm_reach ?s0" using reach_call [OF reach_new c(1) call_start] by simp
  have r1: "sm_reach ?s1" using reach_call [OF r0 c(2) call_callback [of _ True]] by (simp add: SetScalingActionCallback_def)
  show ?thesis using reach_call [OF r1 c(3) call_register] register_sample by metis
qed

lemma reach_fired: "sm_reach fired_monitor" "\<not> SmCrashed fired_monitor"
proof -
  have h: "0 < length (SmHeap sample_monitor)" "EvTimer (SmHeap sample_monitor ! 0) = Some 0" "\<not> SmCrashed sample_monitor"
    by (simp_all add: sample_monitor_def sample_event_def new_event_def NewServiceMonitor_def)
  have "(put 0 ((SmHeap sample_monitor ! 0)\<lparr>EvTimer := None\<rparr>) sample_monitor)\<lparr>SmPending := (0, 0) # SmPending sample_monitor\<rparr> = fired_monitor"
    by (simp add: fired_monitor_def sample_monitor_def put_def NewServiceMonitor_def)
  then show "sm_reach fired_monitor" using reach_run [OF reach_sample h(3) timer_fires [OF h(1,2)]] by simp
  show "\<not> SmCrashed fired_monitor" by (simp add: fired_monitor_def sample_monitor_def NewServiceMonitor_def)
qed

text \<open>The second way is real: unregistering between the firing of a timer and its send brings the process down.\<close>

definition released_monitor :: service_monitor where
  "released_monitor = snd (Unregister fired_monitor ''rca'' ''default'')"

lemma released_monitor:
  "fst (Unregister fired_monitor ''rca'' ''default'') = Ok ()" "SmRunning released_monitor" "\<not> SmCrashed released_monitor"
  "SmPending released_monitor = [(0, 0)]" "EvClosed (SmHeap released_monitor ! 0)"
  by (simp_all add: released_monitor_def Unregister_def fired_monitor_def sample_monitor_def sample_event_def new_event_def release_def
      event_key_def NewServiceMonitor_def)

lemma reach_released: "sm_reach released_monitor"
proof -
  have "outcome (Unregister fired_monitor ''rca'' ''default'') = released_monitor"
    using released_monitor(1) by (cases "Unregister fired_monitor ''rca'' ''default''") (simp add: outcome_def released_monitor_def)
  then show ?thesis using reach_call [OF reach_fired call_unregister] by metis
qed

lemma released_run: "sm_run released_monitor (released_monitor\<lparr>SmCrashed := True\<rparr>)"
  by (rule callback_panic [of 0 0]) (simp_all add: released_monitor)

lemma unregister_can_panic:
  "\<exists>s t u. sm_reach s \<and> sm_reach t \<and> t = snd (Unregister s ''rca'' ''default'') \<and> fst (Unregister s ''rca'' ''default'') = Ok () \<and>
     sm_run t u \<and> SmCrashed u"
  by (rule exI [of _ fired_monitor], rule exI [of _ released_monitor], rule exI [of _ "released_monitor\<lparr>SmCrashed := True\<rparr>"])
    (simp add: reach_fired reach_released released_run released_monitor(1), simp add: released_monitor_def)

lemma registered_event_awake_witness:
  "SmRunning sample_monitor \<and> 0 < length (SmHeap sample_monitor) \<and>
     open_event (SmPending sample_monitor) ''default/rca'' 0 (SmHeap sample_monitor ! 0)"
  by (rule registered_event_awake [OF reach_sample]) (simp add: sample_monitor_def)

lemma next_collection_reachable_witness: "collects fired_monitor 0"
  by (rule next_collection_reachable [OF reach_fired, of "''default/rca''"]) (simp_all add: fired_monitor_def sample_monitor_def)

lemma panics_only_unstarted_or_released_witness:
  "(\<exists>i g. (i, g) \<in> set (SmPending released_monitor) \<and> EvClosed (SmHeap released_monitor ! i)) \<and>
   SmCrashed (outcome (RegisterWithCollector NewServiceMonitor ''rca'' ''default'' (Some sample_spec_rca) (GetEffectiveBehavior sample_spec_rca) 0))"
proof
  note p = panics_only_unstarted_or_released
  have "SmCrashed (released_monitor\<lparr>SmCrashed := True\<rparr>)" by simp
  then show "\<exists>i g. (i, g) \<in> set (SmPending released_monitor) \<and> EvClosed (SmHeap released_monitor ! i)"
    using p [OF reach_released released_monitor(3)] released_run by blast
  show "SmCrashed (outcome (RegisterWithCollector NewServiceMonitor ''rca'' ''default'' (Some sample_spec_rca) (GetEffectiveBehavior sample_spec_rca) 0))"
    using p [OF reach_new, of "''rca''" "''default''" sample_spec_rca 0] by (simp add: NewServiceMonitor_def)
qed

section \<open>The registry of watched autoscalers\<close>

text \<open>What the monitor stands for: the cached specification of every registered autoscaler.\<close>

definition watched :: "service_monitor \<Rightarrow> string \<Rightarrow> rca_spec option" where
  "watched s k = (case map_of (SmEvents s) k of None \<Rightarrow> None | Some i \<Rightarrow> EvSpec (SmHeap s ! i))"

definition started :: "service_monitor \<Rightarrow> bool" where
  "started s \<longleftrightarrow> sm_inv s \<and> SmRunning s"

definition do_register :: "int \<Rightarrow> string \<times> string \<Rightarrow> rca_spec \<Rightarrow> service_monitor \<Rightarrow> service_monitor" where
  "do_register now n spec s = snd (RegisterWithCollector s (fst n) (snd n) (Some spec) (GetEffectiveBehavior spec) now)"

definition do_update :: "string \<times> string \<Rightarrow> rca_spec \<Rightarrow> service_monitor \<Rightarrow> service_monitor" where
  "do_update n spec s = snd (UpdateCachedSpec s (fst n) (snd n) (Some spec))"

definition do_unregister :: "string \<times> string \<Rightarrow> service_monitor \<Rightarrow> service_monitor" where
  "do_unregister n s = snd (Unregister s (fst n) (snd n))"

definition name_key :: "string \<times> string \<Rightarrow> string" where
  "name_key n = event_key (fst n) (snd n)"

lemma watched_put:
  assumes "sm_inv s" "map_of (SmEvents s) k = Some i"
  shows "watched (put i ev s) = (watched s)(k := EvSpec ev)"
proof
  fix j
  have i: "i < length (SmHeap s)" by (rule sm_inv_lookup(1) [OF assms])
  show "watched (put i ev s) j = ((watched s)(k := EvSpec ev)) j"
  proof (cases "j = k")
    case True then show ?thesis using assms(2) i by (simp add: watched_def)
  next
    case False
    have "map_of (SmEvents s) j \<noteq> Some i"
      using distinct_ids [OF assms(1) map_of_SomeD map_of_SomeD [OF assms(2)], of j] False by blast
    then show ?thesis using False by (simp add: watched_def split: option.split) (metis nth_list_update_neq)
  qed
qed

lemma watched_delete: "watched (t\<lparr>SmEvents := AList.delete k (SmEvents t)\<rparr>) = (watched t)(k := None)"
proof
  fix j show "watched (t\<lparr>SmEvents := AList.delete k (SmEvents t)\<rparr>) j = ((watched t)(k := None)) j"
    by (cases "j = k") (simp_all add: watched_def delete_conv' split: option.split)
qed

lemma watched_register: "started s \<Longrightarrow> watched (do_register now n spec s) = (watched s)(name_key n \<mapsto> spec)"
proof
  fix j assume s: "started s"
  let ?t = "snd (RegisterWithCollector s (fst n) (snd n) (Some spec) (GetEffectiveBehavior spec) now)"
  have b: "sm_inv s" "SmRunning s" using s by (simp_all add: started_def)
  note r = inv_Register [where spec = spec and name = "fst n" and ns = "snd n" and now = now and b = "GetEffectiveBehavior spec",
      OF b(1) effective_behavior_some]
  obtain h up down where h: "SmHeap ?t = h @ [new_event (fst n) (snd n) (Some spec) up down now]" "length h = length (SmHeap s)"
    "\<forall>(k, i) \<in> set (SmEvents s). k \<noteq> name_key n \<longrightarrow> h ! i = SmHeap s ! i"
    using r(4) [OF b(2)] unfolding name_key_def by blast
  have e: "SmEvents ?t = AList.update (name_key n) (length (SmHeap s)) (SmEvents s)"
    using r(3) [OF b(2)] unfolding name_key_def by simp
  have "EvSpec (SmHeap ?t ! i) = EvSpec (SmHeap s ! i)" if "map_of (SmEvents s) j = Some i" "j \<noteq> name_key n" for i
  proof -
    have "i < length h" "h ! i = SmHeap s ! i"
      using h(2) bspec [OF h(3) map_of_SomeD [OF that(1)]] that(2) sm_inv_lookup(1) [OF b(1) that(1)] by simp_all
    then show ?thesis unfolding h(1) by (simp add: nth_append)
  qed
  moreover have "EvSpec (SmHeap ?t ! length (SmHeap s)) = Some spec" unfolding h(1) by (simp add: nth_append h(2) [symmetric] new_event_def)
  ultimately show "watched (do_register now n spec s) j = ((watched s)(name_key n \<mapsto> spec)) j"
    unfolding do_register_def watched_def e by (simp add: update_conv' split: option.split)
qed

lemma watched_unregister: "started s \<Longrightarrow> watched (do_unregister n s) = (watched s)(name_key n := None)"
proof -
  assume s: "started s"
  show ?thesis
  proof (cases "map_of (SmEvents s) (name_key n)")
    case None
    then have "do_unregister n s = s" by (simp add: do_unregister_def Unregister_def name_key_def)
    moreover have "watched s (name_key n) = None" using None by (simp add: watched_def)
    ultimately show ?thesis by (metis fun_upd_triv)
  next
    case (Some i)
    let ?ev = "(SmHeap s ! i)\<lparr>EvTimer := None, EvDone := True, EvClosed := True\<rparr>"
    have "\<not> EvClosed (SmHeap s ! i)" using sm_inv_lookup(2) [OF _ Some] s by (simp add: started_def open_event_def)
    then have "do_unregister n s = (put i ?ev s)\<lparr>SmEvents := AList.delete (name_key n) (SmEvents s)\<rparr>"
      using Some by (simp add: do_unregister_def Unregister_def release_def name_key_def)
    moreover have "watched ((put i ?ev s)\<lparr>SmEvents := AList.delete (name_key n) (SmEvents s)\<rparr>) = (watched (put i ?ev s))(name_key n := None)"
      using watched_delete [where t = "put i ?ev s" and k = "name_key n"] by simp
    moreover have "watched (put i ?ev s) = (watched s)(name_key n := EvSpec ?ev)"
      by (rule watched_put [OF _ Some]) (use s in \<open>simp add: started_def\<close>)
    ultimately show ?thesis by simp
  qed
qed

lemma watched_update:
  "started s \<Longrightarrow> watched (do_update n spec s) = (if watched s (name_key n) = None then watched s else (watched s)(name_key n \<mapsto> spec))"
proof -
  assume s: "started s"
  show ?thesis
  proof (cases "map_of (SmEvents s) (name_key n)")
    case None then show ?thesis by (simp add: do_update_def UpdateCachedSpec_def name_key_def watched_def)
  next
    case (Some i)
    then have "do_update n spec s = put i ((SmHeap s ! i)\<lparr>EvSpec := Some spec\<rparr>) s"
      by (simp add: do_update_def UpdateCachedSpec_def name_key_def)
    moreover have "watched s (name_key n) \<noteq> None"
      using Some sm_inv_lookup(4) [OF _ Some] s by (simp add: watched_def started_def ev_ok_def)
    moreover have "watched (put i ((SmHeap s ! i)\<lparr>EvSpec := Some spec\<rparr>) s) = (watched s)(name_key n \<mapsto> spec)"
      using watched_put [OF _ Some, of "(SmHeap s ! i)\<lparr>EvSpec := Some spec\<rparr>"] s by (simp add: started_def)
    ultimately show ?thesis by (simp only: if_False)
  qed
qed

lemma started_ops:
  assumes "started s"
  shows "started (do_register now n spec s)" "started (do_update n spec s)" "started (do_unregister n s)"
proof -
  have b: "sm_inv s" "SmRunning s" using assms by (simp_all add: started_def)
  show "started (do_register now n spec s)"
    using inv_Register(1,5) [OF b(1) effective_behavior_some] b(2) by (simp add: started_def do_register_def)
  show "started (do_update n spec s)"
    using inv_UpdateCachedSpec(1) [OF b(1)] b(2) by (auto simp: started_def do_update_def UpdateCachedSpec_def split: option.split)
  show "started (do_unregister n s)"
    using inv_Unregister(1) [OF b(1)] b(2) by (auto simp: started_def do_unregister_def Unregister_def split: option.split sum.split)
qed

interpretation watch: registry started name_key watched "do_register now" do_update do_unregister for now
  by unfold_locales (auto simp: started_ops watched_register watched_update watched_unregister)

text \<open>C18: on a started monitor, any sequence of registrations, updates of the cached specification and
  removals has the effect on the watched autoscalers that it has on a map from names to specifications.\<close>

theorem registration_refines_map:
  assumes "started s"
  shows "watched (fold (exec_op (do_register now) do_update do_unregister) cs s) = fold (spec_op name_key) cs (watched s)"
  using watch.run_refines [OF assms] by blast

lemma registration_refines_map_witness:
  "watched (fold (exec_op (do_register 0) do_update do_unregister) [Del (''rca'', ''default''), Upd (''rca'', ''default'') sample_spec_rca]
     sample_monitor) = fold (spec_op name_key) [Del (''rca'', ''default''), Upd (''rca'', ''default'') sample_spec_rca] (watched sample_monitor)"
  by (rule registration_refines_map) (simp add: started_def reach_inv [OF reach_sample], simp add: sample_monitor_def)

lemma map_list_update_same: "f y = f (xs ! i) \<Longrightarrow> map f (xs[i := y]) = map f xs"
  by (cases "i < length xs") (simp_all add: map_update list_update_same_conv list_update_beyond not_less)

text \<open>Updating the cached specification leaves the two trigger periods of the event as they were at its
  registration: a changed period takes effect only when the autoscaler is registered again.\<close>

lemma update_keeps_periods:
  assumes "UpdateCachedSpec s name ns spec = (r, s')"
  shows "map EvScaleUpTrigger (SmHeap s') = map EvScaleUpTrigger (SmHeap s)"
    "map EvScaleDownTrigger (SmHeap s') = map EvScaleDownTrigger (SmHeap s)"
  using assms by (auto simp: UpdateCachedSpec_def put_def map_list_update_same simp del: map_update split: option.splits)

end
