(* ===== verification/Sample_Cluster.thy ===== *)
theory Sample_Cluster
  imports Claim_Properties
begin

text \<open>
  Concrete environments, on which the properties that assume something of the cluster's answers are
  applied: an empty cluster, where every lookup fails and every write succeeds, and one workload store
  that answers with what was last written.
\<close>

definition empty_cluster :: "'w env" where
  "empty_cluster =
     \<lparr>get_autoscaler = \<lambda>_ w. (Inl NotFound, w), get_template = \<lambda>_ w. (Inl NotFound, w),
      get_workload = \<lambda>_ _ w. (Inl NotFound, w), get_replicaset = \<lambda>_ w. (Inl NotFound, w),
      get_pod = \<lambda>_ w. (Inl NotFound, w), get_service = \<lambda>_ w. (Inl NotFound, w),
      list_endpoints = \<lambda>_ _ w. (Inr [], w), list_templates = \<lambda>_ _ w. (Inr [], w), list_claims = \<lambda>_ _ w. (Inr [], w),
      create_template = \<lambda>_ w. (Inr (), w), delete_template = \<lambda>_ w. (Inr (), w),
      update_workload = \<lambda>_ _ w. (Inr (), w), update_autoscaler = \<lambda>_ w. (Inr (), w), update_status = \<lambda>_ w. (Inr (), w),
      time_now = \<lambda>w. (0, w), set_condition = \<lambda>cs c. c # cs, sha256_hex = \<lambda>s. s, hex_float = \<lambda>_. None,
      pow_frac = \<lambda>_ _. NaN, gpu_order = [], model_order = []\<rparr>"

definition workload_store :: "workload env" where
  "workload_store = empty_cluster\<lparr>get_workload := \<lambda>_ _ w. (Inr w, w), update_workload := \<lambda>_ x _. (Inr (), x)\<rparr>"

definition sample_workload :: "string list \<Rightarrow> workload" where
  "sample_workload names = \<lparr>WlName = ''vllm'', WlNamespace = ''default'', WlGeneration = 3, WlOwners = [],
     WlReplicas = Some 1, WlClaims = map (\<lambda>n. \<lparr>ClaimName = ''c'', ClaimTemplateName = Some n\<rparr>) names,
     WlReadyReplicas = 1, WlAvailableReplicas = 1\<rparr>"

lemma restore_undoes_patch_witness:
  "calls (snd (run_state (do { patch_workload workload_store Deployment ''default'' ''vllm'' ''base'' ''rev'' 2;
      restore_workload workload_store Deployment ''default'' ''vllm'' ''rev'' ''base'' })
      \<lparr>world = sample_workload [''base'', ''nic''], calls = []\<rparr>)) =
   [UpdateWorkload Deployment ((sample_workload [''rev'', ''nic''])\<lparr>WlReplicas := Some 2\<rparr>),
    UpdateWorkload Deployment ((sample_workload [''base'', ''nic''])\<lparr>WlReplicas := Some 2\<rparr>)]"
  using restore_undoes_patch [of workload_store Deployment "''default''" "''vllm''"
      "\<lparr>world = sample_workload [''base'', ''nic''], calls = []\<rparr>" "sample_workload [''base'', ''nic'']"
      "sample_workload [''base'', ''nic'']" "''rev''" "''base''" 2 "(sample_workload [''rev'', ''nic''])\<lparr>WlReplicas := Some 2\<rparr>"
      "(sample_workload [''rev'', ''nic''])\<lparr>WlReplicas := Some 2\<rparr>" "(sample_workload [''rev'', ''nic''])\<lparr>WlReplicas := Some 2\<rparr>"]
  by (simp add: workload_store_def empty_cluster_def sample_workload_def updatePodTemplateResourceClaims_def)

end
