(* ===== verification/Autoscaler_Properties.thy ===== *)
theory Autoscaler_Properties
  imports Autoscaler_Controller Service_Monitor_Properties Sample_Cluster
begin

text \<open>
  The reconciler: what it makes the service monitor watch, what it writes, and in which order it cleans
  up; the handlers of claim events; and what a round does when no metrics arrive.
\<close>

section \<open>Finalizers\<close>

lemma containsString_iff [simp]: "containsString xs s \<longleftrightarrow> s \<in> set xs"
  by (induction xs) auto

lemma removeString_filter: "removeString xs s = filter (\<lambda>x. x \<noteq> s) xs"
  by (induction xs) auto

section \<open>The watched autoscalers\<close>

lemma Start_started: "started m \<Longrightarrow> snd (Start m) = m"
  by (simp add: started_def Start_def)

lemma ensure_started_id: "Watcher c = Some m \<Longrightarrow> started m \<Longrightarrow> Watcher (ensure_started c) = Some m \<and> MonitorSet (ensure_started c) = MonitorSet c"
  by (simp add: ensure_started_def Start_started)

lemma ok_fields [simp]: "Watcher (c\<lparr>Watcher := w\<rparr>) = w" "MonitorSet (c\<lparr>Watcher := w\<rparr>) = MonitorSet c"
  by simp_all

lemma Unregister_total:
  assumes "started m"
  shows "\<exists>r. Unregister m name ns = (r, do_unregister (name, ns) m) \<and> (r = Ok () \<or> (\<exists>x. r = Fail x))"
proof -
  obtain r m' where u: "Unregister m name ns = (r, m')" by fastforce
  have "\<not> (\<exists>x. r = Crash x)" using inv_Unregister(2) [of m name ns] assms u by (simp add: started_def)
  then have "r = Ok () \<or> (\<exists>x. r = Fail x)"
    using u by (auto simp: Unregister_def release_def split: option.splits sum.splits if_splits)
  then show ?thesis using u by (simp add: do_unregister_def)
qed

lemma unregister_watch_started:
  assumes "Watcher c = Some m" "started m"
  shows "unregister_watch c name ns = (Ok (), c\<lparr>Watcher := Some (do_unregister (name, ns) m)\<rparr>)"
proof -
  obtain r where "Unregister m name ns = (r, do_unregister (name, ns) m)" "r = Ok () \<or> (\<exists>x. r = Fail x)"
    using Unregister_total [OF assms(2)] by blast
  then show ?thesis using assms(1) by (auto simp: unregister_watch_def)
qed

lemma IsRegistered_watched:
  assumes "started m"
  shows "IsRegistered m name ns \<longleftrightarrow> watched m (name_key (name, ns)) \<noteq> None"
proof -
  have "EvSpec (SmHeap m ! i) \<noteq> None" if "map_of (SmEvents m) (event_key name ns) = Some i" for i
    using sm_inv_lookup(4) [OF _ that] assms by (simp add: started_def ev_ok_def)
  then show ?thesis by (auto simp: IsRegistered_def watched_def name_key_def split: option.split)
qed

lemma UpdateCachedSpec_registered:
  "IsRegistered m name ns \<Longrightarrow> UpdateCachedSpec m name ns (Some sp) = (Ok (), do_update (name, ns) sp m)"
  by (auto simp: UpdateCachedSpec_def do_update_def IsRegistered_def)

lemma NewRegisteration_started:
  assumes "started m"
  shows "NewRegisteration m a now = (Ok (), do_register now (AsName a, AsNamespace a) (Spec a) m)"
proof -
  have m: "sm_inv m" "SmRunning m" using assms by (simp_all add: started_def)
  show ?thesis
    using inv_Register(2) [OF m(1) effective_behavior_some m(2)]
    by (simp add: NewRegisteration_def do_register_def prod_eq_iff)
qed

text \<open>What one round of reconciliation means for the watched autoscalers, by what the cluster answered.\<close>

definition tracked :: "(api_error + autoscaler) \<Rightarrow> string \<Rightarrow> string \<Rightarrow> (string \<Rightarrow> rca_spec option) \<Rightarrow> string \<Rightarrow> rca_spec option" where
  "tracked got ns name m =
     (case got of
        Inl err \<Rightarrow> if err = NotFound then m(name_key (name, ns) := None) else m
      | Inr a \<Rightarrow>
          if FinalizerName \<notin> set (AsFinalizers a) then m
          else m(name_key (AsName a, AsNamespace a) := (if AsDeletion a = None then Some (Spec a) else None)))"

definition survives :: "'a res \<Rightarrow> bool" where
  "survives r = (case r of Inr _ \<Rightarrow> True | Inl (Error _) \<Rightarrow> True | _ \<Rightarrow> False)"

lemma survives_simps [simp]: "survives (Inr x)" "survives (Inl f) \<longleftrightarrow> (\<exists>m. f = Error m)"
  by (auto simp: survives_def split: fault.split)

lemma finish_controller: "snd (fst (run_state (finish_status e c a) s)) = c"
  by (simp add: finish_status_def updateStatus_def emit_def split: prod.split)

lemma watch_autoscaler_tracks:
  assumes "Watcher c = Some m" "started m" "MonitorSet c"
  shows "\<exists>m'. Watcher (snd (fst (run_state (watch_autoscaler e c a) s))) = Some m' \<and> started m' \<and>
    watched m' = (watched m)(name_key (AsName a, AsNamespace a) \<mapsto> Spec a)"
proof -
  let ?n = "(AsName a, AsNamespace a)"
  show ?thesis
  proof (cases "IsRegistered m (AsName a) (AsNamespace a)")
    case True
    let ?m = "do_update ?n (Spec a) m"
    have "snd (fst (run_state (watch_autoscaler e c a) s)) = c\<lparr>Watcher := Some ?m\<rparr>"
      using True assms(1,3) by (simp add: watch_autoscaler_def UpdateCachedSpec_registered finish_controller)
    moreover have "watched ?m = (watched m)(name_key ?n \<mapsto> Spec a)"
    proof -
      have "watched m (name_key ?n) \<noteq> None" using IsRegistered_watched [OF assms(2), of "AsName a" "AsNamespace a"] True by blast
      then show ?thesis unfolding watched_update [OF assms(2), of ?n "Spec a"] by (rule if_not_P)
    qed
    ultimately show ?thesis using started_ops(2) [OF assms(2)] by auto
  next
    case False
    obtain now w where n: "time_now e (world s) = (now, w)" by fastforce
    let ?m = "do_register now ?n (Spec a) m"
    have "snd (fst (run_state (watch_autoscaler e c a) s)) = c\<lparr>Watcher := Some ?m\<rparr>"
      using False assms(1,3) n by (simp add: watch_autoscaler_def NewRegisteration_started [OF assms(2)] observe_def finish_controller)
    then show ?thesis using started_ops(1) [OF assms(2)] watched_register [OF assms(2)] by auto
  qed
qed

lemma discover_keeps:
  "fst (run_state (discover_target e a) s) = Inr b \<Longrightarrow> AsName b = AsName a \<and> AsNamespace b = AsNamespace a \<and> Spec b = Spec a"
  by (auto simp: discover_target_def observe_def add_condition_def Let_def split: if_splits prod.splits sum.splits fault.splits option.splits)

lemma discover_survives: "survives (fst (run_state (discover_target e a) s)) \<Longrightarrow> \<exists>b. fst (run_state (discover_target e a) s) = Inr b"
  by (auto simp: discover_target_def observe_def survives_def Let_def split: if_splits prod.splits sum.splits fault.splits option.splits)

lemma reconcile_missing:
  assumes "run_state (Reconcile e ns name c) s = ((r, c'), s')" "Watcher (ensure_started c) = Some m" "started m"
    and "fst (get_autoscaler e (ns, name) (world s)) = Inl err"
  shows "\<exists>m'. Watcher c' = Some m' \<and> started m' \<and> watched m' = tracked (Inl err) ns name (watched m)"
proof -
  obtain w where g: "get_autoscaler e (ns, name) (world s) = (Inl err, w)" using assms(4) by (metis prod.collapse)
  then show ?thesis
    using assms(1,2,3) unregister_watch_started [OF assms(2,3)] watched_unregister [OF assms(3)] started_ops(3) [OF assms(3)]
    by (auto simp: Reconcile_def observe_def tracked_def Let_def split: if_splits)
qed

lemma reconcile_going:
  assumes "run_state (Reconcile e ns name c) s = ((r, c'), s')" "Watcher (ensure_started c) = Some m" "started m"
    and "fst (get_autoscaler e (ns, name) (world s)) = Inr a" "AsDeletion a \<noteq> None"
  shows "\<exists>m'. Watcher c' = Some m' \<and> started m' \<and> watched m' = tracked (Inr a) ns name (watched m)"
proof -
  obtain w where g: "get_autoscaler e (ns, name) (world s) = (Inr a, w)" using assms(4) by (metis prod.collapse)
  have "c' = ensure_started c \<and> FinalizerName \<notin> set (AsFinalizers a) \<or>
      FinalizerName \<in> set (AsFinalizers a) \<and> Watcher c' = Some (do_unregister (AsName a, AsNamespace a) m)"
    using assms(1,5) g unregister_watch_started [OF assms(2,3)]
    by (auto simp: Reconcile_def observe_def Let_def reconcile_deleted_def updateAutoscaler_def emit_def
        split: if_splits prod.splits sum.splits)
  then show ?thesis using assms(2,3,5) watched_unregister [OF assms(3)] started_ops(3) [OF assms(3)] by (auto simp: tracked_def)
qed

lemma watch_waits:
  "Watcher c = Some m \<Longrightarrow> \<not> MonitorSet c \<Longrightarrow> snd (fst (run_state (watch_autoscaler e c a) s)) = c"
  by (simp add: watch_autoscaler_def wait_for_def updateStatus_def emit_def split: prod.split)

text \<open>Without a monitor, a live autoscaler is not registered yet.\<close>

lemma reconcile_there:
  assumes "run_state (Reconcile e ns name c) s = ((r, c'), s')" "survives r" "Watcher (ensure_started c) = Some m" "started m"
    and "fst (get_autoscaler e (ns, name) (world s)) = Inr a" "AsDeletion a = None"
  shows "\<exists>m'. Watcher c' = Some m' \<and> started m' \<and>
    watched m' = (if MonitorSet (ensure_started c) then tracked (Inr a) ns name (watched m) else watched m)"
proof -
  let ?c = "ensure_started c"
  obtain w where g: "get_autoscaler e (ns, name) (world s) = (Inr a, w)" using assms(5) by (metis prod.collapse)
  show ?thesis
  proof (cases "FinalizerName \<in> set (AsFinalizers a)")
    case False
    then have "c' = ?c" using assms(1,6) g
      by (auto simp: Reconcile_def observe_def Let_def reconcile_live_def updateAutoscaler_def emit_def split: prod.splits)
    then show ?thesis using False assms(3,4,6) by (simp add: tracked_def)
  next
    case fin: True
    obtain d s1 where d: "run_state (discover_target e a) (s\<lparr>world := w\<rparr>) = (d, s1)" by fastforce
    have run: "run_state (Reconcile e ns name c) s = run_state (case d of
        Inl f \<Rightarrow> State_Monad.return (Inl f, ?c) | Inr a \<Rightarrow> watch_autoscaler e ?c a) s1"
      using g assms(6) fin d by (simp add: Reconcile_def observe_def Let_def reconcile_live_def)
    have "\<exists>b. d = Inr b"
      using discover_survives [of e a "s\<lparr>world := w\<rparr>"] d assms(1,2) run by (cases d) auto
    then obtain b where b: "d = Inr b" ..
    have k: "AsName b = AsName a" "AsNamespace b = AsNamespace a" "Spec b = Spec a"
      using discover_keeps [of e a "s\<lparr>world := w\<rparr>" b] d b by simp_all
    have "run_state (watch_autoscaler e ?c b) s1 = ((r, c'), s')" using run b assms(1) by simp
    then show ?thesis
      using watch_autoscaler_tracks [OF assms(3,4), of e b s1] watch_waits [OF assms(3), of e b s1] assms(3,4,6) fin k
      by (auto simp: tracked_def)
  qed
qed

lemma reconcile_watches:
  assumes "run_state (Reconcile e ns name c) s = ((r, c'), s')" "survives r" "Watcher (ensure_started c) = Some m" "started m"
  shows "\<exists>m'. Watcher c' = Some m' \<and> started m' \<and>
    (watched m' = tracked (fst (get_autoscaler e (ns, name) (world s))) ns name (watched m) \<or>
     \<not> MonitorSet (ensure_started c) \<and> watched m' = watched m \<and>
     (\<exists>a. fst (get_autoscaler e (ns, name) (world s)) = Inr a \<and> AsDeletion a = None))"
proof (cases "fst (get_autoscaler e (ns, name) (world s))")
  case (Inl err)
  then show ?thesis using reconcile_missing [OF assms(1,3,4) Inl] by auto
next
  case (Inr a)
  then show ?thesis
    using reconcile_going [OF assms(1,3,4) Inr] reconcile_there [OF assms Inr] by (cases "AsDeletion a = None") (auto split: if_splits)
qed

text \<open>C5: once a Prometheus monitor is set, a round of reconciliation that returns keeps the service monitor started and
  changes what it watches exactly as the cluster's answer asks: an autoscaler that is gone, or being deleted with the
  finalizer, is no longer watched; a live one with the finalizer is watched with its present specification, registered
  or updated; otherwise nothing changes, so what is watched always carries the finalizer that triggers its cleanup.\<close>

theorem reconcile_tracks:
  assumes "run_state (Reconcile e ns name c) s = ((r, c'), s')" "survives r"
    and "Watcher c = Some m" "started m" "MonitorSet c"
  shows "\<exists>m'. Watcher c' = Some m' \<and> started m' \<and>
    watched m' = tracked (fst (get_autoscaler e (ns, name) (world s))) ns name (watched m)"
proof -
  have "Watcher (ensure_started c) = Some m" "MonitorSet (ensure_started c)" using ensure_started_id [OF assms(3,4)] assms(5) by auto
  then show ?thesis using reconcile_watches [OF assms(1,2) _ assms(4)] by blast
qed

section \<open>Deletion\<close>

text \<open>The workload as cleanup writes it: the minimum of the constraints, the original template in every claim
  that names one.\<close>

definition restored_workload :: "autoscaler \<Rightarrow> workload \<Rightarrow> workload" where
  "restored_workload a x = x\<lparr>WlReplicas := Some (cleanup_replicas a),
     WlClaims := restored_claims (case Discovery (Status a) of None \<Rightarrow> [] | Some d \<Rightarrow> ResourceClaim d) (WlClaims x)\<rparr>"

text \<open>The workload an autoscaler has scaled: discovered, with a template, of a kind the controller knows.\<close>

definition scaled_workload :: "autoscaler \<Rightarrow> (workload_kind \<times> key) option" where
  "scaled_workload a =
     (if \<not> has_template a then None
      else case status_owner a of
        None \<Rightarrow> None
      | Some owner \<Rightarrow> (case workload_kind (OwnerKind owner) of
            None \<Rightarrow> None | Some k \<Rightarrow> Some (k, AsNamespace a, OwnerName owner)))"

text \<open>The calls that leave the scaled workload restored: none when there is none, or it is gone.\<close>

definition restored :: "'w env \<Rightarrow> autoscaler \<Rightarrow> 'w \<Rightarrow> api_call list \<Rightarrow> bool" where
  "restored e a w cs =
     (case scaled_workload a of
        None \<Rightarrow> cs = []
      | Some (k, key) \<Rightarrow>
          (case get_workload e k key w of
             (Inl err, _) \<Rightarrow> err = NotFound \<and> cs = []
           | (Inr x, w') \<Rightarrow> fst (update_workload e k (restored_workload a x) w') = Inr () \<and>
               cs = [UpdateWorkload k (restored_workload a x)]))"

lemma cleanup_outcome:
  assumes "has_template a" "run_state (cleanupWorkload e a) s = (r, s')"
  shows "(r = Ok () \<and> (\<exists>cs. calls s' = calls s @ cs \<and> restored e a (world s) cs)) \<or>
    (\<exists>m. r = Fail m) \<and> (calls s' = calls s \<or> (\<exists>k x. calls s' = calls s @ [UpdateWorkload k (restored_workload a x)]))"
  using assms
  by (auto simp: cleanupWorkload_def has_template_def restored_def scaled_workload_def status_owner_def restored_workload_def
      observe_def updateWorkload_def emit_def split: option.splits sum.splits prod.splits if_splits)

text \<open>C10: the finalizer of a deleted autoscaler is removed last. A reconciliation of it writes nothing, or fails
  after the attempt to restore the workload and keeps the finalizer for a retry, or has restored the scaled
  workload, or found it gone, before its one write of the autoscaler, which removes the finalizer and no other;
  in that case it is no longer registered.\<close>

theorem finalizer_removed_last:
  assumes "run_state (reconcile_deleted e c a) s = ((r, c'), s')" "Watcher c = Some m" "started m"
  shows "calls s' = calls s \<or>
    (\<exists>k x. calls s' = calls s @ [UpdateWorkload k (restored_workload a x)] \<and> (\<exists>msg. r = Fail msg)) \<or>
    (\<exists>cs m'. restored e a (world s) cs \<and> Watcher c' = Some m' \<and> \<not> IsRegistered m' (AsName a) (AsNamespace a) \<and>
       calls s' = calls s @ cs @ [UpdateAutoscaler (a\<lparr>AsFinalizers := filter (\<lambda>x. x \<noteq> FinalizerName) (AsFinalizers a)\<rparr>)])"
proof (cases "FinalizerName \<in> set (AsFinalizers a)")
  case False then show ?thesis using assms(1) by (simp add: reconcile_deleted_def)
next
  case True
  let ?m = "do_unregister (AsName a, AsNamespace a) m"
  let ?c = "c\<lparr>Watcher := Some ?m\<rparr>"
  let ?b = "a\<lparr>AsFinalizers := filter (\<lambda>x. x \<noteq> FinalizerName) (AsFinalizers a)\<rparr>"
  have reg: "\<not> IsRegistered ?m (AsName a) (AsNamespace a)"
    using IsRegistered_watched [OF started_ops(3) [OF assms(3)]] watched_unregister [OF assms(3)] by simp
  obtain q s1 where q: "run_state (if has_template a then cleanupWorkload e a else State_Monad.return (Ok ())) s = (q, s1)" by fastforce
  have run: "run_state (reconcile_deleted e c a) s = run_state (case q of
        Inl f \<Rightarrow> State_Monad.return (Inl f, ?c)
      | Inr _ \<Rightarrow> do {
          u \<leftarrow> updateAutoscaler e ?b;
          State_Monad.return (case u of Inl _ \<Rightarrow> Fail ''failed to remove finalizer'' | Inr _ \<Rightarrow> Ok Done, ?c)
        }) s1"
    using True q by (simp add: reconcile_deleted_def unregister_watch_started [OF assms(2,3)] removeString_filter)
  have out: "(q = Ok () \<and> (\<exists>cs. calls s1 = calls s @ cs \<and> restored e a (world s) cs)) \<or>
    (\<exists>m. q = Fail m) \<and> (calls s1 = calls s \<or> (\<exists>k x. calls s1 = calls s @ [UpdateWorkload k (restored_workload a x)]))"
  proof (cases "has_template a")
    case True then show ?thesis using cleanup_outcome [OF True, of e s q s1] q by simp
  next
    case False then show ?thesis using q by (simp add: restored_def scaled_workload_def)
  qed
  then show ?thesis
  proof (elim disjE conjE exE)
    fix msg assume "q = Fail msg" "calls s1 = calls s"
    then show ?thesis using run assms(1) by simp
  next
    fix msg k x assume "q = Fail msg" "calls s1 = calls s @ [UpdateWorkload k (restored_workload a x)]"
    then show ?thesis using run assms(1) by auto
  next
    fix cs assume cs: "q = Ok ()" "calls s1 = calls s @ cs" "restored e a (world s) cs"
    then have "Watcher c' = Some ?m \<and> calls s' = calls s1 @ [UpdateAutoscaler ?b]"
      using run assms(1) by (auto simp: updateAutoscaler_def emit_def split: prod.splits)
    then show ?thesis using cs reg by (intro disjI2 exI [of _ cs] exI [of _ ?m]) simp
  qed
qed

section \<open>What a reconciliation may write\<close>

text \<open>\<open>own_write e k c\<close>: of the autoscaler with key \<open>k\<close>, a status write changes the conditions and a
  discovery not made before; an object write changes finalizers only, and of those the controller's own only; the one
  workload written is what the cluster answers for the discovered owner of an autoscaler that is being deleted,
  with its replicas and claims restored; templates are not touched.\<close>

definition keeps_discovery :: "autoscaler \<Rightarrow> autoscaler \<Rightarrow> bool" where
  "keeps_discovery b a \<longleftrightarrow>
     a = b\<lparr>Status := (Status b)\<lparr>Discovery := Discovery (Status a), Conditions := Conditions (Status a)\<rparr>\<rparr> \<and>
     (Discovery (Status b) = None \<or> Discovery (Status a) = Discovery (Status b))"

definition own_write :: "'w env \<Rightarrow> key \<Rightarrow> api_call \<Rightarrow> bool" where
  "own_write e k c = (case c of
     UpdateStatus a \<Rightarrow> (\<exists>b. fetched e k b \<and> AsDeletion b = None \<and> keeps_discovery b a)
   | UpdateAutoscaler a \<Rightarrow> (\<exists>b. fetched e k b \<and> a = b\<lparr>AsFinalizers := AsFinalizers a\<rparr> \<and>
       (FinalizerName \<in> set (AsFinalizers a) \<longleftrightarrow> AsDeletion b = None) \<and>
       filter (\<lambda>x. x \<noteq> FinalizerName) (AsFinalizers a) = filter (\<lambda>x. x \<noteq> FinalizerName) (AsFinalizers b))
   | UpdateWorkload kind x \<Rightarrow> (\<exists>b key u y u'. fetched e k b \<and> AsDeletion b \<noteq> None \<and> FinalizerName \<in> set (AsFinalizers b) \<and>
       scaled_workload b = Some (kind, key) \<and> get_workload e kind key u = (Inr y, u') \<and> x = restored_workload b y)
   | _ \<Rightarrow> False)"

lemma keeps_refl: "keeps_discovery b b"
  by (simp add: keeps_discovery_def)

lemma keeps_condition: "keeps_discovery b a \<Longrightarrow> keeps_discovery b (add_condition e a ty ok reason msg)"
proof -
  assume k: "keeps_discovery b a"
  then obtain d cs where "a = b\<lparr>Status := (Status b)\<lparr>Discovery := d, Conditions := cs\<rparr>\<rparr>" unfolding keeps_discovery_def by blast
  then show ?thesis using k by (simp add: keeps_discovery_def add_condition_def)
qed

lemma reads_discover: "reads (discover_target e a)"
  unfolding discover_target_def Let_def by (intro writes)

lemma discover_keeps_discovery: "fst (run_state (discover_target e a) s) = Inr b \<Longrightarrow> keeps_discovery a b"
  by (auto simp: discover_target_def observe_def add_condition_def Let_def keeps_discovery_def
      split: if_splits prod.splits sum.splits fault.splits option.splits)

lemma own_status:
  assumes "fetched e k b" "AsDeletion b = None" "keeps_discovery b a"
  shows "writes (own_write e k) (updateStatus e a)"
  using assms by (intro writes_updateStatus) (auto simp: own_write_def keeps_discovery_def)

lemma own_watch:
  assumes "fetched e k b" "AsDeletion b = None" "keeps_discovery b a"
  shows "writes (own_write e k) (watch_autoscaler e c a)"
proof -
  note st = own_status [OF assms(1,2)] keeps_condition assms(3)
  show ?thesis
    unfolding watch_autoscaler_def wait_for_def finish_status_def
    by (auto intro!: writes st split: fault.split)
qed

lemma own_live:
  assumes "fetched e k a" "AsDeletion a = None"
  shows "writes (own_write e k) (reconcile_live e c a)"
proof -
  have live: "writes (own_write e k) (do { r \<leftarrow> discover_target e a; case r of Inl f \<Rightarrow> State_Monad.return (Inl f, c) | Inr a \<Rightarrow> watch_autoscaler e c a })"
  proof (rule writes_tie)
    fix s r s' assume d: "run_state (discover_target e a) s = (r, s')"
    have "calls s' = calls s" by (rule readsD [OF reads_discover d])
    moreover have "keeps_discovery a b" if "r = Inr b" for b using discover_keeps_discovery [of e a s b] d that by simp
    ultimately show "(\<exists>cs. calls s' = calls s @ cs \<and> list_all (own_write e k) cs) \<and>
        writes (own_write e k) (case r of Inl f \<Rightarrow> State_Monad.return (Inl f, c) | Inr a \<Rightarrow> watch_autoscaler e c a)"
      using assms by (cases r) (auto intro!: writes own_watch)
  qed
  have "writes (own_write e k) (updateAutoscaler e (a\<lparr>AsFinalizers := AsFinalizers a @ [FinalizerName]\<rparr>))"
    using assms by (intro writes_updateAutoscaler) (auto simp: own_write_def)
  then show ?thesis unfolding reconcile_live_def by (rule writes_if [OF writes_bind [OF _ writes_return] live])
qed

lemma own_cleanup:
  assumes "fetched e k a" "AsDeletion a \<noteq> None" "FinalizerName \<in> set (AsFinalizers a)" "has_template a"
  shows "writes (own_write e k) (cleanupWorkload e a)"
proof -
  obtain d where d: "Discovery (Status a) = Some d" using assms(4) by (auto simp: has_template_def split: option.splits)
  show ?thesis
  proof (cases "Owner d \<bind> (\<lambda>owner. map_option (Pair owner) (workload_kind (OwnerKind owner)))")
    case None
    then show ?thesis by (auto simp: cleanupWorkload_def d writes split: option.splits)
  next
    case (Some p)
    then obtain owner kind where o: "Owner d = Some owner" "workload_kind (OwnerKind owner) = Some kind" by (cases "Owner d") auto
    then have key: "scaled_workload a = Some (kind, AsNamespace a, OwnerName owner)"
      using assms(4) d by (simp add: scaled_workload_def status_owner_def)
    show ?thesis unfolding cleanupWorkload_def d o option.case
    proof (rule writes_observe_bind)
      fix u r u' assume g: "get_workload e kind (AsNamespace a, OwnerName owner) u = (r, u')"
      have "own_write e k (UpdateWorkload kind (w\<lparr>WlReplicas := Some (cleanup_replicas a),
          WlClaims := restored_claims (ResourceClaim d) (WlClaims w)\<rparr>))" if "r = Inr w" for w
        unfolding own_write_def api_call.case using assms key g that d by (intro exI conjI) (auto simp: restored_workload_def)
      then show "writes (own_write e k) (case r of
          Inl err \<Rightarrow> State_Monad.return (if err = NotFound then Ok () else Fail ''failed to get workload'')
        | Inr w \<Rightarrow> do {
            u \<leftarrow> updateWorkload e kind (w\<lparr>WlReplicas := Some (cleanup_replicas a),
                   WlClaims := restored_claims (ResourceClaim d) (WlClaims w)\<rparr>);
            State_Monad.return (case u of Inl _ \<Rightarrow> Fail ''failed to update workload'' | Inr _ \<Rightarrow> Ok ())
          })"
        by (cases r) (auto intro!: writes writes_updateWorkload)
    qed
  qed
qed

lemma own_deleted:
  assumes "fetched e k a" "AsDeletion a \<noteq> None"
  shows "writes (own_write e k) (reconcile_deleted e c a)"
proof (cases "FinalizerName \<in> set (AsFinalizers a)")
  case False then show ?thesis by (simp add: reconcile_deleted_def writes)
next
  case True
  have "own_write e k (UpdateAutoscaler (a\<lparr>AsFinalizers := removeString (AsFinalizers a) FinalizerName\<rparr>))"
    using assms by (auto simp: own_write_def removeString_filter)
  note fin = writes_updateAutoscaler [where P = "own_write e k", OF this]
  have clean: "writes (own_write e k) (if has_template a then cleanupWorkload e a else State_Monad.return (Ok ()))"
    using own_cleanup [OF assms True] by (simp add: writes)
  show ?thesis unfolding reconcile_deleted_def by (intro clean fin writes_if writes_prod writes_sum writes_return writes_bind)
qed

text \<open>C24: whatever the cluster answers, a reconciliation writes only its own autoscaler, as fetched, and one workload. Of a
  live autoscaler it writes the conditions and a discovery that was not known before, every other part of the status
  kept, and the finalizer it adds; of one that is being deleted it removes that finalizer, and writes the workload the
  cluster answers for the discovered owner (its kind, namespace and name), restored to the minimum of replicas and the
  original template.\<close>

theorem reconcile_frame:
  "\<exists>cs. calls (snd (run_state (Reconcile e ns name c) s)) = calls s @ cs \<and> list_all (own_write e (ns, name)) cs"
proof -
  have "writes (own_write e (ns, name)) (Reconcile e ns name c)"
    unfolding Reconcile_def Let_def
  proof (rule writes_observe_bind)
    fix w r w' assume "get_autoscaler e (ns, name) w = (r, w')"
    then have "fetched e (ns, name) a" if "r = Inr a" for a using that unfolding fetched_def by blast
    then show "writes (own_write e (ns, name)) (case r of
        Inl err \<Rightarrow> if err = NotFound then
            (case unregister_watch (ensure_started c) name ns of
               (Inl f, c) \<Rightarrow> State_Monad.return (Inl f, c) | (Inr _, c) \<Rightarrow> State_Monad.return (Ok Done, c))
          else State_Monad.return (Fail ''failed to get ResourceClaimAutoscaler'', ensure_started c)
      | Inr a \<Rightarrow> if AsDeletion a = None then reconcile_live e (ensure_started c) a else reconcile_deleted e (ensure_started c) a)"
      by (cases r) (auto intro!: writes own_live own_deleted)
  qed
  then show ?thesis unfolding writes_def by blast
qed

section \<open>Claim events\<close>

text \<open>The controller and the scaler refresh the replica counts in the same way.\<close>

lemma replica_status_agree: "updateReplicaStatus e a owner = updateReplicaStatusFromOwner e a owner"
  unfolding updateReplicaStatus_def updateReplicaStatusFromOwner_def with_replicas_def Let_def
  by (simp cong: option.case_cong sum.case_cong)

text \<open>What the handler of a deleted claim may write: of its autoscaler the counts of ready and available replicas, as
  the cluster answers them for the discovered owner, and nothing else, when the claim came from the desired template; the deletion of the claim's template, when it is neither desired nor
  original.\<close>

definition gone_write :: "'w env \<Rightarrow> string \<Rightarrow> string \<Rightarrow> string \<Rightarrow> api_call \<Rightarrow> bool" where
  "gone_write e ns name template c = (case c of
     UpdateStatus a \<Rightarrow> (\<exists>b owner k u y u'. fetched e (ns, name) b \<and> desired_template b = template \<and> template \<noteq> [] \<and>
       status_owner b = Some owner \<and> workload_kind (OwnerKind owner) = Some k \<and>
       get_workload e k (AsNamespace b, OwnerName owner) u = (Inr y, u') \<and>
       a = b\<lparr>Status := (Status b)\<lparr>ScalingStatus := Some ((get_or (ScalingStatus (Status b)) empty_scaling_status)
             \<lparr>ReadyReplicas := Some (WlReadyReplicas y), AvailableReplicas := Some (WlAvailableReplicas y)\<rparr>)\<rparr>\<rparr>)
   | DeleteTemplateCall k \<Rightarrow> (\<exists>a d w r w'. fetched e (ns, name) a \<and> Discovery (Status a) = Some d \<and> desired_template a \<noteq> [] \<and>
       template \<noteq> desired_template a \<and> template \<noteq> ResourceClaim d \<and> get_template e (ns, template) w = (r, w') \<and>
       k = (case r of Inl _ \<Rightarrow> ([], []) | Inr t \<Rightarrow> (CtNamespace t, CtName t)))
   | _ \<Rightarrow> False)"

lemma gone_delete:
  assumes "fetched e (ns, name) a" "Discovery (Status a) = Some d" "desired_template a \<noteq> []" "template \<noteq> desired_template a" "template \<noteq> ResourceClaim d"
  shows "writes (gone_write e ns name template) (DeleteTemplate e template ns)"
  unfolding DeleteTemplate_def
proof (rule writes_observe_bind)
  fix w r w' assume g: "get_template e (ns, template) w = (r, w')"
  have "gone_write e ns name template (DeleteTemplateCall (case r of Inl _ \<Rightarrow> ([], []) | Inr t \<Rightarrow> (CtNamespace t, CtName t)))"
    unfolding gone_write_def api_call.case using assms g by blast
  then show "writes (gone_write e ns name template) (case r of
       Inl err \<Rightarrow>
         if err \<noteq> NotFound then State_Monad.return (Fail ''failed to get template'')
         else do {
           u \<leftarrow> deleteTemplate e ([], []);
           State_Monad.return (case u of Inl err \<Rightarrow> if err = NotFound then Ok () else Fail ''failed to delete template'' | Inr _ \<Rightarrow> Ok ())
         }
     | Inr t \<Rightarrow> do {
         u \<leftarrow> deleteTemplate e (CtNamespace t, CtName t);
         State_Monad.return (case u of Inl err \<Rightarrow> if err = NotFound then Ok () else Fail ''failed to delete template'' | Inr _ \<Rightarrow> Ok ())
       })"
    by (cases r) (auto intro!: writes writes_deleteTemplate)
qed

lemma gone_refresh:
  assumes "fetched e (ns, name) a" "desired_template a = template" "template \<noteq> []" "status_owner a = Some owner"
  shows "writes (gone_write e ns name template) (updateReplicaStatus e a owner)"
proof (cases "workload_kind (OwnerKind owner)")
  case None then show ?thesis by (simp add: updateReplicaStatus_def Let_def writes)
next
  case (Some k)
  let ?st = "get_or (ScalingStatus (Status a)) empty_scaling_status"
  show ?thesis unfolding updateReplicaStatus_def Let_def Some option.case
  proof (rule writes_observe_bind)
    fix u r u' assume g: "get_workload e k (AsNamespace (a\<lparr>Status := (Status a)\<lparr>ScalingStatus := Some ?st\<rparr>\<rparr>), OwnerName owner) u = (r, u')"
    have "gone_write e ns name template (UpdateStatus (a\<lparr>Status := (Status a)\<lparr>ScalingStatus := Some (with_replicas w ?st)\<rparr>\<rparr>))"
      if "r = Inr w" for w
      unfolding gone_write_def api_call.case using assms Some g that by (intro exI conjI) (auto simp: with_replicas_def)
    then show "writes (gone_write e ns name template) (case r of
           Inl _ \<Rightarrow> State_Monad.return (Fail ''failed to get workload'', a\<lparr>Status := (Status a)\<lparr>ScalingStatus := Some ?st\<rparr>\<rparr>)
         | Inr w \<Rightarrow> updateStatus e (a\<lparr>Status := (Status a)\<lparr>ScalingStatus := Some ?st\<rparr>, Status := (Status (a\<lparr>Status := (Status a)\<lparr>ScalingStatus := Some ?st\<rparr>\<rparr>))\<lparr>ScalingStatus := Some (with_replicas w ?st)\<rparr>\<rparr>) \<bind>
             (\<lambda>u. State_Monad.return (case u of Inl _ \<Rightarrow> Fail ''failed to update autoscaler status'' | Inr _ \<Rightarrow> Ok (),
               a\<lparr>Status := (Status a)\<lparr>ScalingStatus := Some ?st\<rparr>, Status := (Status (a\<lparr>Status := (Status a)\<lparr>ScalingStatus := Some ?st\<rparr>\<rparr>))\<lparr>ScalingStatus := Some (with_replicas w ?st)\<rparr>\<rparr>)))"
      by (cases r) (auto intro!: writes writes_updateStatus)
  qed
qed

text \<open>C36: whatever the cluster answers, the handler of a deleted claim makes only two kinds of writes. When the claim
  came from the desired template it writes the ready and available replicas the cluster answers for the discovered owner
  into the status of its autoscaler, everything else kept. Otherwise it deletes the template the claim came from, never
  the desired or the discovered one; it does not ask whether other claims still come from that template.\<close>

theorem deleted_claim_spares_templates:
  "\<exists>cs. calls (snd (run_state (after_claim_deleted e claim name template) s)) = calls s @ cs \<and>
     list_all (gone_write e (RcNamespace claim) name template) cs"
proof -
  have "writes (gone_write e (RcNamespace claim) name template) (after_claim_deleted e claim name template)"
    unfolding after_claim_deleted_def
  proof (rule writes_observe_bind)
    fix w r w' assume "get_autoscaler e (RcNamespace claim, name) w = (r, w')"
    then have f: "fetched e (RcNamespace claim, name) a" if "r = Inr a" for a using that unfolding fetched_def by blast
    note gone = gone_refresh [OF f] gone_delete [OF f]
    show "writes (gone_write e (RcNamespace claim) name template) (case r of
       Inl _ \<Rightarrow> State_Monad.return ()
     | Inr a \<Rightarrow>
         if desired_template a = [] then State_Monad.return ()
         else if desired_template a = template then
           (case status_owner a of
              None \<Rightarrow> State_Monad.return ()
            | Some owner \<Rightarrow> do { _ \<leftarrow> updateReplicaStatus e a owner; State_Monad.return () })
         else (case Discovery (Status a) of
              None \<Rightarrow> State_Monad.return ()
            | Some d \<Rightarrow> if template \<noteq> ResourceClaim d
                then do { _ \<leftarrow> DeleteTemplate e template (RcNamespace claim); State_Monad.return () }
                else State_Monad.return ()))"
      by (auto intro!: writes gone split: sum.split option.split)
  qed
  then show ?thesis unfolding writes_def by blast
qed

section \<open>The scaling callback\<close>

lemma frame_record_failure: "writes (frame e (ns, name)) (record_failure e name ns)"
  unfolding record_failure_def
proof (rule writes_observe_bind)
  fix w r w' assume "get_autoscaler e (ns, name) w = (r, w')"
  then have "fetched e (ns, name) a" if "r = Inr a" for a using that unfolding fetched_def by blast
  then show "writes (frame e (ns, name)) (case r of
      Inl err \<Rightarrow> State_Monad.return (Inl err)
    | Inr a \<Rightarrow> updateStatus e (add_condition e a ''ScalingActive'' False ''ScalingFailed'' ''Failed to scale: ''))"
    by (cases r) (auto intro!: writes frame_status status_write_fetched simp: add_condition_def)
qed

text \<open>With a retry that only repeats its function, the callback stays inside the frame of a round, and a round
  that failed with an error is followed by attempts to record it and reported as handled: the only failures
  that leave the callback are panics and divergence.\<close>

lemma scaling_callback_frame:
  assumes "\<And>P m. writes P m \<Longrightarrow> writes P (retry m)"
  shows "(\<exists>cs. calls (snd (run_state (handleScalingAction e retry name ns spec metrics) s)) = calls s @ cs \<and>
      list_all (frame e (ns, name)) cs) \<and>
    fst (run_state (handleScalingAction e retry name ns spec metrics) s) \<noteq> Fail msg"
proof
  have e: "writes (frame e (ns, name)) (EvaluateAndScale e name ns spec metrics)"
    unfolding EvaluateAndScale_def Let_def by (intro writes frame_apply writes_reads [OF reads_offsets])
  have "writes (frame e (ns, name)) (handleScalingAction e retry name ns spec metrics)"
    unfolding handleScalingAction_def using e assms [OF frame_record_failure]
    by (auto intro!: writes split: sum.split fault.split)
  then show "\<exists>cs. calls (snd (run_state (handleScalingAction e retry name ns spec metrics) s)) = calls s @ cs \<and>
      list_all (frame e (ns, name)) cs" unfolding writes_def by blast
  obtain r s' where "run_state (EvaluateAndScale e name ns spec metrics) s = (r, s')" by fastforce
  then show "fst (run_state (handleScalingAction e retry name ns spec metrics) s) \<noteq> Fail msg"
    by (auto simp: handleScalingAction_def split: sum.split fault.split prod.split)
qed

section \<open>A round without a rate\<close>

text \<open>The counts of GPUs are those of a 32-bit integer, and a replica has at least one.\<close>

definition counts_fit :: "int \<Rightarrow> resource_configuration \<Rightarrow> resource_configuration \<Rightarrow> bool" where
  "counts_fit L current desired \<longleftrightarrow> L < 2 ^ 31 \<and> 0 \<le> gpus current \<and> gpus current < 2 ^ 31 \<and>
     0 \<le> gpus desired \<and> gpus desired < 2 ^ 31 \<and> 1 \<le> GPUsPerReplica desired \<and> GPUsPerReplica desired < 2 ^ 31"

text \<open>What a decision towards a configuration wants: that configuration, or the step towards it the limit allows.\<close>

definition wants :: "autoscaler \<Rightarrow> resource_configuration \<Rightarrow> scaling_decision \<Rightarrow> bool" where
  "wants a desired d \<longleftrightarrow> (case step_limit a (Action d) of
     None \<Rightarrow> DesiredConfig d = desired
   | Some L \<Rightarrow> if L \<le> 0 then DesiredConfig d = desired
       else counts_fit L (CurrentConfig d) desired \<longrightarrow> DesiredConfig d = stepped L (CurrentConfig d) desired)"

lemma wanted_target:
  assumes "determineScalingAction a t desired rate = Ok d" "Action d \<noteq> ActionNone"
  shows "CurrentConfig d = current_configuration a t \<and> wants a desired d"
  using assms(1)
proof (cases rule: determine_cases)
  case none then show ?thesis using assms(2) by simp
next
  case scale
  let ?d = "decide (current_configuration a t) desired"
  note k = limit_keeps [OF scale(3)]
  have "wants a desired d"
  proof (cases "step_limit a (Action d)")
    case None
    then have "d = ?d" using scale(3) k(1) by (simp add: applySingleTimeScalingLimit_def step_limit_def Let_def split: option.splits)
    then show ?thesis using None by (simp add: wants_def)
  next
    case (Some L)
    then have s: "step_limit a (Action ?d) = Some L" using k(1) by simp
    show ?thesis
    proof (cases "L \<le> 0")
      case True
      then have "d = ?d" using scale(3) s by (simp add: applySingleTimeScalingLimit_def step_limit_def Let_def)
      then show ?thesis using Some True by (simp add: wants_def)
    next
      case False
      then have "DesiredConfig d = stepped L (CurrentConfig ?d) (DesiredConfig ?d)" if "counts_fit L (CurrentConfig ?d) (DesiredConfig ?d)"
        using that limit_exact(2) [OF scale(3) s _ _ refl refl _ _ _ _ refl] by (simp add: counts_fit_def)
      then show ?thesis using Some False k by (simp add: wants_def)
    qed
  qed
  then show ?thesis using k by simp
qed

text \<open>A round whose metrics carry no rate aims at the minimum configuration, whatever the service really does.\<close>

definition minimum_target :: "rca_spec \<Rightarrow> resource_configuration" where
  "minimum_target spec =
     (let memory = get_or (capacity_of (SpecConstraints spec) ''memory'' \<bind> CapMin \<bind> (\<lambda>q. Some (QValue q))) (8 * 1024 * 1024 * 1024)
      in \<lparr>Replicas = get_or (SpecConstraints spec \<bind> MinReplicas) 1,
          GPUsPerReplica = get_or (SpecConstraints spec \<bind> MinCountPerReplica) 1,
          RequestedCompute = get_or (capacity_of (SpecConstraints spec) ''compute'' \<bind> CapMin \<bind> (\<lambda>q. Some (AsApproximateFloat64 q))) (Fin 1),
          RequestedMemoryGB = fdiv (i2f memory) (lit 1073741824)\<rparr>)"

lemma minimum_truncated: "resource_configuration.truncate (minimum_configuration spec) = minimum_target spec"
  by (simp add: minimum_configuration_def minimum_target_def Let_def resource_configuration.truncate_def)

lemma no_rate_round:
  assumes "feq (getArrivalRate (hex_float e) m) (Fin 0)" "run_state (EvaluateAndScale e name ns spec m) s = (r, s')"
  shows "calls s' = calls s \<or> (\<exists>a t (d :: scaling_decision) rest a'. fetched e (ns, name) a \<and>
    (\<exists>u v. run_state (getCurrentResourcesFromTemplate e a) u = (t, v)) \<and> calls s' = calls s @ UpdateStatus a' # rest \<and>
    Action d \<noteq> ActionNone \<and> CurrentConfig d = current_configuration a t \<and> wants a (minimum_target spec) d \<and>
    ScalingStatus (Status a') \<bind> DesiredReplicas = Some (wrap32 (Replicas (DesiredConfig d))))"
proof -
  obtain offs s1 where o: "run_state (calculateLatencyOffsets e name ns m) s = (offs, s1)" by fastforce
  have c1: "calls s1 = calls s" by (rule readsD [OF reads_offsets o])
  obtain q s2 where q: "run_state (applyScalingAction e name ns (minimum_configuration spec) (getArrivalRate (hex_float e) m) (Fin 0) (Fin 0)) s1 = (q, s2)"
    by fastforce
  show ?thesis
  proof (cases offs)
    case (Inl f) then show ?thesis using assms o c1 by (simp add: EvaluateAndScale_def Let_def)
  next
    case (Inr p)
    have s2: "s' = s2" using assms o q Inr by (cases p) (simp add: EvaluateAndScale_def Let_def)
    from q show ?thesis
    proof (cases rule: apply_cases)
      case quiet then show ?thesis using c1 s2 by simp
    next
      case (acts a w t s3 d now rest)
      let ?a = "a\<lparr>Status := scaled_status (set_condition e) now a d (EstimatedLatency (minimum_configuration spec)) (Fin 0) (Fin 0)\<rparr>"
      have f1: "fetched e (ns, name) a" using acts(1) unfolding fetched_def by blast
      have f2: "\<exists>u v. run_state (getCurrentResourcesFromTemplate e a) u = (t, v)" using acts(2) by blast
      have f3: "ScalingStatus (Status ?a) \<bind> DesiredReplicas = Some (wrap32 (Replicas (DesiredConfig d)))"
        by (simp add: scaled_status_def Let_def)
      have f4: "calls s' = calls s @ UpdateStatus ?a # rest" using acts(6) c1 s2 by simp
      have f5: "CurrentConfig d = current_configuration a t" "wants a (minimum_target spec) d"
        using wanted_target [OF acts(3,4)] by (simp_all add: minimum_truncated)
      show ?thesis
        by (rule disjI2, rule exI [of _ a], rule exI [of _ t], rule exI [of _ d], rule exI [of _ rest], rule exI [of _ ?a])
           (intro conjI f1 f2 f3 f4 f5 acts(4))
    qed
  qed
qed

section \<open>Samples\<close>

definition live_autoscaler :: autoscaler where
  "live_autoscaler = (sample_autoscaler None [] 8)\<lparr>AsFinalizers := [FinalizerName]\<rparr>"

text \<open>Repeating on conflict, at most so many times.\<close>

fun retry_times :: "nat \<Rightarrow> ('w, api_error + unit) prog \<Rightarrow> ('w, api_error + unit) prog" where
  "retry_times 0 m = State_Monad.return (Inl Conflict)"
| "retry_times (Suc n) m = do { r \<leftarrow> m; if r = Inl Conflict then retry_times n m else State_Monad.return r }"

lemma writes_retry: "writes P m \<Longrightarrow> writes P (retry_times n m)"
  by (induction n) (auto intro!: writes)

lemma scaling_callback_frame_witness:
  "(\<exists>cs. calls (snd (run_state (handleScalingAction empty_cluster (retry_times 5) ''rca'' ''default'' (Spec live_autoscaler) Map.empty)
      \<lparr>world = (), calls = []\<rparr>)) = cs \<and> list_all (frame (empty_cluster :: unit env) (''default'', ''rca'')) cs)"
  using scaling_callback_frame [where retry = "retry_times 5" and e = "empty_cluster :: unit env" and s = "\<lparr>world = (), calls = []\<rparr>"
      and metrics = Map.empty, OF writes_retry] by simp

text \<open>An autoscaler being deleted, another finalizer besides the controller's, and its workload.\<close>

definition dying_autoscaler :: autoscaler where
  "dying_autoscaler = live_autoscaler\<lparr>AsDeletion := Some 0, AsFinalizers := [''other'', FinalizerName],
     Status := (Status live_autoscaler)\<lparr>Discovery := Some \<lparr>Owner = Some \<lparr>OwnerAPIVersion = ''apps/v1'', OwnerKind = ''Deployment'',
       OwnerName = ''vllm'', OwnerUID = ''u2'', OwnerController = None, OwnerBlockDeletion = None\<rparr>, ResourceClaim = ''base''\<rparr>\<rparr>\<rparr>"

definition answering :: "autoscaler \<Rightarrow> workload env" where
  "answering a = workload_store\<lparr>get_autoscaler := \<lambda>_ w. (Inr a, w)\<rparr>"

definition sample_controller :: controller where
  "sample_controller = \<lparr>MonitorOnce = True, Watcher = Some sample_monitor, MonitorSet = True\<rparr>"

lemma started_sample: "started sample_monitor"
  by (simp add: started_def reach_inv [OF reach_sample]) (simp add: sample_monitor_def)

lemma reconcile_tracks_witness:
  "\<exists>m'. Watcher (snd (fst (run_state (Reconcile (answering live_autoscaler) ''default'' ''rca'' sample_controller)
       \<lparr>world = sample_workload [], calls = []\<rparr>))) = Some m' \<and> started m' \<and>
     watched m' = (watched sample_monitor)(name_key (''rca'', ''default'') \<mapsto> Spec live_autoscaler)"
proof -
  let ?s = "\<lparr>world = sample_workload [], calls = []\<rparr>"
  let ?run = "run_state (Reconcile (answering live_autoscaler) ''default'' ''rca'' sample_controller) ?s"
  have reg: "IsRegistered sample_monitor ''rca'' ''default''"
    by (simp add: IsRegistered_def sample_monitor_def event_key_def)
  obtain r c' s' where run: "?run = ((r, c'), s')" by (metis prod.collapse)
  have "r = Ok Done"
    using run UpdateCachedSpec_registered [OF reg, of "Spec live_autoscaler"] reg
    by (simp add: Reconcile_def observe_def answering_def live_autoscaler_def sample_autoscaler_def workload_store_def empty_cluster_def
        sample_controller_def ensure_started_def reconcile_live_def discover_target_def DiscoverFromService_def add_condition_def
        watch_autoscaler_def finish_status_def updateStatus_def emit_def Let_def)
  then have "\<exists>m'. Watcher c' = Some m' \<and> started m' \<and>
    watched m' = tracked (fst (get_autoscaler (answering live_autoscaler) (''default'', ''rca'') (world ?s))) ''default'' ''rca'' (watched sample_monitor)"
    by (intro reconcile_tracks [OF run _ _ started_sample]) (simp_all add: sample_controller_def)
  then show ?thesis unfolding run
    by (simp add: answering_def tracked_def live_autoscaler_def sample_autoscaler_def)
qed

lemma finalizer_removed_last_witness:
  "let s = \<lparr>world = sample_workload [''rev'', ''nic''], calls = []\<rparr>; p = run_state (reconcile_deleted (answering dying_autoscaler) sample_controller dying_autoscaler) s
   in calls (snd p) = [UpdateWorkload Deployment ((sample_workload [''base'', ''base''])\<lparr>WlReplicas := Some 1\<rparr>),
        UpdateAutoscaler (dying_autoscaler\<lparr>AsFinalizers := [''other'']\<rparr>)]"
proof -
  let ?s = "\<lparr>world = sample_workload [''rev'', ''nic''], calls = []\<rparr>"
  let ?run = "run_state (reconcile_deleted (answering dying_autoscaler) sample_controller dying_autoscaler) ?s"
  let ?owner = "\<lparr>OwnerAPIVersion = ''apps/v1'', OwnerKind = ''Deployment'', OwnerName = ''vllm'', OwnerUID = ''u2'',
    OwnerController = None, OwnerBlockDeletion = None\<rparr>"
  have a: "AsName dying_autoscaler = ''rca''" "AsNamespace dying_autoscaler = ''default''" "AsFinalizers dying_autoscaler = [''other'', FinalizerName]"
    "Discovery (Status dying_autoscaler) = Some \<lparr>Owner = Some ?owner, ResourceClaim = ''base''\<rparr>"
    "SpecConstraints (Spec dying_autoscaler) = None"
    by (simp_all add: dying_autoscaler_def live_autoscaler_def sample_autoscaler_def)
  have k: "workload_kind ''Deployment'' = Some Deployment" by (simp add: workload_kind_def WorkloadKindDeployment_def)
  have e: "get_workload (answering x) kind key w = (Inr w, w)" "update_workload (answering x) kind y w = (Inr (), y)"
    "update_autoscaler (answering x) b w = (Inr (), w)" for x kind key w y b
    by (simp_all add: answering_def workload_store_def empty_cluster_def)
  obtain r c' s' where run: "?run = ((r, c'), s')" by (metis prod.collapse)
  have un: "unregister_watch sample_controller ''rca'' ''default'' = (Ok (), sample_controller\<lparr>Watcher := Some (do_unregister (''rca'', ''default'') sample_monitor)\<rparr>)"
    by (rule unregister_watch_started [OF _ started_sample]) (simp add: sample_controller_def)
  have "r = Ok Done" "length (calls s') = 2"
    using run un
    by (auto simp: reconcile_deleted_def a k e has_template_def cleanupWorkload_def observe_def updateWorkload_def
        updateAutoscaler_def emit_def)
  then obtain cs where "restored (answering dying_autoscaler) dying_autoscaler (world ?s) cs"
    "calls s' = calls ?s @ cs @ [UpdateAutoscaler (dying_autoscaler\<lparr>AsFinalizers := filter (\<lambda>x. x \<noteq> FinalizerName) (AsFinalizers dying_autoscaler)\<rparr>)]"
    using finalizer_removed_last [OF run _ started_sample] by (auto simp: sample_controller_def)
  then show ?thesis unfolding Let_def run
    by (simp add: restored_def scaled_workload_def has_template_def status_owner_def a k e restored_workload_def sample_workload_def
        restored_claims_def cleanup_replicas_def FinalizerName_def)
qed

end
