(* ===== verification/System.thy ===== *)
theory System
  imports World_Steps Autoscaler_Properties
begin

text \<open>
  The components together: the controller of autoscalers with its service monitor, in a cluster. A state is the
  controller's record and the world; the steps are the reconciliations, the steps of the service monitor,
  its callbacks, the handlers of claim events, a new monitor, a restart of the process, and whatever else happens in
  the cluster. Reconciliations are one at a time, as controller-runtime runs them by default.
\<close>

section \<open>The API server\<close>

text \<open>\<open>objs w k\<close>: the autoscaler stored under a key. What Kubernetes guarantees of finalizers: an object that has
  one stays, and nobody else removes ours; a write of one object leaves the others; an answer is the stored object,
  under the name it was asked for.\<close>

definition holds_finalizer :: "('w \<Rightarrow> key \<Rightarrow> autoscaler option) \<Rightarrow> 'w \<Rightarrow> key \<Rightarrow> bool" where
  "holds_finalizer objs w k \<longleftrightarrow> (\<exists>a. objs w k = Some a \<and> FinalizerName \<in> set (AsFinalizers a))"

definition keeps :: "('w \<Rightarrow> key \<Rightarrow> autoscaler option) \<Rightarrow> 'w \<Rightarrow> 'w \<Rightarrow> bool" where
  "keeps objs w w' \<longleftrightarrow> (\<forall>k. holds_finalizer objs w k \<longrightarrow> holds_finalizer objs w' k)"

definition autoscaler_key :: "autoscaler \<Rightarrow> key" where
  "autoscaler_key a = (AsNamespace a, AsName a)"

definition api_server :: "('w \<Rightarrow> key \<Rightarrow> autoscaler option) \<Rightarrow> 'w env \<Rightarrow> bool" where
  "api_server objs e \<longleftrightarrow> obeys (keeps objs) e \<and>
     (\<forall>k w a w'. get_autoscaler e k w = (Inr a, w') \<longrightarrow> objs w k = Some a \<and> autoscaler_key a = k) \<and>
     (\<forall>a w k. holds_finalizer objs w k \<longrightarrow> k \<noteq> autoscaler_key a \<or> FinalizerName \<in> set (AsFinalizers a) \<longrightarrow>
        holds_finalizer objs (snd (update_autoscaler e a w)) k)"

lemma api_serverD:
  assumes "api_server objs e"
  shows "obeys (keeps objs) e" "get_autoscaler e k w = (Inr a, w') \<Longrightarrow> objs w k = Some a \<and> autoscaler_key a = k"
    "holds_finalizer objs w k \<Longrightarrow> k \<noteq> autoscaler_key a \<or> FinalizerName \<in> set (AsFinalizers a) \<Longrightarrow>
     holds_finalizer objs (snd (update_autoscaler e a w)) k"
  using assms unfolding api_server_def by blast+

interpretation kept: world_relation "keeps objs" for objs
  by unfold_locales (auto simp: keeps_def)

lemma keepsD: "keeps objs w w' \<Longrightarrow> holds_finalizer objs w k \<Longrightarrow> holds_finalizer objs w' k"
  unfolding keeps_def by blast

lemma moves_keeps: "moves (keeps objs) m \<Longrightarrow> run_state m s = (r, s') \<Longrightarrow> holds_finalizer objs (world s) k \<Longrightarrow> holds_finalizer objs (world s') k"
  unfolding moves_def by (metis keepsD snd_conv)

section \<open>What a reconciliation does to the world\<close>

lemma update_autoscaler_keeps:
  assumes "api_server objs e" "run_state (updateAutoscaler e a) s = (r, s')" "holds_finalizer objs (world s) k"
    and "k \<noteq> autoscaler_key a \<or> FinalizerName \<in> set (AsFinalizers a)"
  shows "holds_finalizer objs (world s') k"
  using api_serverD(3) [OF assms(1,3,4)] assms(2) by (auto simp: updateAutoscaler_def emit_def split: prod.splits)

lemma live_keeps:
  assumes "api_server objs e" "run_state (reconcile_live e c a) s = (r, s')" "holds_finalizer objs (world s) k"
  shows "holds_finalizer objs (world s') k"
proof (cases "FinalizerName \<in> set (AsFinalizers a)")
  case True
  have "moves (keeps objs) (reconcile_live e c a)"
    using True by (simp add: reconcile_live_def) (intro kept.moves_bind kept.moves_cases moves api_serverD(1) [OF assms(1)])
  then show ?thesis using assms(2,3) by (rule moves_keeps)
next
  case False
  let ?b = "a\<lparr>AsFinalizers := AsFinalizers a @ [FinalizerName]\<rparr>"
  obtain u s1 where u: "run_state (updateAutoscaler e ?b) s = (u, s1)" by fastforce
  then have "s' = s1" using assms(2) False by (simp add: reconcile_live_def)
  then show ?thesis using update_autoscaler_keeps [OF assms(1) u assms(3)] by simp
qed

lemma deleted_keeps:
  assumes "api_server objs e" "run_state (reconcile_deleted e c a) s = (r, s')" "holds_finalizer objs (world s) k"
    and "k \<noteq> autoscaler_key a \<or> FinalizerName \<notin> set (AsFinalizers a)"
  shows "holds_finalizer objs (world s') k"
proof (cases "FinalizerName \<in> set (AsFinalizers a)")
  case False then show ?thesis using assms(2,3) by (simp add: reconcile_deleted_def)
next
  case True
  then have k: "k \<noteq> autoscaler_key a" using assms(4) by simp
  let ?b = "a\<lparr>AsFinalizers := removeString (AsFinalizers a) FinalizerName\<rparr>"
  let ?m = "if has_template a then cleanupWorkload e a else State_Monad.return (Ok ())"
  obtain f c1 where un: "unregister_watch c (AsName a) (AsNamespace a) = (f, c1)" by fastforce
  obtain q s1 where q: "run_state ?m s = (q, s1)" by fastforce
  have "moves (keeps objs) ?m" by (intro moves api_serverD(1) [OF assms(1)])
  then have h: "holds_finalizer objs (world s1) k" using q assms(3) by (rule moves_keeps)
  obtain u s2 where u: "run_state (updateAutoscaler e ?b) s1 = (u, s2)" by fastforce
  have h2: "holds_finalizer objs (world s2) k"
    by (rule update_autoscaler_keeps [OF assms(1) u h]) (use k in \<open>simp add: autoscaler_key_def\<close>)
  have "s' = s \<or> s' = s1 \<or> s' = s2"
    using assms(2) True un q u by (auto simp: reconcile_deleted_def split: sum.splits)
  then show ?thesis using assms(3) h h2 by auto
qed

lemma reconcile_world:
  assumes "api_server objs e" "run_state (Reconcile e ns name c) s = (r, s')" "holds_finalizer objs (world s) k"
    and "\<And>a. k = (ns, name) \<Longrightarrow> fst (get_autoscaler e (ns, name) (world s)) = Inr a \<Longrightarrow>
      AsDeletion a = None \<or> FinalizerName \<notin> set (AsFinalizers a)"
  shows "holds_finalizer objs (world s') k"
proof -
  obtain got w where g: "get_autoscaler e (ns, name) (world s) = (got, w)" by fastforce
  have h: "holds_finalizer objs (world (s\<lparr>world := w\<rparr>)) k"
    using keepsD [OF driftsD [OF obeysD(1) [OF api_serverD(1) [OF assms(1)]] g] assms(3)] by simp
  show ?thesis
  proof (cases got)
    case (Inl err)
    then have "s' = s\<lparr>world := w\<rparr>" using assms(2) g
      by (auto simp: Reconcile_def observe_def Let_def split: if_splits sum.splits prod.splits)
    then show ?thesis using h by simp
  next
    case (Inr a)
    then have key: "autoscaler_key a = (ns, name)" using api_serverD(2) [OF assms(1)] g by blast
    show ?thesis
    proof (cases "AsDeletion a")
      case None
      then have "run_state (reconcile_live e (ensure_started c) a) (s\<lparr>world := w\<rparr>) = (r, s')"
        using assms(2) g Inr by (simp add: Reconcile_def observe_def Let_def)
      then show ?thesis using live_keeps [OF assms(1) _ h] by blast
    next
      case (Some t)
      then have "run_state (reconcile_deleted e (ensure_started c) a) (s\<lparr>world := w\<rparr>) = (r, s')"
        using assms(2) g Inr by (simp add: Reconcile_def observe_def Let_def)
      then show ?thesis using deleted_keeps [OF assms(1) _ h] assms(4) g Inr Some key by fastforce
    qed
  qed
qed

section \<open>The steps of the system\<close>

text \<open>A new process: \<open>SetupWithManager\<close> has installed the service monitor and its callback.\<close>

definition setup_watcher :: "controller \<Rightarrow> controller" where
  "setup_watcher c = c\<lparr>Watcher := Some (SetScalingActionCallback (get_or (Watcher c) NewServiceMonitor) True)\<rparr>"

definition new_controller :: controller where
  "new_controller = setup_watcher \<lparr>MonitorOnce = False, Watcher = None, MonitorSet = False\<rparr>"

text \<open>\<open>Reconcile\<close> is asked for keys of the cluster, whose namespaces have no slash. A run that panics or never returns
  is the end of the process, which starts anew with whatever the cluster has become.\<close>

inductive sys_step ::
  "('w \<Rightarrow> key \<Rightarrow> autoscaler option) \<Rightarrow> 'w env \<Rightarrow> (('w, api_error + unit) prog \<Rightarrow> ('w, api_error + unit) prog) \<Rightarrow>
   controller \<times> 'w \<Rightarrow> controller \<times> 'w \<Rightarrow> bool"
  for objs e retry where
  reconciles: "run_state (Reconcile e ns name c) \<lparr>world = w, calls = []\<rparr> = ((r, c'), s') \<Longrightarrow> survives r \<Longrightarrow> CHR ''/'' \<notin> set ns \<Longrightarrow>
     sys_step objs e retry (c, w) (c', world s')"
| watcher_runs: "Watcher c = Some m \<Longrightarrow> sm_run m m' \<Longrightarrow> \<not> SmCrashed m' \<Longrightarrow> sys_step objs e retry (c, w) (c\<lparr>Watcher := Some m'\<rparr>, w)"
| scales: "Watcher c = Some m \<Longrightarrow> (name, ns, spec, ms) \<in> set (SmNotified m) \<Longrightarrow>
     run_state (handleScalingAction e retry name ns spec ms) \<lparr>world = w, calls = []\<rparr> = (r, s') \<Longrightarrow> survives r \<Longrightarrow>
     sys_step objs e retry (c, w) (c, world s')"
| claim_changes: "claim_updated old claim \<Longrightarrow>
     run_state (handleResourceClaimUpdate e claim (Some old)) \<lparr>world = w, calls = []\<rparr> = (r, s') \<Longrightarrow>
     sys_step objs e retry (c, w) (c, world s')"
| claim_goes: "claim_deleted claim = Some (name, template) \<Longrightarrow>
     run_state (after_claim_deleted e claim name template) \<lparr>world = w, calls = []\<rparr> = (r, s') \<Longrightarrow>
     sys_step objs e retry (c, w) (c, world s')"
| monitor_set: "sys_step objs e retry (c, w) (SetMonitor c b, w)"
| restarts: "sys_step objs e retry (c, w) (new_controller, w')"
| others: "keeps objs w w' \<Longrightarrow> sys_step objs e retry (c, w) (c, w')"

inductive sys_reach ::
  "('w \<Rightarrow> key \<Rightarrow> autoscaler option) \<Rightarrow> 'w env \<Rightarrow> (('w, api_error + unit) prog \<Rightarrow> ('w, api_error + unit) prog) \<Rightarrow> controller \<times> 'w \<Rightarrow> bool"
  for objs e retry where
  sys_new: "sys_reach objs e retry (new_controller, w)"
| sys_next: "sys_reach objs e retry x \<Longrightarrow> sys_step objs e retry x y \<Longrightarrow> sys_reach objs e retry y"

section \<open>The invariant\<close>

text \<open>Every watched autoscaler is in the cluster and holds the finalizer, whose removal ends the watch.\<close>

definition present :: "('w \<Rightarrow> key \<Rightarrow> autoscaler option) \<Rightarrow> 'w \<Rightarrow> string \<Rightarrow> bool" where
  "present objs w key \<longleftrightarrow> (\<exists>ns name. CHR ''/'' \<notin> set ns \<and> key = event_key name ns \<and> holds_finalizer objs w (ns, name))"

definition sys_inv :: "('w \<Rightarrow> key \<Rightarrow> autoscaler option) \<Rightarrow> controller \<times> 'w \<Rightarrow> bool" where
  "sys_inv objs x \<longleftrightarrow> (\<exists>m. Watcher (fst x) = Some m \<and> sm_inv m \<and> (MonitorOnce (fst x) \<longrightarrow> SmRunning m) \<and>
     (\<forall>k. watched m k \<noteq> None \<longrightarrow> present objs (snd x) k))"

lemma event_key_inj:
  assumes "event_key name ns = event_key name' ns'" "CHR ''/'' \<notin> set ns" "CHR ''/'' \<notin> set ns'"
  shows "ns' = ns \<and> name' = name"
proof -
  have "takeWhile (\<lambda>c. c \<noteq> CHR ''/'') (event_key name ns) = ns" if "CHR ''/'' \<notin> set ns" for name ns
    using that by (induction ns) (auto simp: event_key_def)
  then have "ns = ns'" using assms by metis
  then show ?thesis using assms(1) by (simp add: event_key_def)
qed

lemma present_keeps: "present objs w k \<Longrightarrow> (\<And>ns name. holds_finalizer objs w (ns, name) \<Longrightarrow> holds_finalizer objs w' (ns, name)) \<Longrightarrow> present objs w' k"
  unfolding present_def by blast

lemma sys_inv_world:
  "sys_inv objs (c, w) \<Longrightarrow> (\<And>k. holds_finalizer objs w k \<Longrightarrow> holds_finalizer objs w' k) \<Longrightarrow> sys_inv objs (c, w')"
  unfolding sys_inv_def using present_keeps by (metis fst_conv snd_conv)

lemma sys_inv_new: "sys_inv objs (new_controller, w)"
proof -
  have "sm_inv (SetScalingActionCallback NewServiceMonitor True)" using reach_inv [OF reach_call [OF reach_new _ call_callback]]
    by (simp add: NewServiceMonitor_def)
  then show ?thesis
    by (simp add: sys_inv_def new_controller_def setup_watcher_def watched_def SetScalingActionCallback_def NewServiceMonitor_def)
qed

lemma watched_same: "SmEvents m' = SmEvents m \<Longrightarrow> SmHeap m' = SmHeap m \<Longrightarrow> watched m' = watched m"
  by (auto simp: watched_def fun_eq_iff split: option.split)

lemma sys_inv_ensured:
  assumes "sys_inv objs (c, w)"
  obtains m where "Watcher (ensure_started c) = Some m" "started m" "\<And>k. watched m k \<noteq> None \<Longrightarrow> present objs w k"
proof -
  obtain m where m: "Watcher c = Some m" "sm_inv m" "MonitorOnce c \<longrightarrow> SmRunning m" "\<And>k. watched m k \<noteq> None \<Longrightarrow> present objs w k"
    using assms by (auto simp: sys_inv_def)
  show thesis
  proof (cases "MonitorOnce c")
    case True then show ?thesis using that [of m] m by (simp add: ensure_started_def started_def)
  next
    case False
    have "SmEvents (snd (Start m)) = SmEvents m" "SmHeap (snd (Start m)) = SmHeap m" "SmRunning (snd (Start m))"
      by (simp_all add: Start_def)
    then have "watched (snd (Start m)) = watched m" "SmRunning (snd (Start m))" using watched_same by blast+
    then show ?thesis using that [of "snd (Start m)"] m False inv_Start [OF m(2)] by (simp add: ensure_started_def started_def)
  qed
qed

lemma sys_inv_reconcile:
  assumes "api_server objs e" "sys_inv objs (c, w)" "CHR ''/'' \<notin> set ns" "survives r"
    and "run_state (Reconcile e ns name c) \<lparr>world = w, calls = []\<rparr> = ((r, c'), s')"
  shows "sys_inv objs (c', world s')"
proof -
  let ?got = "fst (get_autoscaler e (ns, name) w)"
  let ?going = "\<exists>a. ?got = Inr a \<and> AsDeletion a \<noteq> None \<and> FinalizerName \<in> set (AsFinalizers a)"
  obtain m where m: "Watcher (ensure_started c) = Some m" "started m" "\<And>k. watched m k \<noteq> None \<Longrightarrow> present objs w k"
    using sys_inv_ensured [OF assms(2)] by blast
  obtain m' where m': "Watcher c' = Some m'" "started m'"
    and t: "watched m' = tracked ?got ns name (watched m) \<or> watched m' = watched m \<and> (\<exists>a. ?got = Inr a \<and> AsDeletion a = None)"
    using reconcile_watches [OF assms(5,4) m(1,2)] by auto
  have keep: "holds_finalizer objs (world s') k" if "holds_finalizer objs w k" "k = (ns, name) \<Longrightarrow> \<not> ?going" for k
    using reconcile_world [OF assms(1,5), of k] that by fastforce
  have got: "objs w (ns, name) = Some a \<and> AsName a = name \<and> AsNamespace a = ns" if "?got = Inr a" for a
    using api_serverD(2) [OF assms(1), of "(ns, name)" w a] that by (metis autoscaler_key_def prod.collapse prod.inject)
  have "present objs (world s') k" if k: "watched m' k \<noteq> None" for k
  proof (cases "?going")
    case True
    then have "watched m' = (watched m)(name_key (name, ns) := None)" using t got by (auto simp: tracked_def)
    then have w: "watched m k \<noteq> None" "k \<noteq> event_key name ns" using k by (auto simp: name_key_def split: if_splits)
    then obtain ns' name' where p: "CHR ''/'' \<notin> set ns'" "k = event_key name' ns'" "holds_finalizer objs w (ns', name')"
      using m(3) unfolding present_def by blast
    then have "holds_finalizer objs (world s') (ns', name')" using keep w(2) by blast
    then show ?thesis using p unfolding present_def by blast
  next
    case False
    have "watched m k \<noteq> None \<or> k = event_key name ns \<and> holds_finalizer objs w (ns, name)"
      using t k got False by (cases ?got) (auto simp: tracked_def name_key_def holds_finalizer_def split: if_splits)
    then have "present objs w k" using m(3) assms(3) unfolding present_def by blast
    then show ?thesis using present_keeps keep False by metis
  qed
  then show ?thesis using m' by (auto simp: sys_inv_def started_def)
qed

text \<open>The steps of the service monitor register and remove nobody.\<close>

lemma run_events: "sm_run m m' \<Longrightarrow> SmEvents m' = SmEvents m \<and> SmRunning m' = SmRunning m"
  by (erule sm_runE)
     (auto simp: notifyScalingAction_def UpdateTriggerTime_def outcome_def split: option.splits if_splits)

lemma registered_watched:
  assumes "sm_inv m" shows "watched m k \<noteq> None \<longleftrightarrow> map_of (SmEvents m) k \<noteq> None"
  using sm_inv_lookup(4) [OF assms] by (auto simp: watched_def ev_ok_def split: option.split)

lemma sys_inv_run:
  assumes "sys_inv objs (c, w)" "Watcher c = Some m" "sm_run m m'"
  shows "sys_inv objs (c\<lparr>Watcher := Some m'\<rparr>, w)"
proof -
  have m: "sm_inv m" "MonitorOnce c \<longrightarrow> SmRunning m" "\<And>k. watched m k \<noteq> None \<Longrightarrow> present objs w k"
    using assms(1,2) by (auto simp: sys_inv_def)
  have i: "sm_inv m'" by (rule inv_run [OF assms(3) m(1)])
  have "watched m' k \<noteq> None \<longleftrightarrow> watched m k \<noteq> None" for k
    using run_events [OF assms(3)] unfolding registered_watched [OF m(1)] registered_watched [OF i] by simp
  then show ?thesis using m i run_events [OF assms(3)] by (simp add: sys_inv_def)
qed

definition retries :: "('w \<Rightarrow> key \<Rightarrow> autoscaler option) \<Rightarrow> (('w, api_error + unit) prog \<Rightarrow> ('w, api_error + unit) prog) \<Rightarrow> bool" where
  "retries objs retry \<longleftrightarrow> (\<forall>m. moves (keeps objs) m \<longrightarrow> moves (keeps objs) (retry m))"

lemma sys_inv_step:
  assumes "api_server objs e" "retries objs retry" "sys_step objs e retry x y" "sys_inv objs x"
  shows "sys_inv objs y"
  using assms(3)
proof cases
  case (reconciles ns name c w r c' s')
  then show ?thesis using sys_inv_reconcile [OF assms(1)] assms(4) by blast
next
  case (watcher_runs c m m' w)
  have "sys_inv objs (c, w)" using assms(4) watcher_runs(1) by simp
  then show ?thesis using sys_inv_run [OF _ watcher_runs(3,4)] watcher_runs(2) by simp
next
  case (scales c m name ns spec ms w r s')
  have "moves (keeps objs) (handleScalingAction e retry name ns spec ms)"
    by (rule kept.moves_callback [OF api_serverD(1) [OF assms(1)]]) (use assms(2) in \<open>simp add: retries_def\<close>)
  then show ?thesis using scales moves_keeps assms(4) sys_inv_world by fastforce
next
  case (claim_changes old claim w r s' c)
  then show ?thesis
    using moves_keeps [OF kept.moves_claim_updated [OF api_serverD(1) [OF assms(1)]]] assms(4) sys_inv_world by fastforce
next
  case (claim_goes claim name template w r s' c)
  then show ?thesis
    using moves_keeps [OF kept.moves_claim_deleted [OF api_serverD(1) [OF assms(1)]]] assms(4) sys_inv_world by fastforce
next
  case (monitor_set c w b) then show ?thesis using assms(4) by (simp add: sys_inv_def SetMonitor_def)
next
  case (restarts c w w') then show ?thesis using sys_inv_new by simp
next
  case (others w w' c) then show ?thesis using assms(4) sys_inv_world keepsD by metis
qed

lemma sys_reach_inv: "sys_reach objs e retry x \<Longrightarrow> api_server objs e \<Longrightarrow> retries objs retry \<Longrightarrow> sys_inv objs x"
  by (induction rule: sys_reach.induct) (auto intro: sys_inv_new sys_inv_step)

text \<open>C3: whatever the order of reconciliations, timers, callbacks, claim events and restarts, an autoscaler that is
  registered with the service monitor is in the cluster and carries the controller's finalizer, so it cannot vanish
  unnoticed; and its next collection is under way.\<close>

theorem registered_autoscalers_exist:
  assumes "api_server objs e" "retries objs retry" "sys_reach objs e retry (c, w)"
    and "Watcher c = Some m" "IsRegistered m name ns" "CHR ''/'' \<notin> set ns"
  shows "(\<exists>a. objs w (ns, name) = Some a \<and> FinalizerName \<in> set (AsFinalizers a)) \<and>
    (\<exists>i. map_of (SmEvents m) (event_key name ns) = Some i \<and> open_event (SmPending m) (event_key name ns) i (SmHeap m ! i))"
proof -
  have inv: "sm_inv m" "\<And>k. watched m k \<noteq> None \<Longrightarrow> present objs w k"
    using sys_reach_inv [OF assms(3,1,2)] assms(4) by (auto simp: sys_inv_def)
  obtain i where i: "map_of (SmEvents m) (event_key name ns) = Some i" using assms(5) by (auto simp: IsRegistered_def)
  then have "watched m (event_key name ns) \<noteq> None" using registered_watched [OF inv(1)] by simp
  then obtain ns' name' where p: "CHR ''/'' \<notin> set ns'" "event_key name ns = event_key name' ns'" "holds_finalizer objs w (ns', name')"
    using inv(2) unfolding present_def by blast
  then have "holds_finalizer objs w (ns, name)" using event_key_inj [OF p(2) assms(6) p(1)] by simp
  then show ?thesis using i sm_inv_lookup(2) [OF inv(1) i] by (simp add: holds_finalizer_def)
qed

section \<open>A concrete server\<close>

text \<open>A store of autoscalers: an object takes the name of its key, goes when it is being deleted and its last finalizer
  is removed, and its status and the rest are written separately.\<close>

definition stored :: "(key \<Rightarrow> autoscaler option) \<Rightarrow> key \<Rightarrow> autoscaler option" where
  "stored w k = map_option (\<lambda>a. a\<lparr>AsNamespace := fst k, AsName := snd k\<rparr>) (w k)"

definition store_server :: "(key \<Rightarrow> autoscaler option) env" where
  "store_server = empty_cluster
     \<lparr>get_autoscaler := \<lambda>k w. (case stored w k of None \<Rightarrow> Inl NotFound | Some a \<Rightarrow> Inr a, w),
      update_autoscaler := \<lambda>a w. (case w (autoscaler_key a) of
          None \<Rightarrow> (Inl NotFound, w)
        | Some b \<Rightarrow> (Inr (), w(autoscaler_key a :=
            (if AsDeletion a \<noteq> None \<and> AsFinalizers a = [] then None else Some (a\<lparr>Status := Status b\<rparr>))))),
      update_status := \<lambda>a w. (case w (autoscaler_key a) of
          None \<Rightarrow> (Inl NotFound, w)
        | Some b \<Rightarrow> (Inr (), w(autoscaler_key a := Some (b\<lparr>Status := Status a\<rparr>))))\<rparr>"

lemma holds_stored: "holds_finalizer stored w k \<longleftrightarrow> (\<exists>a. w k = Some a \<and> FinalizerName \<in> set (AsFinalizers a))"
  by (auto simp: holds_finalizer_def stored_def)

lemma store_calls:
  "get_service store_server k w = (Inl NotFound, w)" "time_now store_server w = (0, w)"
  "get_autoscaler store_server k w = (case stored w k of None \<Rightarrow> Inl NotFound | Some a \<Rightarrow> Inr a, w)"
  "holds_finalizer stored w j \<Longrightarrow> holds_finalizer stored (snd (update_status store_server a w)) j"
  "holds_finalizer stored w j \<Longrightarrow> j \<noteq> autoscaler_key a \<or> FinalizerName \<in> set (AsFinalizers a) \<Longrightarrow>
   holds_finalizer stored (snd (update_autoscaler store_server a w)) j"
  by (auto simp: store_server_def empty_cluster_def holds_stored split: option.split)

lemma store_is_server: "api_server stored store_server"
  unfolding api_server_def
proof (intro conjI allI impI)
  show "obeys (keeps stored) store_server"
    using store_calls(4) by (simp add: obeys_def drifts_def store_calls(1,2,3) keeps_def) (simp add: store_server_def empty_cluster_def)
  show "stored w k = Some a" "autoscaler_key a = k" if "get_autoscaler store_server k w = (Inr a, w')" for k w a w'
    using that by (auto simp: store_calls(1,2,3) stored_def autoscaler_key_def split: option.splits)
qed (use store_calls(5) in blast)

text \<open>Reconciling a live autoscaler registers it.\<close>

lemma registered_autoscalers_exist_witness:
  "\<exists>(c :: controller) w m. Watcher c = Some m \<and> IsRegistered m ''rca'' ''default'' \<and>
     (\<exists>a. stored w (''default'', ''rca'') = Some a \<and> FinalizerName \<in> set (AsFinalizers a))"
proof -
  let ?w = "[(''default'', ''rca'') \<mapsto> live_autoscaler]"
  let ?c = "SetMonitor new_controller True"
  obtain r c' s' where run: "run_state (Reconcile store_server ''default'' ''rca'' ?c) \<lparr>world = ?w, calls = []\<rparr> = ((r, c'), s')"
    by (metis prod.collapse)
  have got: "fst (get_autoscaler store_server (''default'', ''rca'') ?w) = Inr live_autoscaler" "AsDeletion live_autoscaler = None"
    by (simp_all add: store_calls(1,2,3) stored_def live_autoscaler_def sample_autoscaler_def)
  have reach: "sys_reach stored store_server id (?c, ?w)" using sys_next [OF sys_new monitor_set] .
  have inv: "sys_inv stored (?c, ?w)" by (rule sys_reach_inv [OF reach store_is_server]) (simp add: retries_def)
  obtain m where m: "Watcher (ensure_started ?c) = Some m" "started m" by (rule sys_inv_ensured [OF inv])
  have once: "MonitorSet (ensure_started ?c)" by (simp add: ensure_started_def SetMonitor_def new_controller_def setup_watcher_def)
  have new: "\<not> IsRegistered m ''rca'' ''default''"
    using m(1) by (auto simp: ensure_started_def SetMonitor_def new_controller_def setup_watcher_def SetScalingActionCallback_def
        NewServiceMonitor_def Start_def IsRegistered_def)
  have d: "run_state (discover_target store_server live_autoscaler) t = (Ok (add_condition store_server live_autoscaler
      ''ScalingTargetDiscovery'' False ''ScalingTargetDiscoveryFailed'' ''Failed to discover scaling target: ''), t)" for t
    by (simp add: discover_target_def DiscoverFromService_def observe_def store_calls(1,2,3) Let_def live_autoscaler_def sample_autoscaler_def)
  have "AsName (add_condition store_server live_autoscaler x b y z) = ''rca''"
    "AsNamespace (add_condition store_server live_autoscaler x b y z) = ''default''" for x b y z
    by (simp_all add: add_condition_def live_autoscaler_def sample_autoscaler_def)
  then have "survives r"
    using run m(1) once new NewRegisteration_started [OF m(2)] d got
    by (auto simp: Reconcile_def observe_def store_calls(1,2,3) reconcile_live_def watch_autoscaler_def finish_status_def updateStatus_def
        emit_def Let_def stored_def live_autoscaler_def split: prod.splits sum.splits option.splits)
  then have sv: "sys_reach stored store_server id (c', world s')" using sys_next [OF reach reconciles [OF run]] by simp
  obtain m' where m': "Watcher c' = Some m'" "started m'"
    "watched m' = tracked (Inr live_autoscaler) ''default'' ''rca'' (watched m)"
    using reconcile_watches [OF run \<open>survives r\<close> m] once got by auto
  have "IsRegistered m' ''rca'' ''default''"
    using IsRegistered_watched [OF m'(2), of "''rca''" "''default''"] m'(3)
    by (simp add: tracked_def live_autoscaler_def sample_autoscaler_def)
  then have "\<exists>a. stored (world s') (''default'', ''rca'') = Some a \<and> FinalizerName \<in> set (AsFinalizers a)"
    using registered_autoscalers_exist [OF store_is_server _ sv m'(1), of "''rca''" "''default''"] by (simp add: retries_def)
  then show ?thesis using m'(1) \<open>IsRegistered m' ''rca'' ''default''\<close> by blast
qed

end
