(* ===== verification/Admission.thy ===== *)
theory Admission
  imports Autoscaler_Properties
begin

text \<open>
  What the schema of \<open>ResourceClaimAutoscaler\<close> admits, and how a round of evaluation on an admitted specification can
  end other than with a value or an error: by a panic only on a stored estimation that lacks a latency, by an endless
  search only on a compute step that does not go down. The predicates are the validation markers of
  \<open>api/v1alpha1/resourceclaimautoscaler_types.go\<close>, field by field; the API server enforces them on every object it
  stores. A JSON number that is decoded into a \<open>float64\<close> is finite.
\<close>

named_theorems yields "what a program may answer"

section \<open>The schema\<close>

definition int32_from :: "int \<Rightarrow> int \<Rightarrow> bool" where
  "int32_from least n \<longleftrightarrow> least \<le> n \<and> n < 2 ^ 31"

definition optional_from :: "int \<Rightarrow> int option \<Rightarrow> bool" where
  "optional_from least p = (case p of None \<Rightarrow> True | Some n \<Rightarrow> int32_from least n)"

definition float_from :: "rat \<Rightarrow> f64 \<Rightarrow> bool" where
  "float_from least x \<longleftrightarrow> wf64 x \<and> x \<noteq> PInf \<and> fge x (lit least)"

definition admitted_arch :: "arch_params \<Rightarrow> bool" where
  "admitted_arch p \<longleftrightarrow> float_from (1 / 10) (ParametersB p) \<and> 1 \<le> Layers p \<and> 1 \<le> KVHeads p \<and> 128 \<le> HiddenSize p \<and>
     1 \<le> QueryHeads p \<and> 1 \<le> Precision p \<and> Precision p \<le> 4"

definition admitted_hint :: "hint \<Rightarrow> bool" where
  "admitted_hint h \<longleftrightarrow> (case ModelParams h of None \<Rightarrow> True | Some p \<Rightarrow> admitted_arch p) \<and>
     int32_from 1 (BatchSize h) \<and> int32_from 1 (MaxNumSeqs h) \<and> optional_from 1 (MaxNumBatchedTokens h) \<and>
     float_from 0 (KVCacheSpeedup h)"

definition admitted_latency :: "target_latency \<Rightarrow> bool" where
  "admitted_latency t \<longleftrightarrow> optional_from 0 (EndToEndLatencyMilliseconds t) \<and>
     optional_from 0 (TimeToFirstTokenLatencyMilliseconds t) \<and> optional_from 0 (InterTokenLatencyMilliseconds t) \<and>
     optional_from 0 (ToleranceMilliseconds t)"

definition admitted_scaling :: "scaling_behavior \<Rightarrow> bool" where
  "admitted_scaling b \<longleftrightarrow> int32_from 1 (PeriodSeconds (Trigger b)) \<and> int32_from 0 (GracePeriodSeconds b) \<and>
     optional_from 1 (SingleTimeScalingLimit b)"

definition admitted_behavior :: "behavior \<Rightarrow> bool" where
  "admitted_behavior b \<longleftrightarrow> (case ScaleUp b of None \<Rightarrow> True | Some s \<Rightarrow> admitted_scaling s) \<and>
     (case ScaleDown b of None \<Rightarrow> True | Some s \<Rightarrow> admitted_scaling s)"

definition admitted_constraints :: "constraints \<Rightarrow> bool" where
  "admitted_constraints c \<longleftrightarrow> optional_from 0 (MinReplicas c) \<and> optional_from 1 (MaxReplicas c) \<and>
     optional_from 1 (MinCountPerReplica c) \<and> optional_from 1 (MaxCountPerReplica c)"

definition admitted :: "rca_spec \<Rightarrow> bool" where
  "admitted spec \<longleftrightarrow> (case Hint (Target spec) of None \<Rightarrow> True | Some h \<Rightarrow> admitted_hint h) \<and>
     (case TargetLatency spec of None \<Rightarrow> True | Some t \<Rightarrow> admitted_latency t) \<and>
     (case SpecBehavior spec of None \<Rightarrow> True | Some b \<Rightarrow> admitted_behavior b) \<and>
     (case SpecConstraints spec of None \<Rightarrow> True | Some c \<Rightarrow> admitted_constraints c)"

text \<open>The quantities of a capacity carry no marker. The search ends if the compute request goes down by at least
  \<open>1 / 2 ^ k\<close> percent at a time, from at most \<open>2 ^ (53 - k)\<close> percent.\<close>

definition steps_down :: "nat \<Rightarrow> rca_spec \<Rightarrow> bool" where
  "steps_down k spec \<longleftrightarrow>
     (let g = extractGPUConstraints spec in
      case (StepThreadPercentage g, MaxThreadPercentage g, MinThreadPercentage g) of
        (Fin st, Fin m, Fin l) \<Rightarrow> k \<le> 53 \<and> 1 / 2 ^ k \<le> st \<and> wf64 (Fin m) \<and> m \<le> 2 ^ 53 / 2 ^ k \<and> 0 \<le> l
      | _ \<Rightarrow> False)"

text \<open>The two registries of the package, in any order of iteration.\<close>

definition registries :: "'w env \<Rightarrow> bool" where
  "registries e \<longleftrightarrow> set (gpu_order e) = set gpuRegistry \<and> set (model_order e) = set modelFamilyMap"

section \<open>Well-typed objects\<close>

text \<open>The schema leaves both latencies of an estimation optional; the controller writes both, and dereferences one when
  it uses the other. Typed objects carry both or no estimation.\<close>

definition typed_estimation :: "latency_estimation \<Rightarrow> bool" where
  "typed_estimation le \<longleftrightarrow> optional_from 0 (EstTTFT le) \<and> optional_from 0 (EstITL le) \<and>
     optional_from (- (2 ^ 31)) (EstTTFTOffset le) \<and> optional_from (- (2 ^ 31)) (EstITLOffset le) \<and>
     EstTTFT le \<noteq> None \<and> EstITL le \<noteq> None"

definition typed_scaling :: "scaling_status \<Rightarrow> bool" where
  "typed_scaling s \<longleftrightarrow> optional_from (- (2 ^ 31)) (DesiredReplicas s) \<and> optional_from (- (2 ^ 31)) (ReadyReplicas s) \<and>
     optional_from (- (2 ^ 31)) (AvailableReplicas s)"

definition typed_status :: "rca_status \<Rightarrow> bool" where
  "typed_status s \<longleftrightarrow> (case ScalingStatus s of None \<Rightarrow> True | Some st \<Rightarrow> typed_scaling st) \<and>
     (case ScalingResults s \<bind> LastEstimation of None \<Rightarrow> True | Some le \<Rightarrow> typed_estimation le)"

definition typed_object :: "autoscaler \<Rightarrow> bool" where
  "typed_object a \<longleftrightarrow> admitted (Spec a) \<and> typed_status (Status a)"

definition typed_workload :: "workload \<Rightarrow> bool" where
  "typed_workload w \<longleftrightarrow> optional_from (- (2 ^ 31)) (WlReplicas w) \<and> int32_from (- (2 ^ 31)) (WlReadyReplicas w) \<and>
     int32_from (- (2 ^ 31)) (WlAvailableReplicas w)"

text \<open>A server that answers with typed objects only, and a write of a typed object.\<close>

definition typed_server :: "'w env \<Rightarrow> bool" where
  "typed_server e \<longleftrightarrow> (\<forall>k w a w'. get_autoscaler e k w = (Inr a, w') \<longrightarrow> typed_object a) \<and>
     (\<forall>kind k w x w'. get_workload e kind k w = (Inr x, w') \<longrightarrow> typed_workload x)"

definition typed_write :: "api_call \<Rightarrow> bool" where
  "typed_write c = (case c of
     UpdateStatus a \<Rightarrow> typed_object a
   | UpdateAutoscaler a \<Rightarrow> typed_object a
   | UpdateWorkload _ w \<Rightarrow> typed_workload w
   | _ \<Rightarrow> True)"

section \<open>What a program may answer\<close>

text \<open>\<open>yields P m\<close>: whatever the world, \<open>m\<close> returns a value with \<open>P\<close>.\<close>

definition yields :: "('a \<Rightarrow> bool) \<Rightarrow> ('w, 'a) prog \<Rightarrow> bool" where
  "yields P m \<longleftrightarrow> (\<forall>s. P (fst (run_state m s)))"

lemma yieldsD: "yields P m \<Longrightarrow> run_state m s = (r, s') \<Longrightarrow> P r"
  unfolding yields_def by (metis fst_conv)

lemma yields_return: "P a \<Longrightarrow> yields P (State_Monad.return a)"
  by (simp add: yields_def)

lemma yields_bind:
  assumes "yields Q m" "\<And>a. Q a \<Longrightarrow> yields P (f a)"
  shows "yields P (m \<bind> f)"
  unfolding yields_def
proof
  fix s
  obtain a t where m: "run_state m s = (a, t)" by fastforce
  show "P (fst (run_state (m \<bind> f) s))" using assms(2) [OF yieldsD [OF assms(1) m]] m by (simp add: yields_def)
qed

lemma yields_after [yields]: "(\<And>a. yields P (f a)) \<Longrightarrow> yields P (m \<bind> f)"
  by (rule yields_bind [of "\<lambda>_. True"]) (simp_all add: yields_def)

lemma yields_observed: "(\<And>w a w'. f w = (a, w') \<Longrightarrow> Q a) \<Longrightarrow> yields Q (observe f)"
  by (auto simp: yields_def observe_def split: prod.split)

lemma yields_sum [yields]: "(\<And>x. r = Inl x \<Longrightarrow> yields P (f x)) \<Longrightarrow> (\<And>a. r = Inr a \<Longrightarrow> yields P (g a)) \<Longrightarrow>
    yields P (case r of Inl x \<Rightarrow> f x | Inr a \<Rightarrow> g a)"
  by (cases r) auto

lemma yields_option [yields]: "(r = None \<Longrightarrow> yields P f) \<Longrightarrow> (\<And>a. r = Some a \<Longrightarrow> yields P (g a)) \<Longrightarrow>
    yields P (case r of None \<Rightarrow> f | Some a \<Rightarrow> g a)"
  by (cases r) auto

lemma yields_fault [yields]: "(\<And>m. r = Error m \<Longrightarrow> yields P (f m)) \<Longrightarrow> (\<And>m. r = Panic m \<Longrightarrow> yields P (g m)) \<Longrightarrow>
    (r = Hang \<Longrightarrow> yields P h) \<Longrightarrow> yields P (case r of Error m \<Rightarrow> f m | Panic m \<Rightarrow> g m | Hang \<Rightarrow> h)"
  by (cases r) auto

lemma yields_if [yields]: "(b \<Longrightarrow> yields P f) \<Longrightarrow> (\<not> b \<Longrightarrow> yields P g) \<Longrightarrow> yields P (if b then f else g)"
  by simp

lemma yields_prod [yields]: "(\<And>a b. r = (a, b) \<Longrightarrow> yields P (f a b)) \<Longrightarrow> yields P (case r of (a, b) \<Rightarrow> f a b)"
  by (cases r) auto

lemma yields_let [yields]: "yields P (f x) \<Longrightarrow> yields P (let y = x in f y)"
  by simp

section \<open>The writes of a round\<close>

lemma yields_revision [yields]: "yields survives (getOwnerRevision e ns owner)"
  unfolding getOwnerRevision_def by (intro yields yields_return) (auto split: sum.split)

lemma yields_create [yields]: "yields survives (create_revised e a desired name original revision base)"
  unfolding create_revised_def by (intro yields yields_return) (auto split: sum.split)

lemma yields_patch [yields]: "yields survives (patchResourceClaimTemplate e a desired)"
  unfolding patchResourceClaimTemplate_def by (intro yields yields_return) auto

lemma yields_workload [yields]: "yields survives (patch_workload e k ns name old new replicas)"
  unfolding patch_workload_def by (intro yields yields_return) (auto split: sum.split)

lemmas patch_kinds = patchDeployment_def patchStatefulSet_def

lemma yields_kind [yields]:
  "yields survives ((if b then patch_workload e Deployment else patch_workload e StatefulSet) ns name old new replicas)"
  by (cases b) (simp_all add: yields_workload)

lemma yields_owner [yields]: "yields survives (patchPodOwner e a new replicas)"
  unfolding patchPodOwner_def patch_kinds
  by (auto intro!: yields yields_return split: option.split workload_kind.split)

lemma yields_resource_changes [yields]: "yields survives (applyResourceChanges e a d)"
  unfolding applyResourceChanges_def
  by (intro yields yields_bind [OF yields_patch] yields_bind [OF yields_owner] yields_return) (auto split: fault.splits)

lemma yields_replica_changes [yields]: "yields survives (applyReplicaChanges e a d)"
  unfolding applyReplicaChanges_def patch_kinds
  by (intro yields yields_bind [OF yields_kind] yields_return) (auto split: fault.splits sum.splits)

lemma yields_execute [yields]: "yields survives (executeScalingChanges e a d)"
  unfolding executeScalingChanges_def by (intro yields yields_return) simp

section \<open>The decision\<close>

text \<open>The limit divides by the GPUs per replica of the demand, which are at least one.\<close>

lemma limit_ok: "GPUsPerReplica (DesiredConfig d) \<noteq> 0 \<Longrightarrow> is_ok (applySingleTimeScalingLimit a d)"
  by (simp add: applySingleTimeScalingLimit_def go_div_def Let_def split: option.split)

lemma determine_ok:
  assumes "GPUsPerReplica desired \<noteq> 0"
  shows "is_ok (determineScalingAction a t desired rate)"
  using limit_ok assms by (simp add: determineScalingAction_def Let_def split: prod.split)

lemma yields_apply:
  assumes "GPUsPerReplica config \<noteq> 0"
  shows "yields survives (applyScalingAction e name ns config rate oi ot)"
proof -
  have "is_ok (determineScalingAction a t (resource_configuration.truncate config) rate)" for a t
    using assms by (intro determine_ok) (simp add: resource_configuration.truncate_def)
  then have "determineScalingAction a t (resource_configuration.truncate config) rate \<noteq> Inl f" for a t f
    by (metis is_ok.simps(2))
  then show ?thesis unfolding applyScalingAction_def by (intro yields yields_return) simp_all
qed

section \<open>The search\<close>

lemma FindOptimal_gpus:
  assumes "BudgetGPUs (gpuConstraints s) < 2 ^ 63" "FindOptimalConfiguration pf s rate targets = Some (Ok cfg, s')"
  shows "1 \<le> GPUsPerReplica cfg"
  using assms
proof (cases rule: FindOptimal_cases)
  case (found p k m cfg')
  then have "(fst p, snd p) \<in> set (space pf s)" by (auto simp: find_Some_iff)
  then show ?thesis using found unfolding space_def search_space_iff by (simp add: opt.ev_gpus)
next
  case infeasible
  then have "last (space pf s) \<in> set (space pf s)" by simp
  then have "1 \<le> snd (last (space pf s))" unfolding space_def by (metis prod.collapse search_space_iff)
  then show ?thesis using infeasible by (simp add: at_max_shape)
qed simp

lemma budget_in_range: "BudgetGPUs (extractGPUConstraints spec) < 2 ^ 63"
proof -
  have "wrap64 x < 9223372036854775808" for x using wrap64_range(2) [of x] by simp
  then show ?thesis by (simp add: extractGPUConstraints_def default_gpu_constraints_def Let_def split: option.split)
qed

lemma search_survives:
  assumes "gpuConstraints opt = extractGPUConstraints spec" "steps_down k spec"
  shows "\<exists>r s. FindOptimalConfiguration pf opt rate targets = Some (r, s) \<and>
     (\<forall>cfg. r = Ok cfg \<longrightarrow> 1 \<le> GPUsPerReplica cfg)"
proof -
  have b: "BudgetGPUs (gpuConstraints opt) < 2 ^ 63" using budget_in_range assms(1) by simp
  obtain st m l where g: "StepThreadPercentage (gpuConstraints opt) = Fin st" "MaxThreadPercentage (gpuConstraints opt) = Fin m"
    "MinThreadPercentage (gpuConstraints opt) = Fin l" "k \<le> 53" "1 / 2 ^ k \<le> st" "wf64 (Fin m)" "m \<le> 2 ^ 53 / 2 ^ k" "0 \<le> l"
    using assms(2) by (auto simp: steps_down_def Let_def assms(1) split: f64.splits)
  obtain r s where "FindOptimalConfiguration pf opt rate targets = Some (r, s)"
    using FindOptimal_returns [OF b g(4,1,5,2,6,7,3,8), of pf rate targets] by fast
  then show ?thesis using FindOptimal_gpus [OF b] by blast
qed

text \<open>Every model of the registry has query heads.\<close>

lemma registry_heads: "p \<in> snd ` set modelFamilyMap \<Longrightarrow> QueryHeads p \<noteq> 0"
  by (auto simp: modelFamilyMap_def arch_def)

lemma inferred_heads:
  assumes "set ms = set modelFamilyMap"
  shows "QueryHeads (snd (inferredArchParams ms modelID)) \<noteq> 0"
  using lookup_sub_mem [of ms "to_lower modelID"] registry_heads
  by (auto simp: inferredArchParams_def arch_def assms split: option.split)

lemma estimator_ok_hint:
  assumes "set ms = set modelFamilyMap" "\<And>p. ModelParams h = Some p \<Longrightarrow> QueryHeads p \<noteq> 0"
  shows "\<exists>r. NewResourceEstimatorWithHint gs ms h = Ok r \<and> QueryHeads (params r) \<noteq> 0"
  using assms(2) inferred_heads [OF assms(1)]
  by (auto simp: NewResourceEstimatorWithHint_def NewResourceEstimatorWithArchParam_def NewResourceEstimator_def mk_estimator_def
      estimateMemoryPerTokenFromID_def go_div_def Let_def split: option.split)

lemma admitted_heads:
  assumes "admitted spec" "h = get_or (Hint (Target spec)) getDefaultHint" "ModelParams h = Some p"
  shows "QueryHeads p \<noteq> 0"
  using assms by (auto simp: admitted_def admitted_hint_def admitted_arch_def getDefaultHint_def split: option.splits)

lemma optimizer_builds:
  assumes "admitted spec" "set ms = set modelFamilyMap"
  shows "\<exists>opt. NewResourceOptimizer gs ms spec = Ok opt \<and> gpuConstraints opt = extractGPUConstraints spec"
proof -
  let ?h = "get_or (Hint (Target spec)) getDefaultHint"
  obtain re where re: "NewResourceEstimatorWithHint gs ms ?h = Ok re" "QueryHeads (params re) \<noteq> 0"
    using estimator_ok_hint [OF assms(2), of ?h] admitted_heads [OF assms(1) refl] by blast
  obtain le where "NewLatencyEstimatorWithHint ?h (params re) (gpuSpec re) = Ok le"
    using NewLatencyEstimator_panics [of ?h "params re" "gpuSpec re"] re(2)
    by (cases "NewLatencyEstimatorWithHint ?h (params re) (gpuSpec re)") auto
  then show ?thesis using re(1) by (simp add: NewResourceOptimizer_def Let_def)
qed

lemma prepare_builds:
  assumes "admitted spec" "registries e"
  shows "\<exists>opt. prepare_optimizer e spec ms rate oi ot = Ok opt \<and> gpuConstraints opt = extractGPUConstraints spec"
proof -
  obtain opt where "NewResourceOptimizer (gpu_order e) (model_order e) spec = Ok opt" "gpuConstraints opt = extractGPUConstraints spec"
    using optimizer_builds [OF assms(1)] assms(2) unfolding registries_def by blast
  then show ?thesis
    by (simp add: prepare_optimizer_def SetWorkloadParameters_def SetLatencyOffsets_def TuneWithMetrics_def Let_def)
qed

section \<open>A round\<close>

text \<open>\<open>ends_unless p h r\<close>: the outcome is a value or an error, a panic only if \<open>p\<close>, an endless search only if \<open>h\<close>.\<close>

definition ends_unless :: "bool \<Rightarrow> bool \<Rightarrow> 'a res \<Rightarrow> bool" where
  "ends_unless p h r = (case r of Inl (Panic _) \<Rightarrow> p | Inl Hang \<Rightarrow> h | _ \<Rightarrow> True)"

lemma survives_ends [intro]: "survives r \<Longrightarrow> ends_unless p h r"
  by (auto simp: survives_def ends_unless_def split: sum.splits fault.splits)

lemma ends_survives: "ends_unless False False r = survives r"
  by (auto simp: survives_def ends_unless_def split: sum.splits fault.splits)

lemma yields_mono: "yields Q m \<Longrightarrow> (\<And>r. Q r \<Longrightarrow> P r) \<Longrightarrow> yields P m"
  by (simp add: yields_def)

text \<open>The server answers with an estimation that lacks one of the two latencies: both are optional in the schema, the
  controller itself always writes both.\<close>

definition half_estimated :: "'w env \<Rightarrow> key \<Rightarrow> bool" where
  "half_estimated e k \<longleftrightarrow> (\<exists>w a w' le. get_autoscaler e k w = (Inr a, w') \<and>
     ScalingResults (Status a) \<bind> LastEstimation = Some le \<and> (EstITL le = None \<or> EstTTFT le = None))"

definition value_or_panic :: "bool \<Rightarrow> 'a res \<Rightarrow> bool" where
  "value_or_panic p r = (case r of Inr _ \<Rightarrow> True | Inl (Panic _) \<Rightarrow> p | _ \<Rightarrow> False)"

lemma offsets_end: "value_or_panic (EstITL le = None \<or> EstTTFT le = None) (offsets_from le itl ttft)"
  by (auto simp: offsets_from_def unclamped_offset_def deref_def value_or_panic_def Let_def split: option.split)

lemma yields_offsets: "yields (value_or_panic (half_estimated e (ns, name))) (calculateLatencyOffsets e name ns ms)"
proof -
  let ?p = "half_estimated e (ns, name)"
  have "yields (\<lambda>r. \<forall>a le. r = Inr a \<longrightarrow> ScalingResults (Status a) \<bind> LastEstimation = Some le \<longrightarrow>
      (EstITL le = None \<or> EstTTFT le = None) \<longrightarrow> ?p) (observe (get_autoscaler e (ns, name)))"
    unfolding half_estimated_def by (rule yields_observed) blast
  moreover have "value_or_panic ?p (offsets_from le itl ttft)" if "(EstITL le = None \<or> EstTTFT le = None) \<longrightarrow> ?p" for le itl ttft
    using offsets_end [of le itl ttft] that by (auto simp: value_or_panic_def split: sum.splits fault.splits)
  ultimately show ?thesis unfolding calculateLatencyOffsets_def
    by (elim yields_bind) (auto intro!: yields_return simp: value_or_panic_def [of _ "Inr _"] split: sum.split option.splits)
qed

lemma minimum_gpus:
  assumes "admitted spec" shows "GPUsPerReplica (minimum_configuration spec) \<noteq> 0"
  using assms by (auto simp: admitted_def admitted_constraints_def optional_from_def int32_from_def minimum_configuration_def Let_def
      zero_config_def split: option.splits)

lemma yields_round:
  assumes "admitted spec" "registries e"
  shows "yields (ends_unless (half_estimated e (ns, name)) (\<forall>k. \<not> steps_down k spec)) (EvaluateAndScale e name ns spec ms)"
proof -
  let ?Q = "ends_unless (half_estimated e (ns, name)) (\<forall>k. \<not> steps_down k spec)"
  have p: "\<exists>opt. prepare_optimizer e spec ms rate oi ot = Ok opt \<and> gpuConstraints opt = extractGPUConstraints spec" for rate oi ot
    by (rule prepare_builds [OF assms])
  let ?rate = "getArrivalRate (hex_float e) ms"
  have s: "yields ?Q (do {
      r \<leftarrow> applyScalingAction e name ns config ?rate oi ot;
      State_Monad.return (case r of Inl (Error _) \<Rightarrow> Fail ''failed to apply scaling action'' | _ \<Rightarrow> r) })"
    if "GPUsPerReplica config \<noteq> 0" for config oi ot
    by (rule yields_bind [OF yields_apply [OF that]]) (auto intro!: yields_return split: sum.split fault.split)
  show ?thesis unfolding EvaluateAndScale_def Let_def
  proof (rule yields_bind [OF yields_offsets], goal_cases)
    case (1 offs)
    show ?case
    proof (cases offs)
      case (Inl x)
      then show ?thesis using 1 by (cases x) (auto intro!: yields_return simp: value_or_panic_def ends_unless_def)
    next
      case o: (Inr pr)
      obtain oi ot where pr: "pr = (oi, ot)" by (cases pr)
      obtain targets where t: "getTargetLatency (GetEffectiveTargetLatency spec) = Ok targets" using effective_targets_total by blast
      obtain opt where opt: "prepare_optimizer e spec ms ?rate oi ot = Ok opt" "gpuConstraints opt = extractGPUConstraints spec"
        using p by blast
      show ?thesis
      proof (cases "FindOptimalConfiguration (pow_frac e) opt ?rate (Some targets)")
        case None
        then have "\<forall>k. \<not> steps_down k spec" using search_survives [OF opt(2), of _ "pow_frac e" ?rate "Some targets"] by fastforce
        then show ?thesis unfolding o pr t sum.case prod.case opt(1) None option.case
          using s [OF minimum_gpus [OF assms(1)]] by (auto intro: yields_return simp: ends_unless_def)
      next
        case (Some f)
        obtain r o' where f: "f = (r, o')" by (cases f)
        have "GPUsPerReplica cfg \<noteq> 0" if "r = Ok cfg" for cfg
          using FindOptimal_gpus [of opt _ ?rate "Some targets" cfg o'] budget_in_range [of spec] Some f that opt(2) by fastforce
        then show ?thesis unfolding o pr t sum.case prod.case opt(1) Some f option.case
          using s [OF minimum_gpus [OF assms(1)]] s by (cases r) (auto intro!: yields_return simp: ends_unless_def)
      qed
    qed
  qed
qed

text \<open>Every error of the round ends in the callback.\<close>

lemma yields_callback:
  assumes "yields (ends_unless p h) (EvaluateAndScale e name ns spec ms)"
  shows "yields (\<lambda>r. ends_unless p h r \<and> (\<forall>msg. r \<noteq> Fail msg)) (handleScalingAction e retry name ns spec ms)"
  unfolding handleScalingAction_def
  by (rule yields_bind [OF assms])
     (auto intro!: yields yields_return simp: ends_unless_def split: sum.splits fault.splits)

end
