(* ===== verification/Typed_Writes.thy ===== *)
theory Typed_Writes
  imports Admission
begin

text \<open>
  Type preservation: whatever a component of the controller writes, an object of the cluster that satisfies the schema
  is replaced by one that does, as long as the server's answers satisfy it.
\<close>

section \<open>Facts of typed objects\<close>

lemma typed_serverD:
  assumes "typed_server e"
  shows "get_autoscaler e k w = (Inr a, w') \<Longrightarrow> typed_object a" "get_workload e kind k w = (Inr x, w') \<Longrightarrow> typed_workload x"
  using assms unfolding typed_server_def by blast+

lemma typed_writeI [intro]:
  "typed_object a \<Longrightarrow> writes typed_write (updateStatus e a)" "typed_object a \<Longrightarrow> writes typed_write (updateAutoscaler e a)"
  "typed_workload w \<Longrightarrow> writes typed_write (updateWorkload e k w)" "writes typed_write (createTemplate e t)"
  "writes typed_write (deleteTemplate e key)"
  by (auto intro!: writes_updateStatus writes_updateAutoscaler writes_updateWorkload writes_createTemplate writes_deleteTemplate
      simp: typed_write_def)

lemma typed_get_autoscaler:
  assumes "typed_server e" "\<And>x. writes P (f x)" "\<And>a. typed_object a \<Longrightarrow> writes P (g a)"
  shows "writes P (observe (get_autoscaler e k) \<bind> (\<lambda>r. case r of Inl x \<Rightarrow> f x | Inr a \<Rightarrow> g a))"
proof (rule writes_observe_bind)
  fix w r w' assume got: "get_autoscaler e k w = (r, w')"
  show "writes P (case r of Inl x \<Rightarrow> f x | Inr a \<Rightarrow> g a)"
  proof (cases r)
    case (Inr b)
    then have "typed_object b" using typed_serverD(1) [OF assms(1)] got by blast
    then show ?thesis using Inr assms(3) by simp
  qed (simp add: assms(2))
qed

lemma typed_get_workload:
  assumes "typed_server e" "\<And>x. writes P (f x)" "\<And>w. typed_workload w \<Longrightarrow> writes P (g w)"
  shows "writes P (observe (get_workload e kind k) \<bind> (\<lambda>r. case r of Inl x \<Rightarrow> f x | Inr w \<Rightarrow> g w))"
proof (rule writes_observe_bind)
  fix w r w' assume got: "get_workload e kind k w = (r, w')"
  show "writes P (case r of Inl x \<Rightarrow> f x | Inr w \<Rightarrow> g w)"
  proof (cases r)
    case (Inr b)
    then have "typed_workload b" using typed_serverD(2) [OF assms(1)] got by blast
    then show ?thesis using Inr assms(3) by simp
  qed (simp add: assms(2))
qed

lemma typed_keeps:
  "typed_object a \<Longrightarrow> typed_object (add_condition e a ty ok reason msg)"
  "typed_object (a\<lparr>AsFinalizers := fs\<rparr>) = typed_object a"
  "typed_object a \<Longrightarrow> typed_scaling st \<Longrightarrow> typed_object (a\<lparr>Status := (Status a)\<lparr>ScalingStatus := Some st\<rparr>\<rparr>)"
  "typed_object a \<Longrightarrow> typed_object (a\<lparr>Status := (Status a)\<lparr>Discovery := d\<rparr>\<rparr>)"
  by (simp_all add: typed_object_def typed_status_def add_condition_def)

lemma typed_current: "typed_object a \<Longrightarrow> typed_scaling (get_or (ScalingStatus (Status a)) empty_scaling_status)"
  by (cases "ScalingStatus (Status a)")
     (simp_all add: typed_object_def typed_status_def typed_scaling_def empty_scaling_status_def optional_from_def)

lemma int32_wrap: "int32_from (- (2 ^ 31)) (wrap32 n)"
  using wrap32_range [of n] by (simp add: int32_from_def)

lemma typed_replicas: "typed_workload w \<Longrightarrow> typed_workload (w\<lparr>WlReplicas := Some (wrap32 n), WlClaims := cs\<rparr>)"
  using int32_wrap [of n] by (simp add: typed_workload_def optional_from_def)

lemma typed_counts:
  "typed_workload w \<Longrightarrow> typed_scaling st \<Longrightarrow>
   typed_scaling (st\<lparr>ReadyReplicas := Some (WlReadyReplicas w), AvailableReplicas := Some (WlAvailableReplicas w)\<rparr>)"
  by (simp add: typed_workload_def typed_scaling_def optional_from_def)

text \<open>What a round stores as an estimation.\<close>

lemma typed_new_estimation: "typed_estimation (new_estimation l oi ot)"
  using f2i32_range [of oi] f2i32_range [of ot] f2i32_range [of "TTFT l"] f2i32_range [of "ITL l"]
  by (auto simp: typed_estimation_def new_estimation_def stored_latency_def optional_from_def int32_from_def Let_def)

lemma typed_scaled:
  assumes "typed_object a" shows "typed_object (a\<lparr>Status := scaled_status set_cond now a d l oi ot\<rparr>)"
proof -
  have "typed_scaling (st\<lparr>DesiredReplicas := Some (wrap32 n), LastApplyTime := t\<rparr>)" if "typed_scaling st" for st n t
    using that int32_wrap by (simp add: typed_scaling_def optional_from_def)
  moreover have "case LastEstimation (get_or (ScalingResults (Status a)) empty_scaling_results) of None \<Rightarrow> True | Some le \<Rightarrow> typed_estimation le"
    using assms by (cases "ScalingResults (Status a)") (auto simp: typed_object_def typed_status_def empty_scaling_results_def)
  ultimately show ?thesis using assms typed_current [OF assms] typed_new_estimation
    by (simp add: typed_object_def typed_status_def scaled_status_def Let_def)
qed

section \<open>The writes are typed\<close>

lemma writes_fault [writes]:
  "(\<And>m. writes P (f m)) \<Longrightarrow> (\<And>m. writes P (g m)) \<Longrightarrow> writes P h \<Longrightarrow>
   writes P (case r of Error m \<Rightarrow> f m | Panic m \<Rightarrow> g m | Hang \<Rightarrow> h)"
  by (cases r) auto

lemma typed_patch: "typed_server e \<Longrightarrow> writes typed_write (patch_workload e k ns name old new (wrap32 n))"
  unfolding patch_workload_def by (intro typed_get_workload writes typed_writeI typed_replicas)

lemma typed_templates: "writes typed_write (patchResourceClaimTemplate e a c)"
  unfolding patchResourceClaimTemplate_def getOwnerRevision_def create_revised_def Let_def by (intro writes typed_writeI)

lemma typed_owner: "typed_server e \<Longrightarrow> writes typed_write (patchPodOwner e a new (wrap32 n))"
  unfolding patchPodOwner_def patch_kinds by (auto intro!: writes typed_patch split: workload_kind.split)

lemma typed_replica_status:
  "typed_server e \<Longrightarrow> typed_object a \<Longrightarrow> writes typed_write (updateReplicaStatusFromOwner e a owner)"
  unfolding updateReplicaStatusFromOwner_def Let_def
  by (intro writes typed_get_workload) (simp_all add: writes typed_writeI typed_keeps typed_current typed_counts)

lemma typed_execute:
  assumes "typed_server e" "typed_object a" shows "writes typed_write (executeScalingChanges e a d)"
proof -
  have "typed_scaling (st\<lparr>ReadyReplicas := Some 0, AvailableReplicas := Some 0\<rparr>)"
    "typed_scaling (st\<lparr>ReadyReplicas := Some 0, AvailableReplicas := Some 0, DesiredClaimTemplate := name\<rparr>)" if "typed_scaling st" for st name
    using that by (simp_all add: typed_scaling_def optional_from_def int32_from_def)
  then have "writes typed_write (applyResourceChanges e a d)"
    using typed_current [OF assms(2)] assms unfolding applyResourceChanges_def Let_def
    by (auto intro!: writes typed_templates typed_owner typed_writeI typed_keeps(3))
  moreover have "writes typed_write (applyReplicaChanges e a d)"
    unfolding applyReplicaChanges_def patch_kinds
    by (auto intro!: writes typed_patch typed_replica_status assms split: if_split)
  ultimately show ?thesis unfolding executeScalingChanges_def by (intro writes)
qed

lemma typed_update_scaling:
  assumes "typed_object a" "run_state (updateScalingStatus e a d l oi ot) s = ((u, a'), s')"
  shows "typed_object a'" "\<exists>cs. calls s' = calls s @ cs \<and> list_all typed_write cs"
  using assms(2) typed_scaled [OF assms(1)] unfolding update_scaling_run
  by (auto simp: Let_def typed_write_def split: prod.splits)

lemma typed_apply:
  assumes "typed_server e" shows "writes typed_write (applyScalingAction e name ns config rate oi ot)"
proof -
  have act: "writes typed_write (do {
      (u, a) \<leftarrow> updateScalingStatus e a d (EstimatedLatency config) oi ot;
      case u of Inl _ \<Rightarrow> State_Monad.return (Fail ''failed to update status'') | Inr _ \<Rightarrow> executeScalingChanges e a d })"
    if "typed_object a" for a d
    by (rule writes_tie) (auto intro!: writes typed_execute assms dest: typed_update_scaling [OF that])
  show ?thesis unfolding applyScalingAction_def
    by (intro typed_get_autoscaler [OF assms] act writes writes_reads [OF reads_template] writes_reads [OF reads_grace])
qed

lemma typed_round: "typed_server e \<Longrightarrow> writes typed_write (EvaluateAndScale e name ns spec ms)"
  unfolding EvaluateAndScale_def Let_def by (intro writes typed_apply writes_reads [OF reads_offsets])

lemma typed_failure: "typed_server e \<Longrightarrow> writes typed_write (record_failure e name ns)"
  unfolding record_failure_def by (intro typed_get_autoscaler writes typed_writeI typed_keeps)

lemma typed_callback:
  assumes "typed_server e" "\<And>m. writes typed_write m \<Longrightarrow> writes typed_write (retry m)"
  shows "writes typed_write (handleScalingAction e retry name ns spec ms)"
  unfolding handleScalingAction_def
  by (intro writes typed_round assms typed_failure)

lemma typed_cleanup:
  assumes "typed_server e" "typed_object a" shows "writes typed_write (cleanupWorkload e a)"
proof -
  have "int32_from (- (2 ^ 31)) (cleanup_replicas a)"
    using assms(2) by (auto simp: cleanup_replicas_def typed_object_def admitted_def admitted_constraints_def optional_from_def int32_from_def
        split: option.splits)
  then have "typed_workload (w\<lparr>WlReplicas := Some (cleanup_replicas a), WlClaims := cs\<rparr>)" if "typed_workload w" for w cs
    using that by (simp add: typed_workload_def optional_from_def)
  then show ?thesis unfolding cleanupWorkload_def by (intro writes typed_get_workload assms(1) typed_writeI)
qed

lemma typed_discover: "typed_object a \<Longrightarrow> run_state (discover_target e a) s = (Inr b, s') \<Longrightarrow> typed_object b"
  by (auto simp: discover_target_def observe_def Let_def intro!: typed_keeps split: if_splits prod.splits sum.splits fault.splits option.splits)

lemma typed_watch: "typed_object a \<Longrightarrow> writes typed_write (watch_autoscaler e c a)"
  unfolding watch_autoscaler_def wait_for_def finish_status_def
  by (intro writes typed_writeI typed_keeps)

lemma typed_reconcile:
  assumes "typed_server e" shows "writes typed_write (Reconcile e ns name c)"
proof -
  have "writes typed_write (reconcile_live e c a)" if a: "typed_object a" for c a
  proof -
    have "writes typed_write (discover_target e a \<bind> (\<lambda>r. case r of Inl f \<Rightarrow> State_Monad.return (Inl f, c) | Inr a \<Rightarrow> watch_autoscaler e c a))"
      by (rule writes_tie) (auto intro!: writes typed_watch split: sum.split dest: typed_discover [OF a] readsD [OF reads_discover])
    then show ?thesis unfolding reconcile_live_def by (intro writes_if) (auto intro!: writes typed_writeI simp: a typed_keeps)
  qed
  moreover have "writes typed_write (reconcile_deleted e c a)" if "typed_object a" for c a
    unfolding reconcile_deleted_def
    using that by (auto intro!: writes typed_cleanup assms typed_writeI simp: typed_keeps)
  ultimately show ?thesis unfolding Reconcile_def Let_def by (intro typed_get_autoscaler [OF assms] writes)
qed

lemma typed_cleanup_templates: "writes typed_write (CleanupOldResourceClaimTemplates e a)"
proof -
  have "writes typed_write (delete_unused e desired bound pending ts)" for desired bound pending ts
    by (induction ts) (auto intro!: writes typed_writeI)
  then show ?thesis unfolding CleanupOldResourceClaimTemplates_def Let_def by (auto intro!: writes)
qed

lemma typed_claim_updated: "typed_server e \<Longrightarrow> writes typed_write (handleResourceClaimUpdate e claim old)"
  unfolding handleResourceClaimUpdate_def replica_status_agree
  by (intro writes typed_get_autoscaler typed_replica_status typed_cleanup_templates)

lemma typed_claim_deleted: "typed_server e \<Longrightarrow> writes typed_write (after_claim_deleted e claim name template)"
  unfolding after_claim_deleted_def replica_status_agree DeleteTemplate_def
  by (intro writes typed_get_autoscaler typed_replica_status typed_writeI)

section \<open>Type preservation\<close>

text \<open>C8: as long as the server answers with objects that satisfy the schema, every autoscaler and workload that a
  reconciliation, a scaling callback or a claim handler writes satisfies it too: counts and latencies stay in the range
  of their fields, whatever the metrics, and a stored estimation has both latencies.\<close>

theorem objects_stay_typed:
  assumes "typed_server e" "\<And>m. writes typed_write m \<Longrightarrow> writes typed_write (retry m)"
  shows "writes typed_write (Reconcile e ns name c) \<and> writes typed_write (handleScalingAction e retry name ns spec ms) \<and>
    writes typed_write (handleResourceClaimUpdate e claim old) \<and> writes typed_write (after_claim_deleted e claim name template)"
  by (intro conjI typed_reconcile typed_callback typed_claim_updated typed_claim_deleted assms)

definition one_autoscaler :: "autoscaler \<Rightarrow> 'w env" where
  "one_autoscaler a = empty_cluster\<lparr>get_autoscaler := \<lambda>_ w. (Inr a, w)\<rparr>"

lemma one_typed: "typed_object a \<Longrightarrow> typed_server (one_autoscaler a)"
  by (simp add: typed_server_def one_autoscaler_def empty_cluster_def)

lemma live_typed: "typed_object live_autoscaler"
  by (simp add: typed_object_def typed_status_def typed_scaling_def admitted_def live_autoscaler_def sample_autoscaler_def
      empty_scaling_status_def optional_from_def int32_from_def)

lemma objects_stay_typed_witness:
  "writes typed_write (Reconcile (one_autoscaler live_autoscaler :: unit env) ''default'' ''rca'' sample_controller) \<and>
   writes typed_write (handleScalingAction (one_autoscaler live_autoscaler :: unit env) (retry_times 5) ''rca'' ''default'' (Spec live_autoscaler) Map.empty)"
  using objects_stay_typed [OF one_typed [OF live_typed], of "retry_times 5"] writes_retry by blast

end
