(* ===== verification/System_Safety.thy ===== *)
theory System_Safety
  imports System Typed_Writes
begin

text \<open>
  The specifications the service monitor holds: in the events it caches them for, in the triggers that wait to be handled
  and in the callbacks it has started. Each was read from the cluster, so each is one the schema admits; with that, a
  scaling callback of a running system can fail to return for two reasons only, both named in the statement.
\<close>

section \<open>The specifications a monitor holds\<close>

definition event_holds :: "(rca_spec \<Rightarrow> bool) \<Rightarrow> monitoring_event \<Rightarrow> bool" where
  "event_holds P ev \<longleftrightarrow> pred_option P (EvSpec ev) \<and> list_all (\<lambda>t. pred_option P (TeSpec t)) (EvQueue ev)"

definition holds_only :: "(rca_spec \<Rightarrow> bool) \<Rightarrow> service_monitor \<Rightarrow> bool" where
  "holds_only P m \<longleftrightarrow> list_all (event_holds P) (SmHeap m) \<and> list_all (\<lambda>(_, _, spec, _). P spec) (SmNotified m)"

definition controller_holds :: "(rca_spec \<Rightarrow> bool) \<Rightarrow> controller \<Rightarrow> bool" where
  "controller_holds P c \<longleftrightarrow> pred_option (holds_only P) (Watcher c)"

text \<open>Every specification the cluster answers with.\<close>

definition serves_only :: "(rca_spec \<Rightarrow> bool) \<Rightarrow> 'w env \<Rightarrow> bool" where
  "serves_only P e \<longleftrightarrow> (\<forall>k w a w'. get_autoscaler e k w = (Inr a, w') \<longrightarrow> P (Spec a))"

lemma holds_put:
  assumes "holds_only P m" "i < length (SmHeap m) \<Longrightarrow> event_holds P (SmHeap m ! i) \<Longrightarrow> event_holds P ev"
  shows "holds_only P (put i ev m)"
  using assms by (cases "i < length (SmHeap m)") (auto simp: holds_only_def put_def list_all_length nth_list_update)

lemma holds_fields [simp]:
  "holds_only P (m\<lparr>SmEvents := es\<rparr>) = holds_only P m" "holds_only P (m\<lparr>SmRunning := b\<rparr>) = holds_only P m"
  "holds_only P (m\<lparr>SmCallback := b\<rparr>) = holds_only P m" "holds_only P (m\<lparr>SmPending := ps\<rparr>) = holds_only P m"
  "holds_only P (m\<lparr>SmCrashed := b\<rparr>) = holds_only P m"
  by (simp_all add: holds_only_def)

lemma event_fields [simp]:
  "event_holds P (ev\<lparr>EvTimer := t\<rparr>) = event_holds P ev" "event_holds P (ev\<lparr>EvDone := b\<rparr>) = event_holds P ev"
  "event_holds P (ev\<lparr>EvClosed := b\<rparr>) = event_holds P ev" "event_holds P (ev\<lparr>EvMonitorDone := b\<rparr>) = event_holds P ev"
  "event_holds P (ev\<lparr>EvLoop := l\<rparr>) = event_holds P ev" "event_holds P (rearmed ev) = event_holds P ev"
  "event_holds P (ev\<lparr>EvLast := n\<rparr>) = event_holds P ev"
  by (simp_all add: event_holds_def rearmed_def)

lemma release_holds: "release ev = Inr ev' \<Longrightarrow> event_holds P ev' = event_holds P ev"
  by (auto simp: release_def split: if_splits)

lemma outcome_holds: "holds_only P (snd r) \<Longrightarrow> holds_only P (outcome r)"
  by (cases r) (auto simp: outcome_def split: sum.split fault.split)

lemma unregister_holds: "holds_only P m \<Longrightarrow> holds_only P (snd (Unregister m name ns))"
  by (auto simp: Unregister_def release_holds intro: holds_put split: option.split sum.split)

lemma update_holds: "holds_only P m \<Longrightarrow> P spec \<Longrightarrow> holds_only P (snd (UpdateCachedSpec m name ns (Some spec)))"
  by (auto simp: UpdateCachedSpec_def event_holds_def intro: holds_put split: option.split)

lemma rearm_holds: "holds_only P m \<Longrightarrow> holds_only P (snd (UpdateTriggerTime m name ns))"
  by (auto simp: UpdateTriggerTime_def intro: holds_put split: option.split)

lemma register_holds:
  assumes "holds_only P m" "P spec"
  shows "holds_only P (snd (RegisterWithCollector m name ns (Some spec) b now))"
proof -
  have c: "holds_only P m'" if "cancel_existing m key = Inr m'" for key m'
    using that assms(1) by (auto simp: cancel_existing_def release_holds intro!: holds_put split: option.splits sum.splits)
  have "event_holds P (new_event name ns (Some spec) up down now)" for up down
    using assms(2) by (simp add: event_holds_def new_event_def)
  then show ?thesis using assms c
    by (auto simp: RegisterWithCollector_def holds_only_def split: sum.split)
qed

lemma start_holds: "holds_only P m \<Longrightarrow> holds_only P (snd (Start m))"
  by (simp add: Start_def)

text \<open>The steps of timers and loops hand on what the events hold.\<close>

lemma run_holds:
  assumes "sm_run m m'" "holds_only P m" shows "holds_only P m'"
  using assms(1)
proof cases
  case (callback_send i g)
  then show ?thesis using assms(2) by (auto intro!: holds_put simp: event_holds_def trigger_of_def)
next
  case (loop_skip i t q)
  then show ?thesis using assms(2) by (auto intro!: holds_put simp: event_holds_def)
next
  case (loop_collect i t q spec now ms)
  let ?m = "put i ((SmHeap m ! i)\<lparr>EvQueue := q, EvLast := now, EvLoop := Rearming\<rparr>) m"
  have "event_holds P (SmHeap m ! i)" using assms(2) loop_collect(2) by (simp add: holds_only_def list_all_length)
  then have "P spec" using loop_collect(4,5) by (simp add: event_holds_def)
  moreover have "holds_only P ?m" using assms(2) loop_collect(4) by (intro holds_put) (auto simp: event_holds_def)
  ultimately show ?thesis using loop_collect(1) by (simp add: notifyScalingAction_def holds_only_def)
next
  case (loop_rearm i)
  then show ?thesis using assms(2) by (auto intro!: outcome_holds rearm_holds holds_put)
qed (use assms(2) in \<open>auto intro!: holds_put\<close>)

section \<open>Reconciliations\<close>

lemma ensured_holds: "controller_holds P c \<Longrightarrow> controller_holds P (ensure_started c)"
  by (cases "Watcher c") (auto simp: controller_holds_def ensure_started_def start_holds)

lemma unwatch_holds: "controller_holds P c \<Longrightarrow> controller_holds P (snd (unregister_watch c name ns))"
  using unregister_holds [of P _ name ns]
  by (auto simp: controller_holds_def unregister_watch_def split: option.split prod.split sum.split fault.split)
     (metis snd_conv)+

lemma unwatched_holds: "unregister_watch c name ns = (r, c') \<Longrightarrow> controller_holds P c \<Longrightarrow> controller_holds P c'"
  using unwatch_holds [of P c name ns] by simp

lemma yields_watch:
  assumes "controller_holds P c" "P (Spec a)"
  shows "yields (\<lambda>(_, c'). controller_holds P c') (watch_autoscaler e c a)"
proof -
  have u: "holds_only P m'" if "UpdateCachedSpec m (AsName a) (AsNamespace a) (Some (Spec a)) = (r, m')" "Watcher c = Some m" for r m m'
    using update_holds [of P m "Spec a" "AsName a" "AsNamespace a"] that assms by (simp add: controller_holds_def)
  have n: "holds_only P m'" if "NewRegisteration m a now = (r, m')" "Watcher c = Some m" for r m m' now
    using register_holds [of P m "Spec a" "AsName a" "AsNamespace a" "GetEffectiveBehavior (Spec a)" now] that assms
    by (simp add: controller_holds_def NewRegisteration_def)
  show ?thesis unfolding watch_autoscaler_def wait_for_def finish_status_def
    using assms(1) by (intro yields yields_return) (auto simp: controller_holds_def dest: u n)
qed

lemma discover_spec:
  "yields (\<lambda>r. \<forall>b. r = Inr b \<longrightarrow> Spec b = Spec a) (discover_target e a)"
  unfolding discover_target_def Let_def
  by (intro yields yields_return) (auto simp: add_condition_def split: sum.splits fault.splits option.splits)

lemma yields_reconcile:
  assumes "controller_holds P c" "serves_only P e"
  shows "yields (\<lambda>(_, c'). controller_holds P c') (Reconcile e ns name c)"
proof -
  let ?Q = "\<lambda>(_ :: reconcile_result res, c'). controller_holds P c'"
  have live: "yields ?Q (reconcile_live e c a)" if "controller_holds P c" "P (Spec a)" for c a
  proof -
    have "yields ?Q (discover_target e a \<bind> (\<lambda>r. case r of Inl f \<Rightarrow> State_Monad.return (Inl f, c) | Inr a \<Rightarrow> watch_autoscaler e c a))"
      by (rule yields_bind [OF discover_spec [of a]]) (use that in \<open>auto intro!: yields yields_return yields_watch\<close>)
    then show ?thesis using that(1) unfolding reconcile_live_def by (auto intro!: yields_if yields_after yields_return)
  qed
  have deleted: "yields ?Q (reconcile_deleted e c a)" if "controller_holds P c" for c a
    using that unfolding reconcile_deleted_def by (auto intro!: yields yields_return dest: unwatched_holds)
  have got: "yields (\<lambda>r. \<forall>a. r = Inr a \<longrightarrow> P (Spec a)) (observe (get_autoscaler e (ns, name)))"
  proof (rule yields_observed)
    fix w r w' assume "get_autoscaler e (ns, name) w = (r, w')"
    then show "\<forall>a. r = Inr a \<longrightarrow> P (Spec a)" using assms(2) unfolding serves_only_def by blast
  qed
  show ?thesis unfolding Reconcile_def Let_def
    by (rule yields_bind [OF got]) (use ensured_holds [OF assms(1)] live deleted in
        \<open>auto intro!: yields yields_return dest: unwatched_holds split: sum.split\<close>)
qed

section \<open>The system\<close>

lemma sys_holds:
  assumes "serves_only P e" "sys_reach objs e retry x" shows "controller_holds P (fst x)"
  using assms(2)
proof induction
  case (sys_new w)
  show ?case by (simp add: controller_holds_def holds_only_def new_controller_def setup_watcher_def SetScalingActionCallback_def NewServiceMonitor_def)
next
  case (sys_next x y)
  from sys_next(2) show ?case
  proof cases
    case (reconciles ns name c w r c' s')
    then show ?thesis using yieldsD [OF yields_reconcile [OF _ assms(1)] reconciles(3)] sys_next.IH by simp
  next
    case (watcher_runs c m m' w)
    then show ?thesis using run_holds [OF watcher_runs(4)] sys_next.IH by (simp add: controller_holds_def)
  next
    case (monitor_set c w b) then show ?thesis using sys_next.IH by (simp add: controller_holds_def SetMonitor_def)
  next
    case (restarts c w w')
    then show ?thesis
      by (simp add: controller_holds_def holds_only_def new_controller_def setup_watcher_def SetScalingActionCallback_def NewServiceMonitor_def)
  qed (use sys_next.IH in simp_all)
qed

text \<open>C6: in whatever order reconciliations, timers, loops, claim events and restarts interleave, a scaling callback the
  monitor has started works on a specification the schema admits and returns without an error, whatever the metrics and
  the cluster's answers and failures: every error of the round ends in the callback. There are two ways left not to
  return, each tied to its cause: a panic, only if the cluster answers this autoscaler with an estimation that lacks one of
  its two latencies (optional in the schema, always both in what the controller writes), and an endless search, only on
  capacity quantities whose compute step does not go down, such as the step zero the schema admits. The server is assumed
  to answer with specifications that satisfy the schema.\<close>

theorem callbacks_return:
  assumes "serves_only admitted e" "registries e"
    and "sys_reach objs e retry (c, w)" "Watcher c = Some m" "(name, ns, spec, ms) \<in> set (SmNotified m)"
    and "fst (run_state (handleScalingAction e retry name ns spec ms) s) = r"
  shows "admitted spec \<and>
    (r = Ok () \<or> (\<exists>msg. r = Inl (Panic msg)) \<and> half_estimated e (ns, name) \<or> r = Inl Hang \<and> (\<forall>k. \<not> steps_down k spec))"
proof -
  have a: "admitted spec"
    using sys_holds [OF assms(1,3)] assms(4,5) by (auto simp: controller_holds_def holds_only_def list_all_iff)
  have "ends_unless (half_estimated e (ns, name)) (\<forall>k. \<not> steps_down k spec) r \<and> (\<forall>msg. r \<noteq> Fail msg)"
    using yields_callback [OF yields_round [OF a assms(2), where ns = ns and name = name and ms = ms], where retry = retry] assms(6)
    unfolding yields_def by blast
  then show ?thesis using a by (cases r) (auto simp: ends_unless_def split: fault.splits)
qed

text \<open>A run of timers and loops is a run of the system.\<close>

lemma run_stays_crashed: "sm_run m m' \<Longrightarrow> SmCrashed m \<Longrightarrow> SmCrashed m'"
  by (erule sm_runE) (auto simp: notifyScalingAction_def UpdateTriggerTime_def outcome_def split: option.splits if_splits)

lemma watcher_reaches:
  assumes "sm_run\<^sup>*\<^sup>* m m'" "\<not> SmCrashed m'" "sys_reach objs e retry (c, w)" "Watcher c = Some m"
  shows "sys_reach objs e retry (c\<lparr>Watcher := Some m'\<rparr>, w)"
  using assms
proof (induction rule: rtranclp_induct)
  case base
  then have c: "c\<lparr>Watcher := Some m\<rparr> = c" by (cases c) simp
  show ?case unfolding c by (rule base(2))
next
  case (step y z)
  then have "\<not> SmCrashed y" using run_stays_crashed by blast
  then have "sys_reach objs e retry (c\<lparr>Watcher := Some y\<rparr>, w)" using step by blast
  from sys_next [OF this watcher_runs [OF _ step(2,4)]] show ?case by simp
qed

definition safe_server :: "unit env" where
  "safe_server = (one_autoscaler live_autoscaler)\<lparr>gpu_order := gpuRegistry, model_order := modelFamilyMap\<rparr>"

lemma safe_server: "serves_only (\<lambda>spec. admitted spec \<and> steps_down 0 spec) safe_server" "registries safe_server"
    "\<not> half_estimated safe_server k"
  using live_typed
  by (simp_all add: typed_object_def half_estimated_def registries_def serves_only_def safe_server_def one_autoscaler_def empty_cluster_def steps_down_def
      extractGPUConstraints_def default_gpu_constraints_def live_autoscaler_def sample_autoscaler_def f64_eval wf64_def)

lemma callbacks_return_witness:
  "\<exists>(c :: controller) m name ns spec ms. sys_reach (\<lambda>_ _. None) safe_server id (c, ()) \<and> Watcher c = Some m \<and>
     (name, ns, spec, ms) \<in> set (SmNotified m) \<and> admitted spec \<and>
     fst (run_state (handleScalingAction safe_server id name ns spec ms) \<lparr>world = (), calls = []\<rparr>) = Ok ()"
proof -
  let ?reach = "sys_reach (\<lambda>_ _. None) safe_server id" and ?c = "SetMonitor new_controller True"
  have r0: "?reach (?c, ())" using sys_next [OF sys_new monitor_set] .
  have "\<exists>s. run_state (Reconcile safe_server ''default'' ''rca'' ?c) \<lparr>world = (), calls = []\<rparr> = ((Ok Done, sample_controller), s)"
    by (simp add: Reconcile_def observe_def safe_server_def one_autoscaler_def empty_cluster_def live_autoscaler_def sample_autoscaler_def
        SetMonitor_def new_controller_def setup_watcher_def ensure_started_def Start_def SetScalingActionCallback_def NewServiceMonitor_def
        reconcile_live_def discover_target_def DiscoverFromService_def add_condition_def watch_autoscaler_def IsRegistered_def
        NewRegisteration_def RegisterWithCollector_def cancel_existing_def GetEffectiveBehavior_def GetDefaultScalingBehavior_def deref_def
        event_key_def finish_status_def updateStatus_def emit_def sample_controller_def sample_monitor_def sample_event_def
        sample_spec_rca_def DefaultPeriodSeconds_def Let_def)
  then have r1: "?reach (sample_controller, ())" using sys_next [OF r0 reconciles] by fastforce
  have "collects sample_monitor 0"
    by (rule collects_armed [of _ _ 0]) (simp_all add: sample_monitor_def sample_event_def new_event_def NewServiceMonitor_def ev_ok_def)
  then obtain m spec ms where m: "sm_run\<^sup>*\<^sup>* sample_monitor m" "\<not> SmCrashed m"
      "(EvAutoscaler (SmHeap sample_monitor ! 0), EvNamespace (SmHeap sample_monitor ! 0), spec, ms) \<in> set (SmNotified m)"
    unfolding collects_def by fastforce
  have "?reach (sample_controller\<lparr>Watcher := Some m\<rparr>, ())"
    by (rule watcher_reaches [OF m(1,2) r1]) (simp add: sample_controller_def)
  note reached = this
  have served: "serves_only admitted safe_server" using safe_server(1) unfolding serves_only_def by blast
  have "steps_down 0 spec"
    using sys_holds [OF safe_server(1) reached] m(3) by (auto simp: controller_holds_def holds_only_def list_all_iff)
  then show ?thesis using callbacks_return [OF served safe_server(2) reached _ m(3) refl] safe_server(3) reached m(3)
    by (intro exI [of _ "sample_controller\<lparr>Watcher := Some m\<rparr>"] exI [of _ m] exI [of _ "EvAutoscaler (SmHeap sample_monitor ! 0)"]
        exI [of _ "EvNamespace (SmHeap sample_monitor ! 0)"] exI [of _ spec] exI [of _ ms]) auto
qed

end
