(* ===== verification/System_Liveness.thy ===== *)
theory System_Liveness
  imports System_Safety
begin

text \<open>
  What reconciling achieves when the cluster cooperates: two rounds of it bring an autoscaler to where its
  specification wants it. A live one ends with the finalizer and, once a Prometheus monitor is configured, registered with
  its present specification; one that
  is being deleted ends unregistered and without the finalizer, so that the API server can remove it.
\<close>

section \<open>A cooperative cluster\<close>

text \<open>All of an autoscaler but its status.\<close>

definition bare :: "autoscaler \<Rightarrow> autoscaler" where
  "bare a = a\<lparr>Status := \<lparr>Discovery = None, ScalingResults = None, ScalingStatus = None, Conditions = []\<rparr>\<rparr>"

definition same_objects :: "('w \<Rightarrow> key \<Rightarrow> autoscaler option) \<Rightarrow> 'w \<Rightarrow> 'w \<Rightarrow> bool" where
  "same_objects objs w w' \<longleftrightarrow> (\<forall>k. map_option bare (objs w' k) = map_option bare (objs w k))"

text \<open>Answers are the stored objects; writes of stored autoscalers succeed, replace all but the status, and remove an
  object that is being deleted with its last finalizer; no other call touches an autoscaler but in its status.\<close>

definition cooperative :: "('w \<Rightarrow> key \<Rightarrow> autoscaler option) \<Rightarrow> 'w env \<Rightarrow> bool" where
  "cooperative objs e \<longleftrightarrow> obeys (same_objects objs) e \<and>
     (\<forall>k w. fst (get_autoscaler e k w) = (case objs w k of None \<Rightarrow> Inl NotFound | Some a \<Rightarrow> Inr a)) \<and>
     (\<forall>k w a. objs w k = Some a \<longrightarrow> autoscaler_key a = k) \<and>
     (\<forall>a w. objs w (autoscaler_key a) \<noteq> None \<longrightarrow> fst (update_autoscaler e a w) = Inr () \<and>
        map_option bare (objs (snd (update_autoscaler e a w)) (autoscaler_key a)) =
          (if AsDeletion a \<noteq> None \<and> AsFinalizers a = [] then None else Some (bare a))) \<and>
     (\<forall>a w k. k \<noteq> autoscaler_key a \<longrightarrow> map_option bare (objs (snd (update_autoscaler e a w)) k) = map_option bare (objs w k))"

text \<open>Workloads are found or gone, and can be written.\<close>

definition workloads_writable :: "'w env \<Rightarrow> bool" where
  "workloads_writable e \<longleftrightarrow> (\<forall>kind k w err. fst (get_workload e kind k w) = Inl err \<longrightarrow> err = NotFound) \<and>
     (\<forall>kind x w. fst (update_workload e kind x w) = Inr ())"

definition discovery_returns :: "'w env \<Rightarrow> bool" where
  "discovery_returns e \<longleftrightarrow> (\<forall>svc ns cls w. survives (fst (DiscoverFromService e svc ns cls w)))"

text \<open>One round of reconciliation, as a function on the state of the system.\<close>

definition reconciled :: "'w env \<Rightarrow> string \<Rightarrow> string \<Rightarrow> controller \<times> 'w \<Rightarrow> controller \<times> 'w" where
  "reconciled e ns name x =
     (case run_state (Reconcile e ns name (fst x)) \<lparr>world = snd x, calls = []\<rparr> of ((r, c), s) \<Rightarrow> (c, world s))"

interpretation same: world_relation "same_objects objs" for objs
  by unfold_locales (auto simp: same_objects_def)

lemma bare_fields: "bare a = bare b \<Longrightarrow> Spec a = Spec b \<and> AsFinalizers a = AsFinalizers b \<and> AsDeletion a = AsDeletion b \<and>
    AsName a = AsName b \<and> AsNamespace a = AsNamespace b"
  by (simp add: bare_def) (metis autoscaler.ext_inject autoscaler.surjective autoscaler.update_convs(10))

lemma cooperativeD:
  assumes "cooperative objs e"
  shows "obeys (same_objects objs) e" "fst (get_autoscaler e k w) = (case objs w k of None \<Rightarrow> Inl NotFound | Some a \<Rightarrow> Inr a)"
    "objs w k = Some a \<Longrightarrow> autoscaler_key a = k"
    "objs w (autoscaler_key a) \<noteq> None \<Longrightarrow> fst (update_autoscaler e a w) = Inr ()"
    "objs w (autoscaler_key a) \<noteq> None \<Longrightarrow> map_option bare (objs (snd (update_autoscaler e a w)) (autoscaler_key a)) =
          (if AsDeletion a \<noteq> None \<and> AsFinalizers a = [] then None else Some (bare a))"
    "k \<noteq> autoscaler_key a \<Longrightarrow> map_option bare (objs (snd (update_autoscaler e a w)) k) = map_option bare (objs w k)"
  using assms unfolding cooperative_def by blast+

lemma holds_bare: "holds_finalizer objs w k \<longleftrightarrow> (\<exists>a. map_option bare (objs w k) = Some (bare a) \<and> FinalizerName \<in> set (AsFinalizers a))"
proof
  assume "holds_finalizer objs w k"
  then show "\<exists>a. map_option bare (objs w k) = Some (bare a) \<and> FinalizerName \<in> set (AsFinalizers a)" unfolding holds_finalizer_def by auto
next
  assume "\<exists>a. map_option bare (objs w k) = Some (bare a) \<and> FinalizerName \<in> set (AsFinalizers a)"
  then obtain a b where "objs w k = Some b" "bare b = bare a" "FinalizerName \<in> set (AsFinalizers a)" by (cases "objs w k") auto
  then show "holds_finalizer objs w k" using bare_fields [of b a] unfolding holds_finalizer_def by simp
qed

lemma same_at: "same_objects objs w w' \<Longrightarrow> map_option bare (objs w' k) = map_option bare (objs w k)"
  unfolding same_objects_def by blast

lemma same_holds: "same_objects objs w w' \<Longrightarrow> holds_finalizer objs w' k = holds_finalizer objs w k"
  using same_at [of objs w w' k] unfolding holds_bare by simp

lemma same_keeps: "same_objects objs w w' \<Longrightarrow> keeps objs w w'"
  unfolding keeps_def by (intro allI impI) (simp add: same_holds)

lemma obeys_mono:
  assumes "\<And>w w'. R w w' \<Longrightarrow> Q w w'" "obeys R e" shows "obeys Q e"
  using assms(2) unfolding obeys_def drifts_def by (auto intro: assms(1))

lemma same_stored:
  assumes "same_objects objs w w'" "objs w k = Some a"
  shows "\<exists>b. objs w' k = Some b \<and> bare b = bare a"
proof -
  have "map_option bare (objs w' k) = Some (bare a)" using same_at [OF assms(1), of k] unfolding assms(2) by simp
  then show ?thesis unfolding map_option_eq_Some .
qed

lemma same_absent:
  assumes "same_objects objs w w'" "objs w k = None"
  shows "objs w' k = None"
proof -
  have "map_option bare (objs w' k) = None" using same_at [OF assms(1), of k] unfolding assms(2) by simp
  then show ?thesis unfolding map_option_is_None .
qed

lemma cooperative_server:
  assumes "cooperative objs e" shows "api_server objs e"
  unfolding api_server_def
proof (intro conjI allI impI)
  show "obeys (keeps objs) e" by (rule obeys_mono [OF same_keeps cooperativeD(1) [OF assms]])
next
  fix k w a w' assume g: "get_autoscaler e k w = (Inr a, w')"
  then show o: "objs w k = Some a" using cooperativeD(2) [OF assms, of k w] by (cases "objs w k") auto
  then show "autoscaler_key a = k" using cooperativeD(3) [OF assms] by blast
next
  fix a w k assume h: "holds_finalizer objs w k" "k \<noteq> autoscaler_key a \<or> FinalizerName \<in> set (AsFinalizers a)"
  show "holds_finalizer objs (snd (update_autoscaler e a w)) k"
  proof (cases "k = autoscaler_key a")
    case True
    then have "objs w (autoscaler_key a) \<noteq> None" "AsFinalizers a \<noteq> []" using h by (auto simp: holds_finalizer_def)
    then show ?thesis using cooperativeD(5) [OF assms, of w a] h(2) True unfolding holds_bare by auto
  next
    case False
    then show ?thesis using cooperativeD(6) [OF assms, of k a w] h(1) unfolding holds_bare by simp
  qed
qed

section \<open>A round returns\<close>

lemma yields_discovered:
  assumes "discovery_returns e" shows "yields (\<lambda>r. \<exists>b. r = Inr b) (discover_target e a)"
proof -
  have "yields survives (observe (DiscoverFromService e svc ns cls))" for svc ns cls
    using assms by (auto simp: discovery_returns_def yields_def observe_def split: prod.split) (metis fst_conv)
  then show ?thesis unfolding discover_target_def Let_def
    by (intro yields_if yields_bind [where Q = survives] yields_return) (auto simp: survives_def split: sum.split fault.split option.split)
qed

lemma watch_survives:
  assumes "Watcher c = Some m" "started m" shows "yields (\<lambda>(r, _). survives r) (watch_autoscaler e c a)"
  using assms unfolding watch_autoscaler_def wait_for_def finish_status_def
  by (auto intro!: yields yields_return simp: UpdateCachedSpec_registered NewRegisteration_started split: sum.split)

lemma reconcile_survives:
  assumes "discovery_returns e" "Watcher (ensure_started c) = Some m" "started m"
  shows "yields (\<lambda>(r, _). survives r) (Reconcile e ns name c)"
proof -
  let ?c = "ensure_started c"
  have live: "yields (\<lambda>(r, _). survives r) (reconcile_live e ?c a)" for a
    unfolding reconcile_live_def
    by (intro yields_if yields_bind [OF yields_discovered [OF assms(1)]] yields_after yields_return)
       (auto intro: watch_survives [OF assms(2,3)] split: sum.split)
  have cleanup: "yields survives (cleanupWorkload e a)" for a
    unfolding cleanupWorkload_def by (intro yields yields_return) (auto split: sum.split)
  have deleted: "yields (\<lambda>(r, _). survives r) (reconcile_deleted e ?c a)" for a
    unfolding reconcile_deleted_def unregister_watch_started [OF assms(2,3)] prod.case sum.case
    by (intro yields_if yields_bind [where Q = survives] yields_after yields_return)
       (auto intro!: cleanup yields yields_return split: sum.split)
  show ?thesis unfolding Reconcile_def Let_def
    by (intro yields_after) (auto intro!: live deleted yields_return split: sum.split simp: unregister_watch_started [OF assms(2,3)])
qed

lemma keeps_monitor: "yields (\<lambda>(_, c'). MonitorSet c' = MonitorSet c) (Reconcile e ns name c)"
proof -
  have e: "MonitorSet (ensure_started c) = MonitorSet c" by (simp add: ensure_started_def)
  have u: "unregister_watch c x y = (r, c') \<Longrightarrow> MonitorSet c' = MonitorSet c" for c c' x y r
    by (auto simp: unregister_watch_def split: option.splits prod.splits sum.splits fault.splits)
  show ?thesis
    unfolding Reconcile_def reconcile_live_def reconcile_deleted_def watch_autoscaler_def wait_for_def finish_status_def Let_def
    by (intro yields yields_return) (auto simp: e dest: u)
qed

section \<open>What a round leaves\<close>

text \<open>The object a round leaves of a live autoscaler, but for its status.\<close>

definition with_finalizer :: "autoscaler \<Rightarrow> autoscaler" where
  "with_finalizer a = (if FinalizerName \<in> set (AsFinalizers a) then a else a\<lparr>AsFinalizers := AsFinalizers a @ [FinalizerName]\<rparr>)"

lemma got_stored:
  assumes "cooperative objs e"
  obtains w' where "get_autoscaler e k w = (case objs w k of None \<Rightarrow> Inl NotFound | Some a \<Rightarrow> Inr a, w')" "same_objects objs w w'"
proof -
  obtain r w' where g: "get_autoscaler e k w = (r, w')" by fastforce
  have "same_objects objs w w'" by (rule driftsD [OF obeysD(1) [OF cooperativeD(1) [OF assms]] g])
  then show thesis using that g cooperativeD(2) [OF assms, of k w] by simp
qed

lemma live_round:
  assumes "cooperative objs e" "objs w (ns, name) = Some a" "AsDeletion a = None"
    and "run_state (Reconcile e ns name c) \<lparr>world = w, calls = []\<rparr> = ((r, c'), s')"
  shows "\<exists>b. objs (world s') (ns, name) = Some b \<and> bare b = bare (with_finalizer a)"
proof -
  obtain w1 where g: "get_autoscaler e (ns, name) w = (Inr a, w1)" "same_objects objs w w1"
    using got_stored [OF assms(1), of "(ns, name)" w] assms(2) by auto
  obtain b where b: "objs w1 (ns, name) = Some b" "bare b = bare a" using same_stored [OF g(2) assms(2)] by blast
  have run: "run_state (reconcile_live e (ensure_started c) a) \<lparr>world = w1, calls = []\<rparr> = ((r, c'), s')"
    using assms(3,4) g(1) by (simp add: Reconcile_def observe_def Let_def)
  show ?thesis
  proof (cases "FinalizerName \<in> set (AsFinalizers a)")
    case True
    then have "moves (same_objects objs) (reconcile_live e (ensure_started c) a)"
      by (simp add: reconcile_live_def) (intro same.moves_bind same.moves_cases moves cooperativeD(1) [OF assms(1)])
    then have "same_objects objs w1 (world s')" using run unfolding moves_def by (metis snd_conv sys.select_convs(1))
    from same_stored [OF this b(1)] show ?thesis using b(2) True by (auto simp: with_finalizer_def)
  next
    case False
    let ?b = "a\<lparr>AsFinalizers := AsFinalizers a @ [FinalizerName]\<rparr>"
    have key: "autoscaler_key ?b = (ns, name)" using cooperativeD(3) [OF assms(1,2)] by (simp add: autoscaler_key_def)
    have "world s' = snd (update_autoscaler e ?b w1)"
      using run False by (auto simp: reconcile_live_def updateAutoscaler_def emit_def split: prod.splits)
    then have "map_option bare (objs (world s') (ns, name)) = Some (bare ?b)"
      using cooperativeD(5) [OF assms(1), of w1 ?b] b(1) key by simp
    then show ?thesis using False by (auto simp: with_finalizer_def)
  qed
qed

lemma cleanup_writes:
  assumes "workloads_writable e" shows "yields (\<lambda>r. r = Ok ()) (cleanupWorkload e a)"
proof -
  have g: "yields (\<lambda>r. \<forall>err. r = Inl err \<longrightarrow> err = NotFound) (observe (get_workload e k key))" for k key
  proof (rule yields_observed)
    fix w r w' assume "get_workload e k key w = (r, w')"
    then show "\<forall>err. r = Inl err \<longrightarrow> err = NotFound" using assms unfolding workloads_writable_def by (metis fst_conv)
  qed
  have u: "yields (\<lambda>r. r = Inr ()) (updateWorkload e k x)" for k x
    using assms by (auto simp: workloads_writable_def yields_def updateWorkload_def emit_def split: prod.split) (metis fst_conv)
  show ?thesis unfolding cleanupWorkload_def
    by (intro yields_option yields_bind [OF g] yields_sum yields_bind [OF u] yields_return) auto
qed

lemma dying_round:
  assumes "cooperative objs e" "workloads_writable e" "Watcher (ensure_started c) = Some m" "started m"
    and "\<And>a. objs w (ns, name) = Some a \<Longrightarrow> AsDeletion a \<noteq> None"
    and "run_state (Reconcile e ns name c) \<lparr>world = w, calls = []\<rparr> = ((r, c'), s')"
  shows "\<not> holds_finalizer objs (world s') (ns, name) \<and> (\<forall>b. objs (world s') (ns, name) = Some b \<longrightarrow> AsDeletion b \<noteq> None)"
proof -
  obtain w1 where g: "get_autoscaler e (ns, name) w = (case objs w (ns, name) of None \<Rightarrow> Inl NotFound | Some a \<Rightarrow> Inr a, w1)"
    "same_objects objs w w1" using got_stored [OF assms(1), of "(ns, name)" w] by blast
  show ?thesis
  proof (cases "objs w (ns, name)")
    case None
    then have "world s' = w1" using assms(6) g(1) unregister_watch_started [OF assms(3,4)] by (auto simp: Reconcile_def observe_def Let_def)
    then show ?thesis using same_absent [OF g(2) None] by (simp add: holds_finalizer_def)
  next
    case (Some a)
    note del = assms(5) [OF Some]
    obtain b where b: "objs w1 (ns, name) = Some b" "bare b = bare a" using same_stored [OF g(2) Some] by blast
    have run: "run_state (reconcile_deleted e (ensure_started c) a) \<lparr>world = w1, calls = []\<rparr> = ((r, c'), s')"
      using assms(6) del g(1) Some by (simp add: Reconcile_def observe_def Let_def)
    show ?thesis
    proof (cases "FinalizerName \<in> set (AsFinalizers a)")
      case False
      then have "world s' = w1" using run by (auto simp: reconcile_deleted_def)
      then show ?thesis using b bare_fields [OF b(2)] False del by (simp add: holds_finalizer_def)
    next
      case True
      let ?b = "a\<lparr>AsFinalizers := removeString (AsFinalizers a) FinalizerName\<rparr>"
      let ?m = "if has_template a then cleanupWorkload e a else State_Monad.return (Ok ())"
      obtain q s1 where q: "run_state ?m \<lparr>world = w1, calls = []\<rparr> = (q, s1)" by fastforce
      have "yields (\<lambda>r. r = Ok ()) ?m" by (intro yields_if cleanup_writes [OF assms(2)] yields_return) simp
      then have ok: "q = Ok ()" using yieldsD q by fast
      have "moves (same_objects objs) ?m" by (intro moves cooperativeD(1) [OF assms(1)])
      then have "same_objects objs w1 (world s1)" using q unfolding moves_def by (metis snd_conv sys.select_convs(1))
      from same_stored [OF this b(1)] obtain d where d: "objs (world s1) (ns, name) = Some d" "bare d = bare a" using b(2) by auto
      have key: "autoscaler_key ?b = (ns, name)" using cooperativeD(3) [OF assms(1) Some] by (simp add: autoscaler_key_def)
      have "world s' = snd (update_autoscaler e ?b (world s1))"
        using run True q ok unregister_watch_started [OF assms(3,4)]
        by (auto simp: reconcile_deleted_def updateAutoscaler_def emit_def split: prod.splits)
      then have "map_option bare (objs (world s') (ns, name)) = (if AsFinalizers ?b = [] then None else Some (bare ?b))"
        using cooperativeD(5) [OF assms(1), of "world s1" ?b] d(1) key del by simp
      then have left: "bare x = bare ?b" if "objs (world s') (ns, name) = Some x" for x using that by (auto split: if_splits)
      have "AsDeletion x \<noteq> None \<and> FinalizerName \<notin> set (AsFinalizers x)" if "objs (world s') (ns, name) = Some x" for x
        using bare_fields [OF left [OF that]] del by (simp add: removeString_filter)
      then show ?thesis unfolding holds_finalizer_def by blast
    qed
  qed
qed

section \<open>Two rounds\<close>

lemma reconciled_step:
  assumes "cooperative objs e" "discovery_returns e" "sys_inv objs (c, w)" "CHR ''/'' \<notin> set ns" "reconciled e ns name (c, w) = (c1, w1)"
  obtains r s1 m where "run_state (Reconcile e ns name c) \<lparr>world = w, calls = []\<rparr> = ((r, c1), s1)" "w1 = world s1" "survives r"
    "Watcher (ensure_started c) = Some m" "started m" "sys_inv objs (c1, w1)" "MonitorSet c1 = MonitorSet c"
proof -
  obtain r s1 where run: "run_state (Reconcile e ns name c) \<lparr>world = w, calls = []\<rparr> = ((r, c1), s1)" "w1 = world s1"
  proof -
    obtain r c' s' where q: "run_state (Reconcile e ns name c) \<lparr>world = w, calls = []\<rparr> = ((r, c'), s')" by (metis prod.collapse)
    then show thesis using that [of r s'] assms(5) by (simp add: reconciled_def)
  qed
  obtain m where m: "Watcher (ensure_started c) = Some m" "started m" by (rule sys_inv_ensured [OF assms(3)])
  have sv: "survives r" using yieldsD [OF reconcile_survives [OF assms(2) m] run(1)] by simp
  have inv: "sys_inv objs (c1, w1)" unfolding run(2) by (rule sys_inv_reconcile [OF cooperative_server [OF assms(1)] assms(3,4) sv run(1)])
  have "MonitorSet c1 = MonitorSet c" using yieldsD [OF keeps_monitor run(1)] by simp
  then show thesis by (rule that [OF run sv m inv])
qed

lemma inv_registered:
  assumes "sys_inv objs (c, w)" "Watcher c = Some m" "CHR ''/'' \<notin> set ns" "\<not> holds_finalizer objs w (ns, name)"
  shows "\<not> IsRegistered m name ns"
proof
  assume "IsRegistered m name ns"
  have m: "sm_inv m" "\<And>k. watched m k \<noteq> None \<Longrightarrow> present objs w k" using assms(1,2) by (auto simp: sys_inv_def)
  then have "present objs w (event_key name ns)"
    using \<open>IsRegistered m name ns\<close> registered_watched [OF m(1)] by (simp add: IsRegistered_def)
  then show False using assms(3,4) event_key_inj unfolding present_def by blast
qed

lemma live_registers:
  assumes "cooperative objs e" "Watcher (ensure_started c) = Some m" "started m"
    and "objs w (ns, name) = Some a" "AsDeletion a = None"
    and "run_state (Reconcile e ns name c) \<lparr>world = w, calls = []\<rparr> = ((r, c'), s')" "survives r"
  shows "\<exists>m'. Watcher c' = Some m' \<and> started m' \<and> watched m' (event_key name ns) =
    (if MonitorSet c \<and> FinalizerName \<in> set (AsFinalizers a) then Some (Spec a) else watched m (event_key name ns))"
proof -
  have g: "fst (get_autoscaler e (ns, name) (world \<lparr>world = w, calls = []\<rparr>)) = Inr a"
    using cooperativeD(2) [OF assms(1), of "(ns, name)" w] assms(4) by simp
  have k: "AsName a = name" "AsNamespace a = ns" using cooperativeD(3) [OF assms(1,4)] by (simp_all add: autoscaler_key_def)
  have "MonitorSet (ensure_started c) = MonitorSet c" by (simp add: ensure_started_def)
  then show ?thesis using reconcile_there [OF assms(6,7,2,3) g assms(5)] assms(5) k by (auto simp: tracked_def name_key_def)
qed

lemma ensured_watches: "Watcher c = Some m \<Longrightarrow> Watcher (ensure_started c) = Some m' \<Longrightarrow> watched m' = watched m"
  by (auto simp: ensure_started_def Start_def watched_def fun_eq_iff split: if_splits option.split)

text \<open>C7: in a cluster that cooperates (it answers with the stored objects, accepts their updates and lets their
  workloads be written) and whose answers let the walk of discovery end, two reconciliations settle an autoscaler from any
  reachable state. A live one ends with the finalizer and, once a Prometheus monitor is configured, registered with its
  present specification, whatever was registered before; while none is configured its registration stays as it was. One
  that is being deleted ends unregistered and without the finalizer, whether or not a monitor is configured.\<close>

theorem autoscaler_settles:
  assumes "cooperative objs e" "workloads_writable e" "discovery_returns e" "retries objs retry"
    and "sys_reach objs e retry (c, w)" "objs w (ns, name) = Some a" "CHR ''/'' \<notin> set ns"
    and "reconciled e ns name (reconciled e ns name (c, w)) = (c2, w2)"
  shows "\<exists>m m2. Watcher c = Some m \<and> Watcher c2 = Some m2 \<and>
    (if AsDeletion a = None
     then holds_finalizer objs w2 (ns, name) \<and>
       watched m2 (event_key name ns) = (if MonitorSet c then Some (Spec a) else watched m (event_key name ns))
     else \<not> IsRegistered m2 name ns \<and> \<not> holds_finalizer objs w2 (ns, name))"
proof -
  obtain c1 w1 where one: "reconciled e ns name (c, w) = (c1, w1)" by fastforce
  have inv: "sys_inv objs (c, w)" by (rule sys_reach_inv [OF assms(5) cooperative_server [OF assms(1)] assms(4)])
  obtain m0 where m0: "Watcher c = Some m0" using inv by (auto simp: sys_inv_def)
  obtain r s1 m where r1: "run_state (Reconcile e ns name c) \<lparr>world = w, calls = []\<rparr> = ((r, c1), s1)" "w1 = world s1"
    "survives r" "Watcher (ensure_started c) = Some m" "started m" "sys_inv objs (c1, w1)" "MonitorSet c1 = MonitorSet c"
    using reconciled_step [OF assms(1,3) inv assms(7) one] by metis
  have two: "reconciled e ns name (c1, w1) = (c2, w2)" using assms(8) one by simp
  obtain r' s2 m' where r2: "run_state (Reconcile e ns name c1) \<lparr>world = w1, calls = []\<rparr> = ((r', c2), s2)" "w2 = world s2" "survives r'"
    "Watcher (ensure_started c1) = Some m'" "started m'" "sys_inv objs (c2, w2)"
    using reconciled_step [OF assms(1,3) r1(6) assms(7) two] by metis
  obtain m2 where m2: "Watcher c2 = Some m2" using r2(6) by (auto simp: sys_inv_def)
  show ?thesis
  proof (cases "AsDeletion a")
    case None
    obtain m1 where m1: "Watcher c1 = Some m1" "started m1" "MonitorSet c \<or> watched m1 (event_key name ns) = watched m0 (event_key name ns)"
      using live_registers [OF assms(1) r1(4,5) assms(6) None r1(1,3)] ensured_watches [OF m0 r1(4)] by force
    obtain b where b: "objs w1 (ns, name) = Some b" "bare b = bare (with_finalizer a)"
      using live_round [OF assms(1,6) None r1(1)] r1(2) by blast
    have f: "AsDeletion b = None" "FinalizerName \<in> set (AsFinalizers b)" "Spec b = Spec a"
      using bare_fields [OF b(2)] None by (auto simp: with_finalizer_def split: if_splits)
    have "watched m2 (event_key name ns) = (if MonitorSet c then Some (Spec a) else watched m0 (event_key name ns))"
      using live_registers [OF assms(1) r2(4,5) b(1) f(1) r2(1,3)] r1(7) m1(3) m2 f(2,3) ensured_watches [OF m1(1) r2(4)] by auto
    moreover obtain d where "objs w2 (ns, name) = Some d" "bare d = bare (with_finalizer b)"
      using live_round [OF assms(1) b(1) f(1) r2(1)] r2(2) by blast
    then have "holds_finalizer objs w2 (ns, name)" using bare_fields [of d "with_finalizer b"] f(2) by (simp add: holds_finalizer_def with_finalizer_def)
    ultimately show ?thesis using m0 m2 None by simp
  next
    case (Some t)
    have "AsDeletion x \<noteq> None" if "objs w1 (ns, name) = Some x" for x
      using dying_round [OF assms(1,2) r1(4,5) _ r1(1)] assms(6) Some that r1(2) by simp
    then have "\<not> holds_finalizer objs w2 (ns, name)" using dying_round [OF assms(1,2) r2(4,5) _ r2(1)] r2(2) by blast
    then show ?thesis using inv_registered [OF r2(6) m2 assms(7)] m0 m2 Some by simp
  qed
qed

section \<open>The concrete server cooperates\<close>

lemma store_same_status: "same_objects stored w (snd (update_status store_server a w))"
  by (auto simp: same_objects_def store_server_def stored_def bare_def split: option.split)

lemma store_cooperates: "cooperative stored store_server"
  unfolding cooperative_def
proof (intro conjI allI impI)
  show "obeys (same_objects stored) store_server"
    using store_same_status by (simp add: obeys_def drifts_def store_calls(1,2,3) same.R_refl) (simp add: store_server_def empty_cluster_def same.R_refl)
next
  show "fst (get_autoscaler store_server k w) = (case stored w k of None \<Rightarrow> Inl NotFound | Some a \<Rightarrow> Inr a)" for k w
    by (simp add: store_calls(3))
next
  show "autoscaler_key a = k" if "stored w k = Some a" for w k a using that by (auto simp: stored_def autoscaler_key_def)
next
  fix a :: autoscaler and w assume "stored w (autoscaler_key a) \<noteq> None"
  then obtain b where b: "w (autoscaler_key a) = Some b" by (auto simp: stored_def)
  show "fst (update_autoscaler store_server a w) = Inr ()" using b by (simp add: store_server_def)
  show "map_option bare (stored (snd (update_autoscaler store_server a w)) (autoscaler_key a)) =
      (if AsDeletion a \<noteq> None \<and> AsFinalizers a = [] then None else Some (bare a))"
    using b by (simp add: store_server_def stored_def bare_def) (simp add: autoscaler_key_def)
next
  show "map_option bare (stored (snd (update_autoscaler store_server a w)) k) = map_option bare (stored w k)"
    if "k \<noteq> autoscaler_key a" for a w k
    using that by (simp add: store_server_def stored_def split: option.split)
qed

lemma store_workloads: "workloads_writable store_server" "discovery_returns store_server"
  by (simp_all add: workloads_writable_def discovery_returns_def DiscoverFromService_def store_calls(1) store_server_def empty_cluster_def Let_def)

lemma autoscaler_settles_witness:
  "\<exists>(c :: controller) w m. reconciled store_server ''default'' ''rca'' (reconciled store_server ''default'' ''rca''
       (SetMonitor new_controller True, [(''default'', ''rca'') \<mapsto> sample_autoscaler None [] 1])) = (c, w) \<and>
     Watcher c = Some m \<and> watched m (event_key ''rca'' ''default'') = Some sample_spec_rca \<and>
     holds_finalizer stored w (''default'', ''rca'')"
proof -
  let ?x = "(SetMonitor new_controller True, [(''default'', ''rca'') \<mapsto> sample_autoscaler None [] 1])"
  have reach: "sys_reach stored store_server id ?x" using sys_next [OF sys_new monitor_set] .
  obtain c w where x: "reconciled store_server ''default'' ''rca'' (reconciled store_server ''default'' ''rca'' ?x) = (c, w)" by fastforce
  have "stored (snd ?x) (''default'', ''rca'') = Some (sample_autoscaler None [] 1)" by (simp add: stored_def sample_autoscaler_def)
  from autoscaler_settles [OF store_cooperates store_workloads _ reach _ _ x, of "sample_autoscaler None [] 1"] this
  show ?thesis using x
    by (auto simp: retries_def SetMonitor_def sample_autoscaler_def sample_spec_rca_def)
qed

end
