(* ===== verification/Decimal_Text.thy ===== *)
theory Decimal_Text
  imports Metric_Handler
begin

text \<open>
  Decimal text: \<open>fmt.Sprintf("%.nf", x)\<close>, which the monitor, the benchmark and the reports of the optimizer use, and
  what \<open>strconv.ParseFloat\<close> makes of it.
\<close>

section \<open>Fixed decimals\<close>

definition pad_to :: "nat \<Rightarrow> nat \<Rightarrow> string" where
  "pad_to d n = replicate (d - length (dec_nat n)) (CHR ''0'') @ dec_nat n"

text \<open>The digits shown of a finite value, as a number: rounded to nearest, ties to even.\<close>

definition shown :: "nat \<Rightarrow> rat \<Rightarrow> nat" where
  "shown d q = nat (rne (\<bar>q\<bar> * 10 ^ d))"

fun fmt_fixed :: "nat \<Rightarrow> f64 \<Rightarrow> string" where
  "fmt_fixed d NaN = ''NaN''"
| "fmt_fixed d PInf = ''+Inf''"
| "fmt_fixed d NInf = ''-Inf''"
| "fmt_fixed d (Fin q) = (if q < 0 then ''-'' else []) @ dec_nat (shown d q div 10 ^ d) @
     (if d = 0 then [] else ''.'' @ pad_to d (shown d q mod 10 ^ d))"

text \<open>A finite value as its text shows it.\<close>

definition decimals :: "nat \<Rightarrow> rat \<Rightarrow> rat" where
  "decimals d q = (if q < 0 then -1 else 1) * (of_nat (shown d q) / 10 ^ d)"

section \<open>Digits\<close>

lemma digits_val_append: "digits_val (xs @ ys) = digits_val xs * 10 ^ length ys + digits_val ys"
proof (induction ys rule: rev_induct)
  case Nil then show ?case by (simp add: digits_val_def)
next
  case (snoc y ys)
  have "digits_val (zs @ [y]) = 10 * digits_val zs + int (of_char y - 48)" for zs by (simp add: digits_val_def)
  from this [of "xs @ ys"] this [of ys] snoc show ?case by (simp add: algebra_simps)
qed

lemma digit_char_val: "n < 10 \<Longrightarrow> of_char (digit_char n) = 48 + n"
  by (simp add: digit_char_def)

lemma digits_val_dec: "digits_val (dec_nat n) = int n"
proof (induction n rule: dec_nat.induct)
  case (1 n)
  have d: "digits_val [digit_char m] = int m" if "m < 10" for m using that by (simp add: digits_val_def digit_char_val)
  show ?case
  proof (cases "n < 10")
    case True then show ?thesis using d by (subst dec_nat.simps) simp
  next
    case False
    then have "digits_val (dec_nat n) = int (n div 10) * 10 + int (n mod 10)"
      using 1 d [of "n mod 10"] by (subst dec_nat.simps) (simp add: digits_val_append)
    then show ?thesis by (metis of_nat_add of_nat_mult of_nat_numeral div_mult_mod_eq)
  qed
qed

lemma dec_digits: "\<forall>c \<in> set (dec_nat n). is_digit c"
proof (induction n rule: dec_nat.induct)
  case (1 n)
  have "is_digit (digit_char m)" if "m < 10" for m using that by (simp add: is_digit_def digit_char_val)
  then show ?case using 1 by (subst dec_nat.simps) auto
qed

lemma dec_nonempty [simp]: "dec_nat n \<noteq> []"
  by (subst dec_nat.simps) simp

lemma dec_length: "n < 10 ^ Suc k \<Longrightarrow> length (dec_nat n) \<le> Suc k"
proof (induction k arbitrary: n)
  case 0 then show ?case by (subst dec_nat.simps) simp
next
  case (Suc k)
  have "length (dec_nat (n div 10)) \<le> Suc k" using Suc.prems by (intro Suc.IH) (simp add: less_mult_imp_div_less)
  then show ?case by (subst dec_nat.simps) simp
qed

lemma pad_to_facts:
  assumes "n < 10 ^ d" "0 < d"
  shows "length (pad_to d n) = d" "digits_val (pad_to d n) = int n" "\<forall>c \<in> set (pad_to d n). is_digit c"
proof -
  have "length (dec_nat n) \<le> d" using dec_length [of n "d - 1"] assms by simp
  then show "length (pad_to d n) = d" by (simp add: pad_to_def)
  have "digits_val (replicate k CHR ''0'') = 0" for k by (induction k) (simp_all add: digits_val_def)
  then show "digits_val (pad_to d n) = int n" by (simp add: pad_to_def digits_val_append digits_val_dec)
  have "is_digit CHR ''0''" by (simp add: is_digit_def)
  then show "\<forall>c \<in> set (pad_to d n). is_digit c" using dec_digits by (auto simp: pad_to_def)
qed

section \<open>Reading back\<close>

lemma shown_near: "\<bar>of_nat (shown d q) - \<bar>q\<bar> * 10 ^ d\<bar> \<le> (1 / 2 :: rat)"
proof -
  have "0 \<le> rne (\<bar>q\<bar> * 10 ^ d)" using rne_mono [of 0 "\<bar>q\<bar> * 10 ^ d"] rne_of_int [of 0] by simp
  then have "of_nat (shown d q) = (of_int (rne (\<bar>q\<bar> * 10 ^ d)) :: rat)" by (simp add: shown_def)
  then show ?thesis using rne_near [of "\<bar>q\<bar> * 10 ^ d"] by simp
qed

lemma decimals_near: "\<bar>decimals d q - q\<bar> \<le> 1 / (2 * 10 ^ d)"
proof -
  have sgn: "\<bar>(if q < 0 then -1 else 1) * x - q\<bar> = \<bar>x - \<bar>q\<bar>\<bar>" for x by (auto simp: abs_if)
  have "\<bar>decimals d q - q\<bar> = \<bar>of_nat (shown d q) / 10 ^ d - \<bar>q\<bar>\<bar>"
    unfolding decimals_def by (rule sgn)
  also have "\<dots> = \<bar>(of_nat (shown d q) - \<bar>q\<bar> * 10 ^ d) / 10 ^ d\<bar>" by (simp add: diff_divide_distrib)
  also have "\<dots> = \<bar>of_nat (shown d q) - \<bar>q\<bar> * 10 ^ d\<bar> / 10 ^ d" by simp
  finally show ?thesis using shown_near [of d q] by (simp add: field_simps)
qed

lemma big_rep_int:
  assumes "rep q" "2 ^ 53 < \<bar>q\<bar>"
  shows "\<exists>n. q = of_int n"
proof -
  have "0 < \<bar>q\<bar>" "round_pos \<bar>q\<bar> = \<bar>q\<bar>" using assms by (auto simp: rep_def rq_def abs_if split: if_splits)
  then obtain m k where q: "\<bar>q\<bar> = of_int m * 2 powi k" "0 \<le> m" "m \<le> 2 ^ 53" using round_pos_form [of "\<bar>q\<bar>"] by metis
  have "0 \<le> k"
  proof (rule ccontr)
    assume "\<not> 0 \<le> k"
    then have "(2::rat) powi k \<le> 1" using powi2_mono [of k 0] by simp
    then have "\<bar>q\<bar> \<le> of_int m" unfolding q(1) using q(2) mult_left_mono [of "2 powi k" 1 "of_int m :: rat"] by simp
    also have "\<dots> \<le> of_int (2 ^ 53)" using q(3) by (simp only: of_int_le_iff)
    finally show False using assms(2) by simp
  qed
  then have "\<bar>q\<bar> = of_int (m * 2 ^ nat k)" using q(1) by (simp add: powi2_int)
  then have "q = of_int (m * 2 ^ nat k) \<or> q = of_int (- (m * 2 ^ nat k))" by (auto simp: abs_if split: if_splits)
  then show ?thesis by blast
qed

lemma shown_finite:
  assumes "wf64 (Fin q)"
  shows "lit (of_nat (shown d q) / 10 ^ d) \<noteq> PInf"
proof (cases "2 ^ 53 < \<bar>q\<bar>")
  case True
  have q: "rep q" "\<bar>q\<bar> < 2 ^ 1024" using assms by (simp_all add: wf64_def)
  then obtain n where "q = of_int n" using big_rep_int True by blast
  then have "\<bar>q\<bar> * 10 ^ d = of_int (\<bar>n\<bar> * 10 ^ d)" by simp
  then have "of_nat (shown d q) = (\<bar>q\<bar> * 10 ^ d :: rat)" unfolding shown_def by (simp only: rne_of_int) simp
  moreover have "lit \<bar>q\<bar> = Fin \<bar>q\<bar>" unfolding lit_def using q by (intro rnd_rep) (auto simp: abs_if)
  ultimately show ?thesis by simp
next
  case False
  have "of_nat (shown d q) \<le> \<bar>q\<bar> * 10 ^ d + (1 / 2 :: rat)" using shown_near [of d q] by linarith
  then have "of_nat (shown d q) / 10 ^ d \<le> \<bar>q\<bar> + 1 / 2 / (10 ^ d :: rat)" by (simp add: field_simps)
  also have "\<dots> \<le> \<bar>q\<bar> + 1 / 2" by simp
  also have "\<dots> \<le> 2 ^ 60" using False by simp
  finally have "fle (lit (of_nat (shown d q) / 10 ^ d)) (Fin (2 ^ 60))" unfolding lit_def by (rule rnd_le_Fin) (rule wf64_pow2, simp)
  then show ?thesis by auto
qed

lemma number_char:
  assumes "is_digit c \<or> c = CHR ''.''"
  shows "lower_char c = c" "\<not> is_space c" "c \<notin> {CHR ''i'', CHR ''n'', CHR ''x'', CHR ''-'', CHR ''+'', CHR ''a'', CHR ''e''}"
  using assms by (auto simp: is_digit_def lower_char_def is_space_def)

text \<open>The text of a finite value: digits, a point and digits, after a sign.\<close>

lemma strconv_fixed:
  assumes "wf64 (Fin q)" "0 < d"
  shows "strconv_ParseFloat hx (fmt_fixed d (Fin q)) = Some (lit (decimals d q))"
proof -
  define a b where "a = dec_nat (shown d q div 10 ^ d)" and "b = pad_to d (shown d q mod 10 ^ d)"
  define r where "r = a @ ''.'' @ b"
  define sign where "sign = (if q < 0 then ''-'' else [] :: string)"
  have s: "fmt_fixed d (Fin q) = sign @ r" using assms(2) by (simp add: sign_def r_def a_def b_def)
  have "shown d q mod 10 ^ d < 10 ^ d" by simp
  note b = pad_to_facts [OF this assms(2), folded b_def]
  have a: "a \<noteq> []" "\<forall>c \<in> set a. is_digit c" using dec_digits by (simp_all add: a_def)
  have num: "\<forall>c \<in> set r. is_digit c \<or> c = CHR ''.''" using a b by (auto simp: r_def)
  obtain c a' where c: "a = c # a'" "is_digit c" using a by (cases a) auto
  have hd: "c \<notin> {CHR ''i'', CHR ''n'', CHR ''x'', CHR ''-'', CHR ''+'', CHR ''a'', CHR ''e''}" using number_char c by blast
  have low: "to_lower r = r" unfolding to_lower_def using num number_char(1) by (intro map_idI) blast
  have split: "split_sign (sign @ r) = (q < 0, r)" using hd by (simp add: split_sign_def sign_def r_def c(1))
  have noinf: "to_lower r \<noteq> ''inf''" "to_lower r \<noteq> ''infinity''" unfolding low using hd by (simp_all add: r_def c(1))
  have nonan: "to_lower (sign @ r) \<noteq> ''nan''"
  proof -
    have "lower_char CHR ''-'' = CHR ''-''" by (simp add: lower_char_def)
    then show ?thesis using hd number_char(1) [of c] c by (auto simp: sign_def r_def to_lower_def)
  qed
  have nohex: "\<not> has_prefix (to_lower r) ''0x''"
  proof
    assume "has_prefix (to_lower r) ''0x''"
    then have "CHR ''x'' \<in> set r" unfolding low has_prefix_iff by auto
    then show False using num number_char(3) by blast
  qed
  have "\<not> is_digit CHR ''_''" by (simp add: is_digit_def)
  then have nounder: "(CHR ''_'' \<in> set r) = False" using num by fastforce
  have point: "\<not> is_digit CHR ''.''" by (simp add: is_digit_def)
  have parts: "takeWhile is_digit r = a" "dropWhile is_digit r = ''.'' @ b" "takeWhile is_digit b = b" "dropWhile is_digit b = []"
    using a b(3) point by (simp_all add: r_def takeWhile_append2 dropWhile_append2)
  have val: "digits_val (a @ b) = int (shown d q)"
    using b(1,2) by (simp add: digits_val_append digits_val_dec a_def) (metis div_mult_mod_eq of_nat_add of_nat_mult of_nat_numeral of_nat_power)
  have v: "lit (of_int (digits_val (a @ b)) * 10 powi (0 - int (length b))) = lit (of_nat (shown d q) / 10 ^ d)"
    unfolding val b(1) by (simp add: power_int_minus_divide)
  have sgn: "apply_sign (q < 0) (lit (of_nat (shown d q) / 10 ^ d)) = lit (decimals d q)"
    by (simp add: apply_sign_def decimals_def lit_def rnd_def)
  have "strconv_ParseFloat hx (sign @ r) = (case lit (of_nat (shown d q) / 10 ^ d) of PInf \<Rightarrow> None | v \<Rightarrow> Some (apply_sign (q < 0) v))"
  proof -
    have pre: "has_prefix (dropWhile is_digit r) ''.''" "tl (dropWhile is_digit r) = b" unfolding parts(2) by simp_all
    have e: "parse_exponent [] = Some 0" by (simp add: parse_exponent_def)
    show ?thesis
      unfolding strconv_ParseFloat_def decimal_float_def split prod.case Let_def
      by (simp only: noinf nonan nohex nounder pre parts(1,3,4) a(1) if_True if_False simp_thms e option.case v)
  qed
  also have "\<dots> = Some (apply_sign (q < 0) (lit (of_nat (shown d q) / 10 ^ d)))"
    using shown_finite [OF assms(1)] by (cases "lit (of_nat (shown d q) / 10 ^ d)") simp_all
  also have "\<dots> = Some (lit (decimals d q))" unfolding sgn ..
  finally show ?thesis unfolding s .
qed

text \<open>Around the text there is no space to trim.\<close>

lemma fixed_chars: "c \<in> set (fmt_fixed d (Fin q)) \<Longrightarrow> c = CHR ''-'' \<or> is_digit c \<or> c = CHR ''.''"
  using dec_digits by (auto simp: pad_to_def is_digit_def split: if_splits)

lemma fixed_nonempty: "fmt_fixed d (Fin q) \<noteq> []"
  by simp

lemma parse_fixed:
  assumes "wf64 (Fin q)" "0 < d"
  shows "parseFloat hx (fmt_fixed d (Fin q)) = Some (lit (decimals d q))"
proof -
  let ?t = "fmt_fixed d (Fin q)"
  have ns: "\<not> is_space x" if "x \<in> set ?t" for x
    using fixed_chars [OF that] number_char(2) [of x] by (elim disjE) (simp_all add: is_space_def)
  have "dropWhile is_space ?t = ?t" "dropWhile is_space (rev ?t) = rev ?t"
    unfolding dropWhile_eq_self_iff using ns by (metis hd_in_set, metis hd_in_set set_rev)
  then have "trim_space ?t = ?t" by (simp add: trim_space_def)
  then show ?thesis using strconv_fixed [OF assms] fixed_nonempty unfolding parseFloat_def by (simp only: if_False)
qed

end
