(* ===== verification/Monitor.thy ===== *)
theory Monitor
  imports Decimal_Text "HOL-Library.AList"
begin

text \<open>
  \<open>internal/monitor/monitor.go\<close>: the queries sent to Prometheus and the metrics read from its answers. The
  Prometheus client, the clock and two formats of \<open>fmt\<close> are parameters, the record \<open>prom_env\<close> over an
  abstract type of worlds. A Go map that is ranged over is an association list in some iteration order.
\<close>

section \<open>Configuration\<close>

record device_metrics =
  UsageQuery :: string
  AllocationQuery :: string

record custom_queries =
  RPSQuery :: string
  PromptTokenQuery :: string
  GenerationTokenQuery :: string
  InterTokenLatencyQuery :: string
  TimeToFirstTokenLatencyQuery :: string
  EndToEndLatencyBucketQuery :: string
  QueueTimeQuery :: string
  PrefillTokensQuery :: string
  PrefixCacheHitsQuery :: string
  PrefixCacheQueriesQuery :: string
  DeviceResourceMetrics :: "(string \<times> device_metrics) list"

record monitoring =
  Endpoint :: string
  CustomQueries :: "custom_queries option"
  RateRangeSeconds :: "int option"
  LatencyPercentile :: "f64 option"

text \<open>\<open>&CustomQueries{}\<close>.\<close>

definition no_queries :: custom_queries where
  "no_queries = \<lparr>RPSQuery = [], PromptTokenQuery = [], GenerationTokenQuery = [], InterTokenLatencyQuery = [],
     TimeToFirstTokenLatencyQuery = [], EndToEndLatencyBucketQuery = [], QueueTimeQuery = [], PrefillTokensQuery = [],
     PrefixCacheHitsQuery = [], PrefixCacheQueriesQuery = [], DeviceResourceMetrics = []\<rparr>"

section \<open>Answers\<close>

text \<open>A query result: the samples of a vector, a scalar, the series of a matrix, or another value.\<close>

datatype prom_value = Vector "f64 list" | Scalar f64 | Matrix "f64 list list" | OtherValue

type_synonym 'w answer = "(string + prom_value \<times> string list) \<times> 'w"

text \<open>Times and durations are nanoseconds. \<open>fmt_g\<close> is the verb \<open>%g\<close>; \<open>fmt_other\<close> is \<open>fmt.Sprintf\<close> of a
  template with other verbs than \<open>%s\<close> and \<open>%%\<close> on one string; \<open>sample_string\<close> is \<open>model.SampleValue.String\<close>.\<close>

record 'w prom_env =
  client_ok :: "string \<Rightarrow> bool"
  prom_query :: "string \<Rightarrow> int \<Rightarrow> 'w \<Rightarrow> 'w answer"
  prom_range :: "string \<Rightarrow> int \<Rightarrow> int \<Rightarrow> int \<Rightarrow> 'w \<Rightarrow> 'w answer"
  prom_now :: "'w \<Rightarrow> int \<times> 'w"
  fmt_g :: "f64 \<Rightarrow> string"
  fmt_other :: "string \<Rightarrow> string \<Rightarrow> string"
  sample_string :: "f64 \<Rightarrow> string"

section \<open>Formatting\<close>

text \<open>\<open>fmt.Sprintf(t, a)\<close> with a string \<open>a\<close>: a missing or unused argument is reported in the text.\<close>

fun simple_verbs :: "string \<Rightarrow> bool" where
  "simple_verbs [] = True"
| "simple_verbs [c] = True"
| "simple_verbs (c # d # s) = (if c = CHR ''%'' then (d = CHR ''s'' \<or> d = CHR ''%'') \<and> simple_verbs s else simple_verbs (d # s))"

fun expand :: "string option \<Rightarrow> string \<Rightarrow> string" where
  "expand arg [] = (case arg of None \<Rightarrow> [] | Some a \<Rightarrow> ''%!(EXTRA string='' @ a @ '')'')"
| "expand arg [c] = (if c = CHR ''%'' then ''%!(NOVERB)'' @ expand arg [] else c # expand arg [])"
| "expand arg (c # d # s) =
     (if c \<noteq> CHR ''%'' then c # expand arg (d # s)
      else if d = CHR ''s'' then (case arg of Some a \<Rightarrow> a @ expand None s | None \<Rightarrow> ''%!s(MISSING)'' @ expand None s)
      else CHR ''%'' # expand arg s)"

definition sprintf_s :: "(string \<Rightarrow> string \<Rightarrow> string) \<Rightarrow> string \<Rightarrow> string \<Rightarrow> string" where
  "sprintf_s other t a = (if simple_verbs t then expand (Some a) t else other t a)"

text \<open>\<open>fmt.Sprintf("%f", x)\<close>: six decimals.\<close>

abbreviation format_f :: "f64 \<Rightarrow> string" where
  "format_f \<equiv> fmt_fixed 6"

section \<open>Queries\<close>

definition getQueryOrDefault :: "string \<Rightarrow> string \<Rightarrow> string" where
  "getQueryOrDefault q d = (if q = [] then d else q)"

definition rate_query :: "int \<Rightarrow> string \<Rightarrow> string" where
  "rate_query secs q = (if contains q ''rate('' then q else ''rate('' @ q @ ''%s['' @ FormatInt secs @ ''s])'')"

definition rps_query :: "int \<Rightarrow> string \<Rightarrow> string" where
  "rps_query secs q = (if contains q ''rate('' then q
     else ''rate('' @ q @ ''{finish_reason=\"length\"%s}['' @ FormatInt secs @ ''s])'')"

definition quantile_query :: "string \<Rightarrow> int \<Rightarrow> string \<Rightarrow> string" where
  "quantile_query percentile secs q =
     (if contains q ''histogram_quantile('' then q
      else let b = (if has_suffix q ''_bucket'' then q else q @ ''_bucket'')
           in ''histogram_quantile('' @ percentile @ '', rate('' @ b @ ''%s['' @ FormatInt secs @ ''s]))'')"

definition default_devices :: "(string \<times> device_metrics) list" where
  "default_devices =
     [(''compute'', \<lparr>UsageQuery = ''vllm:gpu_active_thread_percentage'', AllocationQuery = ''vllm:gpu_compute_allocation_percentage''\<rparr>),
      (''memory'', \<lparr>UsageQuery = ''vllm:gpu_memory_usage_bytes'', AllocationQuery = ''vllm:gpu_memory_allocation_bytes''\<rparr>)]"

definition usage_key :: "string \<Rightarrow> string" where "usage_key r = ''DeviceResource_'' @ r @ ''_Usage''"
definition allocation_key :: "string \<Rightarrow> string" where "allocation_key r = ''DeviceResource_'' @ r @ ''_Allocation''"

text \<open>The device queries of one resource.\<close>

definition add_device :: "string \<times> device_metrics \<Rightarrow> (string \<times> string) list \<Rightarrow> (string \<times> string) list" where
  "add_device d qs =
     (case d of (r, m) \<Rightarrow>
        let qs = (if UsageQuery m \<noteq> [] then AList.update (usage_key r) (''max('' @ UsageQuery m @ ''%s)'') qs else qs)
        in if AllocationQuery m \<noteq> [] then AList.update (allocation_key r) (AllocationQuery m @ ''%s'') qs else qs)"

definition getQueriesWithDefaults :: "(f64 \<Rightarrow> string) \<Rightarrow> monitoring \<Rightarrow> (string \<times> string) list" where
  "getQueriesWithDefaults g cfg =
     (let q = get_or (CustomQueries cfg) no_queries;
          secs = get_or (RateRangeSeconds cfg) 60;
          percentile = g (get_or (LatencyPercentile cfg) (lit (95 / 100)));
          quantile = quantile_query percentile secs;
          fixed =
            [(''RPSQuery'', rps_query secs (getQueryOrDefault (RPSQuery q) ''vllm:request_success_total'')),
             (''PromptTokenQuery'', rate_query secs (getQueryOrDefault (PromptTokenQuery q) ''vllm:prompt_tokens_total'')),
             (''GenerationTokenQuery'', rate_query secs (getQueryOrDefault (GenerationTokenQuery q) ''vllm:generation_tokens_total'')),
             (''InterTokenLatencyQuery'', quantile (getQueryOrDefault (InterTokenLatencyQuery q) ''vllm:inter_token_latency_seconds_bucket'')),
             (''TimeToFirstTokenLatencyQuery'',
               quantile (getQueryOrDefault (TimeToFirstTokenLatencyQuery q) ''vllm:time_to_first_token_seconds_bucket'')),
             (''EndToEndLatencyBucketQuery'',
               quantile (getQueryOrDefault (EndToEndLatencyBucketQuery q) ''vllm:e2e_request_latency_seconds_bucket'')),
             (''QueueTimeQuery'', quantile (getQueryOrDefault (QueueTimeQuery q) ''vllm:request_queue_time_seconds_bucket'')),
             (''PrefixCacheHitsQuery'', getQueryOrDefault (PrefixCacheHitsQuery q) ''vllm:prefix_cache_hits'' @ ''%s''),
             (''PrefixCacheQueriesQuery'', getQueryOrDefault (PrefixCacheQueriesQuery q) ''vllm:prefix_cache_queries'' @ ''%s''),
             (''PrefillTokensQuery'', rate_query secs (getQueryOrDefault (PrefillTokensQuery q) ''vllm:prefill_tokens_total''))];
          devices = fold (\<lambda>(r, m). AList.update r m) (DeviceResourceMetrics q) default_devices;
          result = fold add_device devices fixed;
          count = (case map_of devices ''compute'' of None \<Rightarrow> [] | Some m \<Rightarrow> AllocationQuery m)
      in if count \<noteq> [] then AList.update ''AllocationCountQuery'' (''count('' @ count @ ''%s) by (instance)'') result else result)"

record monitor =
  MonConfig :: monitoring
  MonClient :: bool
  MonQueries :: "(string \<times> string) list"

definition NewMonitor :: "'w prom_env \<Rightarrow> monitoring \<Rightarrow> monitor" where
  "NewMonitor p cfg = \<lparr>MonConfig = cfg, MonClient = client_ok p (Endpoint cfg), MonQueries = getQueriesWithDefaults (fmt_g p) cfg\<rparr>"

section \<open>Values\<close>

definition isEmptyResult :: "prom_value \<Rightarrow> bool" where
  "isEmptyResult v = (case v of Vector xs \<Rightarrow> xs = [] | Scalar _ \<Rightarrow> False | Matrix ss \<Rightarrow> ss = [] | OtherValue \<Rightarrow> True)"

definition larger :: "f64 \<Rightarrow> f64 \<Rightarrow> f64" where
  "larger m x = (if fgt x m then x else m)"

definition first_or_larger :: "f64 option \<Rightarrow> f64 \<Rightarrow> f64 option" where
  "first_or_larger acc x = (case acc of None \<Rightarrow> Some x | Some m \<Rightarrow> Some (larger m x))"

definition extractValueFromResult :: "(f64 \<Rightarrow> string) \<Rightarrow> prom_value \<Rightarrow> string" where
  "extractValueFromResult str v =
     (case v of
        Vector [] \<Rightarrow> []
      | Vector (x # xs) \<Rightarrow> format_f (foldl larger x (x # xs))
      | Scalar x \<Rightarrow> str x
      | Matrix ss \<Rightarrow> (case foldl (\<lambda>acc series. foldl first_or_larger acc series) None ss of
            None \<Rightarrow> [] | Some m \<Rightarrow> format_f m)
      | OtherValue \<Rightarrow> [])"

section \<open>Collecting\<close>

definition service_filter :: "string \<Rightarrow> string \<Rightarrow> string" where
  "service_filter name service =
     (if service = [] then []
      else if name = ''RPSQuery'' then '',service=\"'' @ service @ ''\"''
      else ''{service=\"'' @ service @ ''\"}'')"

definition second :: int where "second = 10 ^ 9"

text \<open>One query of the loop of \<open>CollectMetrics\<close>.\<close>

definition run_query :: "'w prom_env \<Rightarrow> string \<Rightarrow> string \<Rightarrow> int \<Rightarrow> int \<Rightarrow> 'w \<Rightarrow> 'w answer" where
  "run_query p query name lookback now w =
     (if 0 < lookback
      then let d = wrap64 (lookback * second) in prom_range p query (now + wrap64 (- d)) now d w
      else prom_query p query now w)"

fun collect :: "'w prom_env \<Rightarrow> string \<Rightarrow> int \<Rightarrow> int \<Rightarrow> (string \<times> string) list \<Rightarrow> metrics \<Rightarrow> 'w \<Rightarrow> metrics \<times> 'w" where
  "collect p service lookback now [] m w = (m, w)"
| "collect p service lookback now ((name, template) # qs) m w =
     (case run_query p (sprintf_s (fmt_other p) template (service_filter name service)) name lookback now w of
        (Inl err, w) \<Rightarrow> collect p service lookback now qs (m(name \<mapsto> ''error: '' @ err)) w
      | (Inr (v, _), w) \<Rightarrow> collect p service lookback now qs (m(name \<mapsto> extractValueFromResult (sample_string p) v)) w)"

definition CollectMetrics :: "'w prom_env \<Rightarrow> monitor \<Rightarrow> string \<Rightarrow> int \<Rightarrow> 'w \<Rightarrow> metrics res \<times> 'w" where
  "CollectMetrics p mon service lookback w =
     (if \<not> MonClient mon then (Fail ''prometheus API client not initialized'', w)
      else case prom_now p w of (now, w) \<Rightarrow>
        (case collect p service lookback now (MonQueries mon) Map.empty w of (m, w) \<Rightarrow> (Ok m, w)))"

definition Query :: "'w prom_env \<Rightarrow> monitor \<Rightarrow> string \<Rightarrow> 'w \<Rightarrow> prom_value res \<times> 'w" where
  "Query p mon query w =
     (if \<not> MonClient mon then (Fail ''prometheus API client not initialized'', w)
      else case prom_now p w of (now, w) \<Rightarrow>
        (case prom_query p query now w of
           (Inl _, w) \<Rightarrow> (Fail ''query failed'', w)
         | (Inr (v, _), w) \<Rightarrow> (Ok v, w)))"

section \<open>Validation\<close>

record metric_health =
  HealthName :: string
  HealthQuery :: string
  Healthy :: bool
  HealthMessage :: string

fun validate :: "'w prom_env \<Rightarrow> (string \<times> string) list \<Rightarrow> 'w \<Rightarrow> metric_health list \<times> 'w" where
  "validate p [] w = ([], w)"
| "validate p ((name, template) # qs) w =
     (let query = sprintf_s (fmt_other p) template [] in
      case prom_now p w of (now, w) \<Rightarrow>
        (case prom_query p query now w of (r, w) \<Rightarrow>
          (case validate p qs w of (hs, w) \<Rightarrow>
             (\<lparr>HealthName = name, HealthQuery = query, Healthy = (case r of Inl _ \<Rightarrow> False | Inr _ \<Rightarrow> True),
               HealthMessage = (case r of Inl err \<Rightarrow> ''Query failed: '' @ err
                 | Inr (_, warnings) \<Rightarrow> if warnings \<noteq> [] then ''Query succeeded with warnings: '' else ''Query succeeded'')\<rparr> # hs, w))))"

definition ValidateMetrics :: "'w prom_env \<Rightarrow> monitor \<Rightarrow> 'w \<Rightarrow> metric_health list res \<times> 'w" where
  "ValidateMetrics p mon w =
     (if \<not> MonClient mon then (Fail ''prometheus API client not initialized'', w)
      else case validate p (MonQueries mon) w of (hs, w) \<Rightarrow> (Ok hs, w))"

end
