(* ===== verification/Collector.thy ===== *)
theory Collector
  imports Monitor Service_Monitor
begin

text \<open>
  \<open>internal/monitor/collector.go\<close>: one collection for an autoscaler, and the violations of its latency and
  utilization targets computed from the metrics.
\<close>

section \<open>Collection\<close>

text \<open>\<open>time.Duration.Seconds\<close>, converted to an \<open>int\<close>.\<close>

definition whole_seconds :: "int \<Rightarrow> int" where
  "whole_seconds d = f2i64 (fadd (i2f (d sdiv second)) (fdiv (i2f (d smod second)) (i2f second)))"

definition lookback_window :: "int \<Rightarrow> int option \<Rightarrow> int" where
  "lookback_window now since = (case since of
     None \<Rightarrow> 0
   | Some t \<Rightarrow> whole_seconds (max (- (2 ^ 63)) (min (2 ^ 63 - 1) (now - t))))"

text \<open>The monitor is the one the collector was created with. On failure the result carries a message only.\<close>

definition CollectAndCompute ::
  "'w prom_env \<Rightarrow> monitor option \<Rightarrow> rca_spec \<Rightarrow> int option \<Rightarrow> 'w \<Rightarrow> (metrics_result \<times> unit res) \<times> 'w" where
  "CollectAndCompute p mon spec since w =
     (case mon of
        None \<Rightarrow> ((\<lparr>MrMessage = ''Monitor not initialized'', MrMetrics = Map.empty\<rparr>, Fail ''monitor not initialized''), w)
      | Some mon \<Rightarrow>
          (case (case since of None \<Rightarrow> (0, w) | Some _ \<Rightarrow> prom_now p w) of (now, w) \<Rightarrow>
            (case CollectMetrics p mon (ServiceName (ServiceRef (Target spec))) (lookback_window now since) w of
               (Inl f, w) \<Rightarrow> ((\<lparr>MrMessage = ''Failed to collect metrics: '', MrMetrics = Map.empty\<rparr>, Inl f), w)
             | (Inr m, w) \<Rightarrow> ((\<lparr>MrMessage = ''Metrics collected successfully'', MrMetrics = m\<rparr>, Ok ()), w))))"

text \<open>What the monitoring loop passes to the controller: on an error, no metrics.\<close>

definition collected :: "metrics_result \<times> unit res \<Rightarrow> metrics" where
  "collected r = (case snd r of Inl _ \<Rightarrow> Map.empty | Inr _ \<Rightarrow> MrMetrics (fst r))"

section \<open>Latency violations\<close>

definition latency_violation :: "f64 \<Rightarrow> f64 \<Rightarrow> f64" where
  "latency_violation latencyMs target =
     (if fgt latencyMs target
      then let v = fdiv (fsub latencyMs target) target in if fgt v (Fin 1) then Fin 1 else v
      else Fin 0)"

definition computeSingleLatencyViolation ::
  "(string \<Rightarrow> f64 option) \<Rightarrow> string \<Rightarrow> metrics \<Rightarrow> f64 \<Rightarrow> f64 \<Rightarrow> f64 \<times> bool" where
  "computeSingleLatencyViolation hx key m targetMs toleranceMs =
     (case m key of
        None \<Rightarrow> (Fin 0, False)
      | Some s \<Rightarrow>
          if s = [] then (Fin 0, False)
          else (case strconv_ParseFloat hx s of
              None \<Rightarrow> (Fin 0, False)
            | Some latency \<Rightarrow> (latency_violation (fmul latency (Fin 1000)) (fadd targetMs toleranceMs), True)))"

text \<open>One of the three checks: skipped without a target, counted when it was performed.\<close>

definition add_check ::
  "(string \<Rightarrow> f64 option) \<Rightarrow> metrics \<Rightarrow> f64 \<Rightarrow> string \<Rightarrow> int option \<Rightarrow> f64 \<times> int \<Rightarrow> f64 \<times> int" where
  "add_check hx m tolerance key target acc =
     (case target of
        None \<Rightarrow> acc
      | Some t \<Rightarrow> (case computeSingleLatencyViolation hx key m (i2f t) tolerance of
            (v, checked) \<Rightarrow> if checked then (fadd (fst acc) v, snd acc + 1) else acc))"

definition computeLatencyViolations :: "(string \<Rightarrow> f64 option) \<Rightarrow> rca_spec \<Rightarrow> metrics \<Rightarrow> f64" where
  "computeLatencyViolations hx spec m =
     (case TargetLatency spec of
        None \<Rightarrow> Fin 0
      | Some t \<Rightarrow>
          (let check = add_check hx m (get_or (map_option i2f (ToleranceMilliseconds t)) (Fin 0));
               acc = check ''EndToEndLatencyBucketQuery'' (EndToEndLatencyMilliseconds t) (Fin 0, 0);
               acc = check ''TimeToFirstTokenLatencyQuery'' (TimeToFirstTokenLatencyMilliseconds t) acc;
               acc = check ''InterTokenLatencyQuery'' (InterTokenLatencyMilliseconds t) acc
           in if snd acc = 0 then Fin 0 else fdiv (fst acc) (i2f (snd acc))))"

section \<open>Underutilization\<close>

definition resource_ratio :: "(string \<Rightarrow> f64 option) \<Rightarrow> metrics \<Rightarrow> string \<Rightarrow> f64 option" where
  "resource_ratio hx m r =
     (case (m (usage_key r), m (allocation_key r)) of
        (Some u, Some a) \<Rightarrow>
          if u = [] then None
          else (case (strconv_ParseFloat hx u, strconv_ParseFloat hx a) of
              (Some usage, Some allocation) \<Rightarrow> if feq allocation (Fin 0) then None else Some (fdiv usage allocation)
            | _ \<Rightarrow> None)
      | _ \<Rightarrow> None)"

definition computeResourceUtilization :: "(string \<Rightarrow> f64 option) \<Rightarrow> rca_spec \<Rightarrow> metrics \<Rightarrow> string \<Rightarrow> f64 option" where
  "computeResourceUtilization hx spec m =
     fold (\<lambda>(r, _) u. case resource_ratio hx m r of None \<Rightarrow> u | Some x \<Rightarrow> u(r \<mapsto> x)) (MinTargetUtilization spec) Map.empty"

definition minViolation :: f64 where "minViolation = lit (1 / 10)"

definition headroom_violation :: "f64 \<Rightarrow> f64 \<Rightarrow> f64" where
  "headroom_violation threshold ratio =
     (let h = fsub threshold ratio in fdiv (if flt h (Fin 0) then Fin 0 else h) threshold)"

fun sum_violations :: "(string \<Rightarrow> f64 option) \<Rightarrow> (string \<times> quantity) list \<Rightarrow> f64 \<times> int \<Rightarrow> f64 \<times> int" where
  "sum_violations u [] acc = acc"
| "sum_violations u ((r, q) # rest) acc =
     (case u r of
        None \<Rightarrow> sum_violations u rest acc
      | Some ratio \<Rightarrow> sum_violations u rest (fadd (fst acc) (headroom_violation (AsApproximateFloat64 q) ratio), snd acc + 1))"

definition computeUnderutilizationViolation :: "(string \<Rightarrow> f64 option) \<Rightarrow> rca_spec \<Rightarrow> metrics \<Rightarrow> f64" where
  "computeUnderutilizationViolation hx spec m =
     (if MinTargetUtilization spec = [] then minViolation
      else
        let u = computeResourceUtilization hx spec m;
            (total, count) = sum_violations u (MinTargetUtilization spec) (Fin 0, 0)
        in if count = 0 \<or> feq total (Fin 0) then Fin 0
           else let avg = fdiv total (i2f count) in if flt avg minViolation then minViolation else avg)"

end
