(* ===== verification/Timed_Monitor.thy ===== *)
theory Timed_Monitor
  imports Service_Monitor_Properties Collector
begin

text \<open>
  The timers of \<open>internal/monitor/service_monitor.go\<close> with their durations: a clock and, for every event, the earliest
  time its timer may fire. A collection comes at least a period after the last one, so the window that
  \<open>internal/monitor/collector.go\<close> looks back covers at least the period; the exception is an event that the loop of an
  earlier registration of its name has re-armed, which the state remembers.
\<close>

section \<open>Time\<close>

text \<open>\<open>time.Duration(PeriodSeconds) * time.Second\<close>, in nanoseconds.\<close>

definition monitor_interval :: "monitoring_event \<Rightarrow> int" where
  "monitor_interval ev = wrap64 (PeriodSeconds (EvScaleUpTrigger ev) * second)"

text \<open>The monitor, the clock, the earliest time of every timer, and the events that another loop has re-armed.\<close>

type_synonym timed_monitor = "service_monitor \<times> int \<times> (nat \<Rightarrow> int) \<times> nat set"

text \<open>A step starts the timers of new events and of new generations; \<open>time.AfterFunc\<close> fires no earlier than its duration.\<close>

definition restart :: "service_monitor \<Rightarrow> service_monitor \<Rightarrow> int \<Rightarrow> (nat \<Rightarrow> int) \<Rightarrow> nat \<Rightarrow> int" where
  "restart s s' t due j =
     (if j < length (SmHeap s') \<and> (length (SmHeap s) \<le> j \<or> EvGen (SmHeap s' ! j) \<noteq> EvGen (SmHeap s ! j))
      then t + monitor_interval (SmHeap s' ! j) else due j)"

text \<open>A timer that goes off is due; the time a collection notes is the clock's.\<close>

definition on_time :: "service_monitor \<Rightarrow> service_monitor \<Rightarrow> int \<Rightarrow> (nat \<Rightarrow> int) \<Rightarrow> bool" where
  "on_time s s' t due \<longleftrightarrow> (\<forall>i < length (SmHeap s).
     (EvTimer (SmHeap s ! i) \<noteq> None \<and> EvTimer (SmHeap s' ! i) = None \<longrightarrow> due i \<le> t) \<and>
     (EvLoop (SmHeap s ! i) \<noteq> Rearming \<and> EvLoop (SmHeap s' ! i) = Rearming \<longrightarrow> EvLast (SmHeap s' ! i) = t))"

definition event_name :: "monitoring_event \<Rightarrow> string" where
  "event_name ev = event_key (EvAutoscaler ev) (EvNamespace ev)"

text \<open>A registration notes the clock.\<close>

definition stamped :: "service_monitor \<Rightarrow> service_monitor \<Rightarrow> int \<Rightarrow> bool" where
  "stamped s s' t \<longleftrightarrow> (\<forall>i. length (SmHeap s) \<le> i \<and> i < length (SmHeap s') \<longrightarrow> EvLast (SmHeap s' ! i) = t)"

text \<open>The events whose timer a step restarts although it is not their own loop that re-arms.\<close>

definition stolen :: "service_monitor \<Rightarrow> service_monitor \<Rightarrow> nat set" where
  "stolen s s' = {j. j < length (SmHeap s) \<and> EvGen (SmHeap s' ! j) \<noteq> EvGen (SmHeap s ! j) \<and>
     \<not> (EvLoop (SmHeap s ! j) = Rearming \<and> EvLoop (SmHeap s' ! j) = Listening)}"

inductive timed_step :: "timed_monitor \<Rightarrow> timed_monitor \<Rightarrow> bool" where
  time_passes: "t \<le> u \<Longrightarrow> timed_step (s, t, due, old) (s, u, due, old)"
| timed_call: "sm_call s s' \<Longrightarrow> stamped s s' t \<Longrightarrow> timed_step (s, t, due, old) (s', t, restart s s' t due, old \<union> stolen s s')"
| timed_run: "sm_run s s' \<Longrightarrow> on_time s s' t due \<Longrightarrow> timed_step (s, t, due, old) (s', t, restart s s' t due, old \<union> stolen s s')"

inductive timed_reach :: "timed_monitor \<Rightarrow> bool" where
  timed_new: "timed_reach (NewServiceMonitor, t, due, {})"
| timed_next: "timed_reach x \<Longrightarrow> \<not> SmCrashed (fst x) \<Longrightarrow> timed_step x y \<Longrightarrow> timed_reach y"

inductive_cases timed_stepE: "timed_step (s, t, due, old) y"

lemma timed_reach_sm: "timed_reach x \<Longrightarrow> sm_reach (fst x)"
proof (induction rule: timed_reach.induct)
  case (timed_new t due) show ?case by (simp add: reach_new)
next
  case (timed_next x y)
  from timed_next(3,2,4) show ?case by cases (auto intro: reach_call reach_run)
qed

section \<open>One token per event\<close>

text \<open>What leads an event to its next collection: a running timer, a fired callback, a queued trigger, a loop about to
  re-arm. There is never more than one of them.\<close>

definition waiting :: "(nat \<times> nat) list \<Rightarrow> nat \<Rightarrow> (nat \<times> nat) list" where
  "waiting pending i = filter (\<lambda>p. fst p = i) pending"

definition tokens :: "(nat \<times> nat) list \<Rightarrow> nat \<Rightarrow> monitoring_event \<Rightarrow> nat" where
  "tokens pending i ev = of_bool (EvTimer ev \<noteq> None) + length (waiting pending i) + length (EvQueue ev) + of_bool (EvLoop ev = Rearming)"

definition paced :: "(nat \<times> nat) list \<Rightarrow> int \<Rightarrow> int \<Rightarrow> nat \<Rightarrow> monitoring_event \<Rightarrow> bool" where
  "paced pending t due i ev \<longleftrightarrow> tokens pending i ev \<le> 1 \<and> EvLast ev \<le> t \<and>
     (EvTimer ev \<noteq> None \<longrightarrow> EvLast ev + monitor_interval ev \<le> due) \<and>
     (waiting pending i \<noteq> [] \<or> EvQueue ev \<noteq> [] \<longrightarrow> EvLast ev + monitor_interval ev \<le> t)"

definition timed_inv :: "timed_monitor \<Rightarrow> bool" where
  "timed_inv x = (case x of (s, t, due, old) \<Rightarrow>
     \<forall>i < length (SmHeap s). i \<notin> old \<longrightarrow> paced (SmPending s) t (due i) i (SmHeap s ! i))"

lemma waiting_simps [simp]:
  "waiting ((j, g) # ps) i = (if j = i then (j, g) # waiting ps i else waiting ps i)" "waiting [] i = []"
  by (simp_all add: waiting_def)

lemma waiting_remove: "waiting (remove1 (j, g) ps) i = (if j = i then remove1 (j, g) (waiting ps i) else waiting ps i)"
  unfolding waiting_def by (induction ps) auto

lemma waiting_mem:
  assumes "(i, g) \<in> set ps"
  obtains n where "length (waiting ps i) = Suc n" "length (remove1 (i, g) (waiting ps i)) = n" "waiting ps i \<noteq> []"
proof -
  have m: "(i, g) \<in> set (waiting ps i)" using assms by (simp add: waiting_def)
  then have "length (remove1 (i, g) (waiting ps i)) = length (waiting ps i) - 1" "0 < length (waiting ps i)"
    by (auto simp: length_remove1 dest: length_pos_if_in_set)
  then show thesis using that [of "length (waiting ps i) - 1"] by simp
qed

text \<open>A step that changes one event and its callbacks.\<close>

lemma timed_change:
  assumes "timed_inv (s, t, due, old)" "SmHeap s' = (SmHeap s)[i := ev]"
    and "\<And>j. j \<noteq> i \<Longrightarrow> waiting (SmPending s') j = waiting (SmPending s) j"
    and "i \<notin> old' \<Longrightarrow> paced (SmPending s') t (due' i) i ev" "\<And>j. j \<noteq> i \<Longrightarrow> due' j = due j" "old \<subseteq> old'"
  shows "timed_inv (s', t, due', old')"
proof -
  have "paced (SmPending s') t (due' j) j (SmHeap s' ! j)" if "j < length (SmHeap s')" "j \<notin> old'" for j
    using that assms by (cases "j = i") (auto simp: timed_inv_def paced_def tokens_def)
  then show ?thesis by (simp add: timed_inv_def)
qed

lemma restart_same:
  assumes "i < length (SmHeap s)" "SmHeap s' = (SmHeap s)[i := ev]" "EvGen ev = EvGen (SmHeap s ! i)"
  shows "restart s s' t due = due"
  using assms by (auto simp: restart_def nth_list_update)

lemma timed_invD: "timed_inv (s, t, due, old) \<Longrightarrow> i < length (SmHeap s) \<Longrightarrow> i \<notin> old \<Longrightarrow> paced (SmPending s) t (due i) i (SmHeap s ! i)"
  by (simp add: timed_inv_def)

lemma timed_quiet:
  assumes "timed_inv (s, t, due, old)" "i < length (SmHeap s)" "SmHeap s' = (SmHeap s)[i := ev]"
    and "\<And>j. j \<noteq> i \<Longrightarrow> waiting (SmPending s') j = waiting (SmPending s) j"
    and "EvGen ev = EvGen (SmHeap s ! i)"
    and "paced (SmPending s) t (due i) i (SmHeap s ! i) \<Longrightarrow> paced (SmPending s') t (due i) i ev"
  shows "timed_inv (s', t, restart s s' t due, old \<union> stolen s s')"
  by (rule timed_change [OF assms(1,3,4)]) (use restart_same [OF assms(2,3,5)] assms(6) timed_invD [OF assms(1,2)] in auto)

section \<open>The steps\<close>

lemma inv_timed_run:
  assumes "sm_run s s'" "sm_inv s" "timed_inv (s, t, due, old)" "on_time s s' t due"
  shows "timed_inv (s', t, restart s s' t due, old \<union> stolen s s')"
  using assms(1)
proof cases
  case (timer_fires i g)
  then have "due i \<le> t" using assms(4) by (auto simp: on_time_def)
  then show ?thesis using timer_fires
    by (intro timed_quiet [OF assms(3) timer_fires(2), of _ "(SmHeap s ! i)\<lparr>EvTimer := None\<rparr>"])
       (auto simp: paced_def tokens_def monitor_interval_def)
next
  case (callback_done i g)
  then have i: "i < length (SmHeap s)" using assms(2) by (auto simp: sm_inv_def)
  obtain n where n: "length (waiting (SmPending s) i) = Suc n" "length (remove1 (i, g) (waiting (SmPending s) i)) = n"
    "waiting (SmPending s) i \<noteq> []" by (rule waiting_mem [OF callback_done(2)])
  show ?thesis using callback_done n
    by (intro timed_quiet [OF assms(3) i, of _ "SmHeap s ! i"]) (auto simp: paced_def tokens_def waiting_remove)
next
  case (callback_send i g)
  then have i: "i < length (SmHeap s)" using assms(2) by (auto simp: sm_inv_def)
  obtain n where n: "length (waiting (SmPending s) i) = Suc n" "length (remove1 (i, g) (waiting (SmPending s) i)) = n"
    "waiting (SmPending s) i \<noteq> []" by (rule waiting_mem [OF callback_send(2)])
  show ?thesis using callback_send n
    by (intro timed_quiet [OF assms(3) i, of _ "(SmHeap s ! i)\<lparr>EvQueue := [trigger_of (SmHeap s ! i)]\<rparr>"])
       (auto simp: paced_def tokens_def waiting_remove monitor_interval_def)
next
  case (callback_full i g)
  then have i: "i < length (SmHeap s)" using assms(2) by (auto simp: sm_inv_def)
  obtain n where n: "length (waiting (SmPending s) i) = Suc n" "length (remove1 (i, g) (waiting (SmPending s) i)) = n"
    "waiting (SmPending s) i \<noteq> []" by (rule waiting_mem [OF callback_full(2)])
  show ?thesis using callback_full n
    by (intro timed_quiet [OF assms(3) i, of _ "SmHeap s ! i"]) (auto simp: paced_def tokens_def waiting_remove)
next
  case (callback_panic i g)
  then have i: "i < length (SmHeap s)" using assms(2) by (auto simp: sm_inv_def)
  show ?thesis using callback_panic by (intro timed_quiet [OF assms(3) i, of _ "SmHeap s ! i"]) auto
next
  case (loop_skip i tr q)
  then show ?thesis
    by (intro timed_quiet [OF assms(3) loop_skip(2), of _ "(SmHeap s ! i)\<lparr>EvQueue := q\<rparr>"])
       (auto simp: paced_def tokens_def monitor_interval_def)
next
  case (loop_collect i tr q spec now ms)
  let ?ev = "(SmHeap s ! i)\<lparr>EvQueue := q, EvLast := now, EvLoop := Rearming\<rparr>"
  have h: "SmHeap s' = (SmHeap s)[i := ?ev]" "SmPending s' = SmPending s"
    using loop_collect(1) by (simp_all add: notifyScalingAction_def)
  have "now = t" using assms(4) loop_collect(2,3) by (auto simp: on_time_def h)
  then show ?thesis using h loop_collect
    by (intro timed_quiet [OF assms(3) loop_collect(2) h(1)]) (auto simp: paced_def tokens_def)
next
  case (loop_rearm i)
  let ?ev = "SmHeap s ! i"
  let ?l = "?ev\<lparr>EvLoop := Listening\<rparr>"
  let ?key = "event_key (EvAutoscaler ?ev) (EvNamespace ?ev)"
  let ?t = "put i ?l s"
  have quiet: "timed_inv (?t, t, restart s ?t t due, old \<union> stolen s ?t)"
    by (intro timed_quiet [OF assms(3) loop_rearm(2), of _ ?l]) (auto simp: paced_def tokens_def monitor_interval_def)
  show ?thesis
  proof (cases "map_of (SmEvents s) ?key")
    case None
    then have "s' = ?t" using loop_rearm(1) by (simp add: UpdateTriggerTime_def outcome_def)
    then show ?thesis using quiet by simp
  next
    case (Some j)
    then have j: "j < length (SmHeap s)" "SmRunning s" using sm_inv_lookup(1,3) [OF assms(2)] by blast+
    have s': "s' = put j (rearmed (SmHeap ?t ! j)) ?t" using loop_rearm(1) Some j by (simp add: UpdateTriggerTime_def outcome_def)
    have same: "restart s ?t t due = due" by (rule restart_same [OF loop_rearm(2), of _ ?l]) simp_all
    have sub: "stolen s ?t = {}" using loop_rearm(2) by (auto simp: stolen_def nth_list_update)
    show ?thesis
    proof (rule timed_change [OF quiet [unfolded same sub], of s' j "rearmed (SmHeap ?t ! j)"])
      assume "j \<notin> old \<union> stolen s s'"
      moreover have "EvGen (SmHeap s' ! j) \<noteq> EvGen (SmHeap s ! j)" using j loop_rearm(2)
        by (auto simp: s' rearmed_def nth_list_update)
      ultimately have o: "j \<notin> old" "EvLoop (SmHeap s ! j) = Rearming" "EvLoop (SmHeap s' ! j) = Listening"
        using j(1) by (auto simp: stolen_def)
      then have ji: "j = i" using j loop_rearm(2) by (auto simp: s' rearmed_def nth_list_update split: if_splits)
      have "restart s s' t due i = t + monitor_interval ?ev"
        using loop_rearm(2) by (simp add: restart_def s' ji rearmed_def monitor_interval_def)
      then show "paced (SmPending s') t (restart s s' t due j) j (rearmed (SmHeap ?t ! j))"
        using timed_invD [OF assms(3) loop_rearm(2)] o(1) loop_rearm(2,3) unfolding ji
        by (auto simp: s' ji rearmed_def paced_def tokens_def monitor_interval_def)
    next
      fix k assume "k \<noteq> j"
      then show "restart s s' t due k = due k" using loop_rearm(2) by (auto simp: restart_def s' nth_list_update)
    qed (auto simp: s')
  qed
next
  case (loop_end i)
  then show ?thesis
    by (intro timed_quiet [OF assms(3) loop_end(2), of _ "(SmHeap s ! i)\<lparr>EvLoop := Ended\<rparr>"])
       (auto simp: paced_def tokens_def monitor_interval_def)
qed

section \<open>The calls\<close>

text \<open>A call stops timers and starts those of new events only; it does not touch callbacks, channels and loops.\<close>

definition calmer :: "monitoring_event \<Rightarrow> monitoring_event \<Rightarrow> bool" where
  "calmer ev ev' \<longleftrightarrow> (EvTimer ev' = EvTimer ev \<or> EvTimer ev' = None) \<and> EvGen ev' = EvGen ev \<and> EvQueue ev' = EvQueue ev \<and>
     EvLoop ev' = EvLoop ev \<and> EvLast ev' = EvLast ev \<and> EvScaleUpTrigger ev' = EvScaleUpTrigger ev \<and>
     EvAutoscaler ev' = EvAutoscaler ev \<and> EvNamespace ev' = EvNamespace ev"

definition calms :: "service_monitor \<Rightarrow> service_monitor \<Rightarrow> bool" where
  "calms s s' \<longleftrightarrow> SmPending s' = SmPending s \<and> length (SmHeap s') = length (SmHeap s) \<and>
     (\<forall>i < length (SmHeap s). calmer (SmHeap s ! i) (SmHeap s' ! i))"

lemma calmer_refl [simp]: "calmer ev ev"
  by (simp add: calmer_def)

lemma calms_refl [simp]: "calms s s"
  by (simp add: calms_def)

lemma calms_trans: "calms s t \<Longrightarrow> calms t u \<Longrightarrow> calms s u"
  unfolding calms_def calmer_def by metis

lemma release_calmer: "release ev = Inr ev' \<Longrightarrow> calmer ev ev'"
  by (auto simp: release_def calmer_def split: if_splits)

lemma calms_put: "calmer (SmHeap s ! i) ev \<Longrightarrow> calms s (put i ev s)"
  unfolding calms_def by (metis calmer_refl length_list_update nth_list_update_eq nth_list_update_neq put_simps(3,4))

lemma calms_fields [simp]:
  "calms s (t\<lparr>SmEvents := es\<rparr>) = calms s t" "calms s (t\<lparr>SmRunning := r\<rparr>) = calms s t" "calms s (t\<lparr>SmCrashed := c\<rparr>) = calms s t"
  "calms s (t\<lparr>SmCallback := b\<rparr>) = calms s t" "calms (s\<lparr>SmEvents := es\<rparr>) t = calms s t"
  by (simp_all add: calms_def)

lemma outcome_calms [simp]: "calms s (outcome r) = calms s (snd r)"
  by (cases r) (auto simp: outcome_def split: sum.split fault.split)

lemma release_all_calms: "calms s (snd (release_all xs s))"
proof (induction xs s rule: release_all.induct)
  case (2 k i rest s)
  show ?case
  proof (cases "release (SmHeap s ! i)")
    case (Inr ev)
    then have "calms s ((put i ev s)\<lparr>SmEvents := AList.delete k (SmEvents s)\<rparr>)" using release_calmer calms_put by simp
    then show ?thesis using 2 Inr calms_trans [of s "put i ev s"] by auto
  qed simp
qed simp

lemma cancel_calms: "cancel_existing s key = Inr s1 \<Longrightarrow> calms s s1"
  by (auto simp: cancel_existing_def split: option.splits sum.splits intro!: calms_put dest!: release_calmer) (simp add: calmer_def)

text \<open>What a call does to the heap: it calms the events that are there, and a registration appends one.\<close>

lemma call_calms:
  assumes "sm_call s s'"
  shows "calms s s' \<or> (\<exists>s1 name ns spec up down now. calms s s1 \<and> SmPending s' = SmPending s1 \<and>
     SmHeap s' = SmHeap s1 @ [new_event name ns spec up down now])"
  using assms
proof cases
  case call_stop
  let ?t = "s\<lparr>SmRunning := False, SmHeap := map (\<lambda>ev. ev\<lparr>EvDone := True, EvMonitorDone := True\<rparr>) (SmHeap s)\<rparr>"
  have "calms s ?t" by (simp add: calms_def calmer_def)
  then have "calms s (snd (release_all (SmEvents s) ?t))" using release_all_calms calms_trans by blast
  then show ?thesis using call_stop by (simp add: Stop_def)
next
  case (call_register name ns spec now)
  then show ?thesis using cancel_calms [of s "event_key name ns"]
    by (auto simp: RegisterWithCollector_def outcome_def split: sum.splits fault.splits if_splits) blast
next
  case (call_update name ns spec)
  have "calms s (snd (UpdateCachedSpec s name ns (Some spec)))"
    by (auto simp: UpdateCachedSpec_def calmer_def intro!: calms_put split: option.split)
  then show ?thesis using call_update by simp
next
  case (call_unregister name ns)
  have "calms s (snd (Unregister s name ns))"
    by (auto simp: Unregister_def intro!: calms_put dest!: release_calmer split: option.split sum.split)
  then show ?thesis using call_unregister by simp
qed (auto simp: Start_def SetScalingActionCallback_def)

lemma calmer_paced: "calmer ev ev' \<Longrightarrow> paced ps t d i ev \<Longrightarrow> paced ps t d i ev'"
proof -
  assume c: "calmer ev ev'" and p: "paced ps t d i ev"
  have "tokens ps i ev' \<le> tokens ps i ev" using c by (auto simp: calmer_def tokens_def)
  moreover have "monitor_interval ev' = monitor_interval ev" using c by (simp add: calmer_def monitor_interval_def)
  ultimately show ?thesis using c p unfolding calmer_def paced_def by auto
qed

lemma calms_invs:
  assumes "calms s s1" "timed_inv (s, t, due, old)"
  shows "i < length (SmHeap s1) \<Longrightarrow> i \<notin> old \<Longrightarrow> paced (SmPending s1) t (due i) i (SmHeap s1 ! i)"
    "i < length (SmHeap s1) \<Longrightarrow> EvGen (SmHeap s1 ! i) = EvGen (SmHeap s ! i)"
proof -
  have c: "calmer (SmHeap s ! j) (SmHeap s1 ! j)" if "j < length (SmHeap s1)" for j using assms(1) that by (simp add: calms_def)
  then show "i < length (SmHeap s1) \<Longrightarrow> EvGen (SmHeap s1 ! i) = EvGen (SmHeap s ! i)" unfolding calmer_def by simp
  show "i < length (SmHeap s1) \<Longrightarrow> i \<notin> old \<Longrightarrow> paced (SmPending s1) t (due i) i (SmHeap s1 ! i)"
    using calmer_paced [OF c timed_invD [OF assms(2)]] assms(1) by (simp add: calms_def)
qed

lemma inv_timed_call:
  assumes "sm_call s s'" "sm_inv s" "timed_inv (s, t, due, old)" "stamped s s' t"
  shows "timed_inv (s', t, restart s s' t due, old \<union> stolen s s')"
  using call_calms [OF assms(1)]
proof (elim disjE exE conjE)
  assume c: "calms s s'"
  then have "restart s s' t due = due" using calms_invs(2) [OF c assms(3)] c by (intro ext) (auto simp: restart_def calms_def)
  then show ?thesis using calms_invs(1) [OF c assms(3)] by (simp add: timed_inv_def)
next
  fix s1 name ns spec up down now
  let ?new = "new_event name ns spec up down now" and ?n = "length (SmHeap s)"
  assume c: "calms s s1" and p: "SmPending s' = SmPending s1" and h: "SmHeap s' = SmHeap s1 @ [?new]"
  have l: "length (SmHeap s1) = ?n" "SmPending s1 = SmPending s" using c by (simp_all add: calms_def)
  have e: "now = t" using assms(4) l unfolding stamped_def h by (auto simp: new_event_def nth_append)
  have r: "restart s s' t due i = (if i = ?n then t + monitor_interval ?new else due i)" if "i \<le> ?n" for i
    using that calms_invs(2) [OF c assms(3), of i] l by (auto simp: restart_def h nth_append)
  have "waiting (SmPending s) ?n = []" using assms(2) by (force simp: waiting_def filter_empty_conv sm_inv_def)
  then have new: "paced (SmPending s') t (t + monitor_interval ?new) ?n ?new"
    using p l e by (simp add: paced_def tokens_def new_event_def)
  have "paced (SmPending s') t (restart s s' t due i) i (SmHeap s' ! i)" if "i < length (SmHeap s')" "i \<notin> old" for i
    using that r [of i] new calms_invs(1) [OF c assms(3), of i] l p by (cases "i = ?n") (auto simp: h nth_append)
  then show ?thesis by (simp add: timed_inv_def)
qed

lemma timed_reach_inv: "timed_reach x \<Longrightarrow> timed_inv x"
proof (induction rule: timed_reach.induct)
  case (timed_new t due) show ?case by (simp add: timed_inv_def NewServiceMonitor_def)
next
  case (timed_next x y)
  have inv: "sm_inv (fst x)" by (rule reach_inv [OF timed_reach_sm [OF timed_next(1)]])
  from timed_next(3) show ?case
  proof cases
    case (time_passes t u s due old)
    then show ?thesis using timed_next.IH by (fastforce simp: timed_inv_def paced_def)
  qed (use inv timed_next.IH inv_timed_call inv_timed_run in auto)
qed

text \<open>Only a loop of the same name steals.\<close>

lemma stolen_by_namesake:
  assumes "sm_run s s'" "sm_inv s" "j \<in> stolen s s'"
  shows "\<exists>i < length (SmHeap s). i \<noteq> j \<and> EvLoop (SmHeap s ! i) = Rearming \<and> event_name (SmHeap s ! i) = event_name (SmHeap s ! j)"
  using assms(1)
proof cases
  case (loop_rearm i)
  let ?t = "put i ((SmHeap s ! i)\<lparr>EvLoop := Listening\<rparr>) s"
  obtain k where k: "map_of (SmEvents s) (event_name (SmHeap s ! i)) = Some k"
    using assms(3) loop_rearm(1,2)
    by (cases "map_of (SmEvents s) (event_name (SmHeap s ! i))")
       (auto simp: event_name_def UpdateTriggerTime_def outcome_def stolen_def nth_list_update split: if_splits)
  have k': "k < length (SmHeap s)" "event_name (SmHeap s ! k) = event_name (SmHeap s ! i)" "SmRunning s"
    using sm_inv_lookup(1,2,3) [OF assms(2) k] by (simp_all add: open_event_def event_name_def)
  have s': "s' = put k (rearmed (SmHeap ?t ! k)) ?t"
    using loop_rearm(1) k k' by (simp add: event_name_def UpdateTriggerTime_def outcome_def)
  have "j = k" "k \<noteq> i" using assms(3) loop_rearm(2,3) k'(1)
    by (auto simp: s' stolen_def rearmed_def nth_list_update split: if_splits)
  then show ?thesis using loop_rearm(2,3) k' by metis
qed (use assms(2,3) in \<open>auto simp: stolen_def nth_list_update notifyScalingAction_def sm_inv_def split: if_splits\<close>)

section \<open>The window of a collection\<close>

lemma whole_seconds_lower:
  assumes "0 \<le> p" "p * second \<le> d" "d < 2 ^ 63"
  shows "p \<le> whole_seconds d"
proof -
  have d: "0 \<le> d" "0 < second" using assms(1,2) by (simp_all add: second_def)
  define q r where "q = d div second" and "r = d mod second"
  have "0 \<le> q" using d by (simp add: q_def pos_imp_zdiv_nonneg_iff)
  moreover have "p \<le> q" using zdiv_mono1 [OF assms(2) d(2)] d(2) by (simp add: q_def)
  moreover have "q \<le> 2 ^ 52" using zdiv_mono1 [OF less_imp_le [OF assms(3)] d(2)] by (simp add: q_def second_def)
  ultimately have q: "0 \<le> q" "p \<le> q" "q \<le> 2 ^ 52" .
  have r: "0 \<le> r" "r \<le> second" using d by (simp_all add: r_def less_imp_le)
  have i: "i2f q = Fin (of_int q)" "i2f r = Fin (of_int r)" "i2f second = Fin (of_int second)"
    using q r by (simp_all add: i2f_exact second_def)
  have "0 \<le> (of_int r :: rat) / of_int second" "(of_int r :: rat) / of_int second \<le> 1" using r d by simp_all
  then obtain x where x: "rnd (of_int r / of_int second) = Fin x" "0 \<le> x" "x \<le> 1" by (rule rnd_unit)
  have w: "wf64 (Fin (of_int n))" if "\<bar>n\<bar> \<le> 2 ^ 53" for n using wf64_i2f [of n] i2f_exact [OF that] by simp
  obtain y where y: "rnd (of_int q + x) = Fin y" "of_int q \<le> y" "y \<le> of_int (q + 1)"
    by (rule rnd_between [OF w [of q] w [of "q + 1"], of "of_int q + x"]) (use q x in auto)
  have "whole_seconds d = f2i64 (Fin y)"
    using d x y by (simp add: whole_seconds_def sdiv_nonneg smod_nonneg q_def [symmetric] r_def [symmetric] i)
  moreover have "q \<le> \<lfloor>y\<rfloor>" "\<lfloor>y\<rfloor> \<le> q + 1" using y by linarith+
  moreover have "0 \<le> y" using y(2) q(1) by (meson of_int_0_le_iff order_trans)
  moreover have "(of_int (q + 1) :: rat) \<le> of_int (2 ^ 52 + 1)" unfolding of_int_le_iff using q(3) by simp
  then have "y < 2 ^ 63" using y(3) by simp
  ultimately show ?thesis using q by (simp add: trunc_def)
qed

lemma loop_kept: "EvLoop e = EvLoop (h ! k) \<Longrightarrow> EvLoop (h[k := e] ! i) = EvLoop (h ! i)"
  by (cases "i = k"; cases "k < length h") (auto simp: list_update_beyond)

lemma collect_queued:
  assumes "sm_run s s'" "i < length (SmHeap s)" "EvLoop (SmHeap s ! i) \<noteq> Rearming" "EvLoop (SmHeap s' ! i) = Rearming"
  shows "EvQueue (SmHeap s ! i) \<noteq> []"
  using assms
proof cases
  case (loop_rearm j)
  let ?l = "put j ((SmHeap s ! j)\<lparr>EvLoop := Listening\<rparr>) s"
  have "EvLoop (SmHeap s' ! i) = EvLoop (SmHeap ?l ! i)"
    unfolding loop_rearm(1) by (auto simp: UpdateTriggerTime_def outcome_def rearmed_def loop_kept split: option.split)
  then show ?thesis using assms(2-4) loop_rearm(2) by (auto simp: nth_list_update split: if_splits)
qed (auto simp: notifyScalingAction_def nth_list_update loop_kept split: if_splits)

lemma call_no_collect:
  assumes "sm_call s s'" "i < length (SmHeap s)" shows "EvLoop (SmHeap s' ! i) = EvLoop (SmHeap s ! i)"
  using call_calms [OF assms(1)] assms(2) by (auto simp: calms_def calmer_def nth_append)

text \<open>C17: a collection of an event comes at least a period after its last one, or after its registration, and the window
  it looks back, in whole seconds, covers at least the period; unless the loop of an earlier registration of that
  name has re-armed the event.\<close>

theorem collections_paced:
  assumes "timed_reach (s, t, due, old)" "timed_step (s, t, due, old) (s', t', due', old')" "i < length (SmHeap s)" "i \<notin> old"
    and "EvLoop (SmHeap s ! i) \<noteq> Rearming" "EvLoop (SmHeap s' ! i) = Rearming"
    and "0 \<le> PeriodSeconds (EvScaleUpTrigger (SmHeap s ! i))" "PeriodSeconds (EvScaleUpTrigger (SmHeap s ! i)) < 2 ^ 31"
  shows "EvLast (SmHeap s' ! i) = t' \<and> EvLast (SmHeap s ! i) + monitor_interval (SmHeap s ! i) \<le> t' \<and>
    PeriodSeconds (EvScaleUpTrigger (SmHeap s ! i)) \<le> lookback_window t' (Some (EvLast (SmHeap s ! i)))"
proof -
  let ?ev = "SmHeap s ! i"
  have p: "paced (SmPending s) t (due i) i ?ev" by (rule timed_invD [OF timed_reach_inv [OF assms(1)] assms(3,4)])
  have r: "sm_run s s'" "on_time s s' t due" "t' = t"
    using assms(2,5,6) call_no_collect [OF _ assms(3)] by (auto elim!: timed_stepE)
  have q: "EvLast ?ev + monitor_interval ?ev \<le> t" using collect_queued [OF r(1) assms(3,5,6)] p by (simp add: paced_def)
  have l: "EvLast (SmHeap s' ! i) = t" using r(2) assms(3,5,6) by (simp add: on_time_def)
  have "monitor_interval ?ev = PeriodSeconds (EvScaleUpTrigger ?ev) * second"
    using assms(7,8) by (simp add: monitor_interval_def second_def wrap64_id)
  then have "PeriodSeconds (EvScaleUpTrigger ?ev) \<le> lookback_window t (Some (EvLast ?ev))"
    unfolding lookback_window_def option.case using q assms(7,8) by (intro whole_seconds_lower) (auto simp: second_def)
  then show ?thesis using q l r(3) by simp
qed

text \<open>An event registered at time zero with a period of a minute, whose timer fires on time.\<close>

lemma timed_sample: "\<exists>due. timed_reach (sample_monitor, 0, due, {}) \<and> due 0 = 60 * second"
proof -
  let ?s0 = "NewServiceMonitor\<lparr>SmRunning := True\<rparr>"
  let ?s1 = "?s0\<lparr>SmCallback := True\<rparr>"
  have c: "\<not> SmCrashed NewServiceMonitor" "\<not> SmCrashed ?s0" "\<not> SmCrashed ?s1" by (simp_all add: NewServiceMonitor_def)
  have e: "stamped NewServiceMonitor ?s0 0" "stamped ?s0 ?s1 0" "stamped ?s1 sample_monitor 0"
    by (simp_all add: stamped_def NewServiceMonitor_def sample_monitor_def sample_event_def new_event_def)
  have n: "stolen NewServiceMonitor x = {}" "stolen ?s0 x = {}" "stolen ?s1 x = {}" for x
    by (simp_all add: stolen_def NewServiceMonitor_def)
  have "outcome (Start NewServiceMonitor) = ?s0" by (simp add: Start_def NewServiceMonitor_def outcome_def)
  then have "sm_call NewServiceMonitor ?s0" using call_start by metis
  then obtain d0 where r0: "timed_reach (?s0, 0, d0, {})" using timed_next [OF timed_new _ timed_call [OF _ e(1)]] c(1) n(1) by fastforce
  have "sm_call ?s0 ?s1" using call_callback [of ?s0 True] by (simp add: SetScalingActionCallback_def)
  then obtain d1 where r1: "timed_reach (?s1, 0, d1, {})" using timed_next [OF r0 _ timed_call [OF _ e(2)]] c(2) n(2) by fastforce
  have "sm_call ?s1 sample_monitor" using register_sample call_register by metis
  then have "timed_reach (sample_monitor, 0, restart ?s1 sample_monitor 0 d1, {})"
    using timed_next [OF r1 _ timed_call [OF _ e(3)]] c(3) n(3) [of sample_monitor] by simp
  moreover have "restart ?s1 sample_monitor 0 d1 0 = 60 * second"
    by (simp add: restart_def sample_monitor_def NewServiceMonitor_def sample_event_def new_event_def monitor_interval_def second_def wrap64_id)
  ultimately show ?thesis by blast
qed

definition queued_monitor :: service_monitor where
  "queued_monitor = sample_monitor\<lparr>SmHeap := [sample_event\<lparr>EvTimer := None, EvQueue := [trigger_of sample_event]\<rparr>]\<rparr>"

lemma timed_queued: "\<exists>due. timed_reach (queued_monitor, 60 * second, due, {})"
proof -
  note m = sample_monitor_def fired_monitor_def queued_monitor_def NewServiceMonitor_def sample_event_def new_event_def trigger_of_def
  obtain due where r0: "timed_reach (sample_monitor, 0, due, {})" "due 0 = 60 * second" using timed_sample by blast
  have c: "\<not> SmCrashed sample_monitor" "\<not> SmCrashed fired_monitor" by (simp_all add: m)
  have n: "stolen sample_monitor fired_monitor = {}" "stolen fired_monitor queued_monitor = {}"
    by (auto simp: stolen_def m less_Suc_eq_0_disj)
  have "timed_step (sample_monitor, 0, due, {}) (sample_monitor, 60 * second, due, {})" by (rule time_passes) (simp add: second_def)
  then have r1: "timed_reach (sample_monitor, 60 * second, due, {})" using timed_next [OF r0(1)] c(1) by simp
  have f: "sm_run sample_monitor fired_monitor" using timer_fires [of 0 sample_monitor 0] by (simp add: m put_def)
  have o1: "on_time sample_monitor fired_monitor (60 * second) due" using r0(2) by (simp add: on_time_def m)
  obtain due1 where r2: "timed_reach (fired_monitor, 60 * second, due1, {})"
    using timed_next [OF r1 _ timed_run [OF f o1]] c(1) n(1) by auto
  have g: "sm_run fired_monitor queued_monitor" using callback_send [of 0 0 fired_monitor] by (simp add: m put_def)
  have "on_time fired_monitor queued_monitor (60 * second) due1" by (simp add: on_time_def m)
  then show ?thesis using timed_next [OF r2 _ timed_run [OF g]] c(2) n(2) by auto
qed

lemma collections_paced_witness:
  "\<exists>s t due s' t' due' old'. timed_reach (s, t, due, {}) \<and> timed_step (s, t, due, {}) (s', t', due', old') \<and>
     EvLoop (SmHeap s' ! 0) = Rearming \<and> 60 \<le> lookback_window t' (Some (EvLast (SmHeap s ! 0)))"
proof -
  note m = sample_monitor_def queued_monitor_def NewServiceMonitor_def sample_event_def new_event_def
  obtain due where r: "timed_reach (queued_monitor, 60 * second, due, {})" using timed_queued by blast
  have h: "0 < length (SmHeap queued_monitor)" "EvLoop (SmHeap queued_monitor ! 0) = Listening"
    "EvQueue (SmHeap queued_monitor ! 0) = [trigger_of sample_event]" "TeSpec (trigger_of sample_event) = Some sample_spec_rca"
    "PeriodSeconds (EvScaleUpTrigger (SmHeap queued_monitor ! 0)) = 60"
    by (simp_all add: m trigger_of_def)
  let ?s' = "notifyScalingAction (put 0 ((SmHeap queued_monitor ! 0)\<lparr>EvQueue := [], EvLast := 60 * second, EvLoop := Rearming\<rparr>) queued_monitor)
    (EvAutoscaler (SmHeap queued_monitor ! 0)) (EvNamespace (SmHeap queued_monitor ! 0)) sample_spec_rca Map.empty"
  have run: "sm_run queued_monitor ?s'" by (rule loop_collect [OF h(1-4)])
  have l: "EvLoop (SmHeap ?s' ! 0) = Rearming" "EvLast (SmHeap ?s' ! 0) = 60 * second" "length (SmHeap queued_monitor) = 1"
    by (simp_all add: notifyScalingAction_def m)
  have "on_time queued_monitor ?s' (60 * second) due" using l by (auto simp: on_time_def m)
  from timed_run [OF run this] have step: "timed_step (queued_monitor, 60 * second, due, {})
      (?s', 60 * second, restart queued_monitor ?s' (60 * second) due, {} \<union> stolen queued_monitor ?s')" .
  have "60 \<le> lookback_window (60 * second) (Some (EvLast (SmHeap queued_monitor ! 0)))"
    using collections_paced [OF r step h(1) _ _ l(1)] h(2,5) by simp
  then show ?thesis using r step l(1) by blast
qed

section \<open>The loop of an earlier registration\<close>

text \<open>Re-arming goes by name: the loop of an event that was removed during its collection re-arms the event registered
  meanwhile under the same name.\<close>

definition collecting_monitor :: service_monitor where
  "collecting_monitor = notifyScalingAction (put 0 (sample_event\<lparr>EvTimer := None, EvLoop := Rearming\<rparr>) sample_monitor)
     ''rca'' ''default'' sample_spec_rca Map.empty"

definition stale_monitor :: service_monitor where
  "stale_monitor = outcome (RegisterWithCollector (outcome (Unregister collecting_monitor ''rca'' ''default'')) ''rca'' ''default''
     (Some sample_spec_rca) (GetEffectiveBehavior sample_spec_rca) 0)"

lemma stale_loop_rearms:
  "sm_reach stale_monitor \<and> EvClosed (SmHeap stale_monitor ! 0) \<and> EvTimer (SmHeap stale_monitor ! 1) = Some 0 \<and>
   (\<exists>s'. sm_run stale_monitor s' \<and> EvLoop (SmHeap s' ! 0) = Listening \<and> EvTimer (SmHeap s' ! 1) = Some 1)"
proof -
  note m = sample_monitor_def fired_monitor_def queued_monitor_def NewServiceMonitor_def sample_event_def new_event_def
  have q: "sm_reach queued_monitor" using timed_queued timed_reach_sm by fastforce
  have "sm_run queued_monitor collecting_monitor"
    using loop_collect [of 0 queued_monitor "trigger_of sample_event" "[]" sample_spec_rca 0 Map.empty]
    by (simp add: m trigger_of_def collecting_monitor_def notifyScalingAction_def put_def)
  then have c: "sm_reach collecting_monitor" using reach_run [OF q] by (simp add: m)
  have nc: "\<not> SmCrashed collecting_monitor" by (simp add: collecting_monitor_def notifyScalingAction_def m)
  let ?u = "outcome (Unregister collecting_monitor ''rca'' ''default'')"
  have u: "sm_reach ?u" using reach_call [OF c nc call_unregister] .
  note defs = collecting_monitor_def notifyScalingAction_def Unregister_def outcome_def release_def event_key_def put_def
  have "\<not> SmCrashed ?u" by (simp add: defs m)
  then have "sm_reach stale_monitor" unfolding stale_monitor_def by (rule reach_call [OF u _ call_register])
  moreover have h: "0 < length (SmHeap stale_monitor)" "EvLoop (SmHeap stale_monitor ! 0) = Rearming"
    "EvClosed (SmHeap stale_monitor ! 0)" "EvTimer (SmHeap stale_monitor ! 1) = Some 0"
    "EvLoop (SmHeap (outcome (UpdateTriggerTime (put 0 ((SmHeap stale_monitor ! 0)\<lparr>EvLoop := Listening\<rparr>) stale_monitor)
       (EvAutoscaler (SmHeap stale_monitor ! 0)) (EvNamespace (SmHeap stale_monitor ! 0)))) ! 0) = Listening"
    "EvTimer (SmHeap (outcome (UpdateTriggerTime (put 0 ((SmHeap stale_monitor ! 0)\<lparr>EvLoop := Listening\<rparr>) stale_monitor)
       (EvAutoscaler (SmHeap stale_monitor ! 0)) (EvNamespace (SmHeap stale_monitor ! 0)))) ! 1) = Some 1"
    by (simp_all add: stale_monitor_def RegisterWithCollector_def cancel_existing_def UpdateTriggerTime_def rearmed_def defs m
        GetEffectiveBehavior_def sample_spec_rca_def deref_def GetDefaultScalingBehavior_def DefaultPeriodSeconds_def)
  ultimately show ?thesis using loop_rearm [OF h(1,2)] by blast
qed

end
