(* ===== verification/Reports.thy ===== *)
theory Reports
  imports Scaling_Action Decimal_Text
begin

text \<open>
  The texts the optimizer gives of its results: \<open>LatencyResult.String\<close> of \<open>internal/optimizer/latency.go\<close> and
  \<open>OptimalConfiguration.String\<close> of \<open>internal/optimizer/resource_optimizer.go\<close>, and the reason of a resource change of
  \<open>internal/scaler/scaler.go\<close>.
\<close>

definition newline :: string where "newline = [CHR 0x0A]"
definition indent :: string where "indent = [CHR 0x09, CHR '' '']"

text \<open>A line of a report: its label, a value and what follows the value.\<close>

definition report_line :: "string \<Rightarrow> string \<Rightarrow> string \<Rightarrow> string" where
  "report_line label value unit = label @ value @ unit @ newline"

definition LatencyResult_String :: "latency_result \<Rightarrow> string" where
  "LatencyResult_String r = newline @ ''Latency Estimate:'' @ newline @
     report_line ''  Total Latency (E2E):  '' (fmt_fixed 2 (E2E r)) '' ms'' @
     report_line ''  TTFT:                 '' (fmt_fixed 2 (TTFT r)) '' ms'' @
     report_line ''  ITL:                  '' (fmt_fixed 2 (ITL r)) '' ms'' @
     report_line ''  Queue Wait Time:      '' (fmt_fixed 2 (QueueWaitTime r)) '' ms'' @
     report_line ''  Service Time:         '' (fmt_fixed 2 (ServiceTimeSeconds r)) '' s'' @
     report_line ''    - Prefill:          '' (fmt_fixed 2 (Prefill r)) '' ms'' @
     report_line ''    - Decode:           '' (fmt_fixed 2 (Decode r)) '' ms'' @
     report_line ''    - KV Cache Savings: '' (fmt_fixed 2 (KVCacheReduction r)) '' ms'' @
     ''  '' @ newline @ ''  System Metrics:'' @ newline @
     report_line ''  Utilization:          '' (fmt_fixed 1 (fmul (Utilization r) (Fin 100))) ''%'' @
     report_line ''  AllocationImpact:     '' (fmt_fixed 2 (AllocationImpact r)) ''%'' @
     report_line ''  Avg Queue Length:     '' (fmt_fixed 2 (AvgQueueLength r)) '' requests'' @
     report_line ''  Avg System Length:    '' (fmt_fixed 2 (AvgSystemLength r)) '' requests'' @
     ''  Probability of Wait:  '' @ fmt_fixed 1 (fmul (ProbabilityOfWait r) (Fin 100)) @ ''%''"

text \<open>The marks are three bytes of UTF-8 each.\<close>

definition config_status :: "optimal_configuration \<Rightarrow> string" where
  "config_status c = (if \<not> MeetsConstraints c then map char_of [226, 156, 151 :: nat] @ '' INVALID''
     else map char_of [226, 156, 147 :: nat] @ '' VALID'')"

definition gpu_info :: "optimal_configuration \<Rightarrow> string" where
  "gpu_info c = (if 1 < GPUsPerReplica c
     then newline @ indent @ ''GPU Allocation:'' @ newline @
       report_line (indent @ ''GPUs per Replica:     '') (FormatInt (GPUsPerReplica c)) [] @
       report_line (indent @ ''Total GPUs:           '') (FormatInt (TotalGPUs c)) [] @ indent
     else [])"

definition OptimalConfiguration_String :: "optimal_configuration \<Rightarrow> string" where
  "OptimalConfiguration_String c = ''Optimal Configuration ['' @ config_status c @ '']:'' @ newline @
     report_line (indent @ ''Replicas:             '') (FormatInt (Replicas c)) [] @
     report_line indent (gpu_info c) [] @
     report_line (indent @ ''Requested Allocation per Replica:'') [] [] @
     report_line (indent @ ''Compute:              '') (fmt_fixed 0 (RequestedCompute c)) ''%'' @
     report_line (indent @ ''Memory:               '') (fmt_fixed 2 (RequestedMemoryGB c)) '' GB'' @
     report_line indent [] [] @
     report_line (indent @ ''Estimated Working Set per Replica:'') [] [] @
     report_line (indent @ ''Thread Utilization:   '') (fmt_fixed 1 (ThreadOccupancy (ResourceRequirements c))) ''%'' @
     report_line (indent @ ''Memory Usage:         '') (fmt_fixed 2 (MemoryGB (ResourceRequirements c))) '' GB'' @
     report_line indent [] [] @
     report_line (indent @ ''Performance:'') [] [] @
     report_line (indent @ ''Total Latency:        '') (fmt_fixed 2 (E2E (EstimatedLatency c))) '' ms'' @
     report_line (indent @ ''TTFT Latency:         '') (fmt_fixed 2 (TTFT (EstimatedLatency c))) '' ms'' @
     report_line (indent @ ''ITL Latency:          '') (fmt_fixed 2 (ITL (EstimatedLatency c))) '' ms'' @
     report_line (indent @ ''Service Time:         '') (fmt_fixed 2 (ServiceTime (EstimatedLatency c))) '' ms'' @
     report_line (indent @ ''Allocation Impact:    '') (fmt_fixed 2 (AllocationImpact (EstimatedLatency c))) ''%'' @ indent"

text \<open>The first line tells whether the configuration meets its constraints.\<close>

lemma report_says_valid:
  "has_prefix (OptimalConfiguration_String c) (''Optimal Configuration ['' @ map char_of [226, 156, 147 :: nat]) \<longleftrightarrow> MeetsConstraints c"
  by (auto simp: OptimalConfiguration_String_def config_status_def)

section \<open>The reason of a resource change\<close>

fun joined_with :: "string \<Rightarrow> string list \<Rightarrow> string" where
  "joined_with sep [] = []"
| "joined_with sep [x] = x"
| "joined_with sep (x # y # r) = x @ sep @ joined_with sep (y # r)"

definition resource_changes :: "scaling_decision \<Rightarrow> string list" where
  "resource_changes d =
     (let c = CurrentConfig d; w = DesiredConfig d in
      (if GPUsPerReplica c \<noteq> GPUsPerReplica w
       then [''GPUs per replica from '' @ FormatInt (GPUsPerReplica c) @ '' to '' @ FormatInt (GPUsPerReplica w)] else []) @
      (if fgt (fabs (fsub (RequestedCompute c) (RequestedCompute w))) (lit (1 / 100))
       then [''compute from '' @ fmt_fixed 1 (RequestedCompute c) @ ''% to '' @ fmt_fixed 1 (RequestedCompute w) @ ''%''] else []) @
      (if fgt (fabs (fsub (RequestedMemoryGB c) (RequestedMemoryGB w))) (fmul (RequestedMemoryGB c) (lit (1 / 100)))
       then [''memory from '' @ fmt_fixed 2 (RequestedMemoryGB c) @ '' GB to '' @ fmt_fixed 2 (RequestedMemoryGB w) @ '' GB''] else []))"

definition buildResourceChangeReason :: "scaling_decision \<Rightarrow> string \<Rightarrow> string" where
  "buildResourceChangeReason d changeType =
     (if resource_changes d = [] then ''Resource '' @ changeType
      else ''Resource '' @ changeType @ '': '' @ joined_with '', '' (resource_changes d))"

end
