(* ===== verification/Benchmark.thy ===== *)
theory Benchmark
  imports Reports Admission
begin

text \<open>
  \<open>cmd/optimizer-benchmark/main.go\<close>: the program that runs the search on every combination of arrival rates, input and
  output lengths and writes a table of the results. Reading and decoding files is a parameter; the table is the list of
  records passed to the CSV writer.
\<close>

section \<open>Arguments\<close>

record bench_flags =
  E2ETargetMs :: int
  TTFTTargetMs :: int
  ITLTargetMs :: int
  ArrivalRates :: string
  InputTokens :: string
  OutputTokens :: string

text \<open>\<open>strconv.Atoi\<close>.\<close>

definition strconv_Atoi :: "string \<Rightarrow> int option" where
  "strconv_Atoi s =
     (case split_sign s of (neg, r) \<Rightarrow>
        if \<not> all_digits r then None
        else let v = (if neg then - digits_val r else digits_val r)
             in if - (2 ^ 63) \<le> v \<and> v < 2 ^ 63 then Some v else None)"

text \<open>The loop of \<open>parseFloatSlice\<close> and \<open>parseIntSlice\<close>. Ranging over a string re-encodes what is not UTF-8, which neither
  parser accepts in any form; so the loop is over bytes.\<close>

fun parse_slice :: "(string \<Rightarrow> 'a option) \<Rightarrow> string \<Rightarrow> string \<Rightarrow> string \<Rightarrow> 'a list \<Rightarrow> 'a list res" where
  "parse_slice p msg [] current result =
     (if current \<noteq> [] then (case p current of None \<Rightarrow> Fail msg | Some v \<Rightarrow> Ok (result @ [v])) else Ok result)"
| "parse_slice p msg (c # s) current result =
     (if c = CHR '','' then
        (if current \<noteq> [] then (case p current of None \<Rightarrow> Fail msg | Some v \<Rightarrow> parse_slice p msg s [] (result @ [v]))
         else parse_slice p msg s current result)
      else parse_slice p msg s (current @ [c]) result)"

definition parseFloatSlice :: "(string \<Rightarrow> f64 option) \<Rightarrow> string \<Rightarrow> f64 list res" where
  "parseFloatSlice hx s = parse_slice (strconv_ParseFloat hx) ''invalid float value'' s [] []"

definition parseIntSlice :: "string \<Rightarrow> int list res" where
  "parseIntSlice s = parse_slice strconv_Atoi ''invalid int value'' s [] []"

datatype yaml_object = AutoscalerObject rca_spec | OtherObject

definition loadSpecFromYAML :: "string option \<Rightarrow> bool \<Rightarrow> (string \<Rightarrow> yaml_object option) \<Rightarrow> rca_spec res" where
  "loadSpecFromYAML data scheme_ok decode =
     (case data of None \<Rightarrow> Fail ''failed to read file''
      | Some text \<Rightarrow>
          if \<not> scheme_ok then Fail ''failed to add to scheme''
          else (case decode text of
                  None \<Rightarrow> Fail ''failed to decode YAML''
                | Some OtherObject \<Rightarrow> Fail ''decoded object is not a ResourceClaimAutoscaler''
                | Some (AutoscalerObject spec) \<Rightarrow> Ok spec))"

definition flag_or_spec :: "int \<Rightarrow> int option \<Rightarrow> f64 option" where
  "flag_or_spec flag given = (if 0 < flag then Some (i2f flag) else map_option i2f given)"

definition createLatencyTargets :: "bench_flags \<Rightarrow> rca_spec \<Rightarrow> latency_targets" where
  "createLatencyTargets flags spec =
     \<lparr>TargetE2E = flag_or_spec (E2ETargetMs flags) (TargetLatency spec \<bind> EndToEndLatencyMilliseconds),
      TargetTTFT = flag_or_spec (TTFTTargetMs flags) (TargetLatency spec \<bind> TimeToFirstTokenLatencyMilliseconds),
      TargetITL = flag_or_spec (ITLTargetMs flags) (TargetLatency spec \<bind> InterTokenLatencyMilliseconds)\<rparr>"

section \<open>The table\<close>

definition csv_header :: "string list" where
  "csv_header = [''arrival_rate'', ''input_tokens'', ''output_tokens'', ''replicas'', ''gpus_per_replica'', ''total_gpus'',
     ''requested_compute_pct'', ''requested_memory_gb'', ''thread_utilization_pct'', ''memory_usage_gb'', ''e2e_latency_ms'',
     ''ttft_latency_ms'', ''itl_latency_ms'', ''queue_wait_time_ms'', ''service_time_ms'', ''allocation_impact_pct'',
     ''meets_constraints'', ''error'']"

type_synonym test = "f64 \<times> int \<times> int"

definition row_key :: "test \<Rightarrow> string list" where
  "row_key t = (case t of (rate, input, output) \<Rightarrow> [fmt_fixed 1 rate, FormatInt input, FormatInt output])"

definition config_cells :: "optimal_configuration \<Rightarrow> string list" where
  "config_cells c =
     [FormatInt (Replicas c), FormatInt (GPUsPerReplica c), FormatInt (TotalGPUs c),
      fmt_fixed 1 (RequestedCompute c), fmt_fixed 2 (RequestedMemoryGB c),
      fmt_fixed 1 (ThreadOccupancy (ResourceRequirements c)), fmt_fixed 2 (MemoryGB (ResourceRequirements c)),
      fmt_fixed 2 (E2E (EstimatedLatency c)), fmt_fixed 2 (TTFT (EstimatedLatency c)), fmt_fixed 2 (ITL (EstimatedLatency c)),
      fmt_fixed 2 (QueueWaitTime (EstimatedLatency c)), fmt_fixed 2 (ServiceTime (EstimatedLatency c)),
      fmt_fixed 2 (AllocationImpact (EstimatedLatency c)), (if MeetsConstraints c then ''true'' else ''false''), []]"

definition error_cells :: "string \<Rightarrow> string list" where
  "error_cells msg = replicate 13 [] @ [''false'', msg]"

text \<open>The registries are ranged over anew for every optimizer.\<close>

type_synonym orders = "(string \<times> gpu_specs) list \<times> (string \<times> arch_params) list"

definition search_for :: "(f64 \<Rightarrow> f64 \<Rightarrow> f64) \<Rightarrow> orders \<Rightarrow> bench_flags \<Rightarrow> rca_spec \<Rightarrow> test \<Rightarrow> optimal_configuration res" where
  "search_for pf os flags spec t =
     (case t of (rate, input, output) \<Rightarrow>
        (case NewResourceOptimizer (fst os) (snd os) spec of
           Inl f \<Rightarrow> Inl f
         | Inr opt \<Rightarrow>
             (case FindOptimalConfiguration pf (SetWorkloadParameters opt rate input output 10) rate
                     (Some (createLatencyTargets flags spec)) of
                None \<Rightarrow> Inl Hang
              | Some (r, _) \<Rightarrow> r)))"

fun run_tests :: "(f64 \<Rightarrow> f64 \<Rightarrow> f64) \<Rightarrow> (nat \<Rightarrow> orders) \<Rightarrow> bench_flags \<Rightarrow> rca_spec \<Rightarrow> nat \<Rightarrow> test list \<Rightarrow> string list list \<times> fault option" where
  "run_tests pf os flags spec n [] = ([], None)"
| "run_tests pf os flags spec n (t # ts) =
     (case search_for pf (os n) flags spec t of
        Inl (Panic m) \<Rightarrow> ([], Some (Panic m))
      | Inl Hang \<Rightarrow> ([], Some Hang)
      | Inl (Error msg) \<Rightarrow> (case run_tests pf os flags spec (Suc n) ts of (rows, f) \<Rightarrow> ((row_key t @ error_cells msg) # rows, f))
      | Inr c \<Rightarrow> (case run_tests pf os flags spec (Suc n) ts of (rows, f) \<Rightarrow> ((row_key t @ config_cells c) # rows, f)))"

text \<open>The three nested loops, rates outermost.\<close>

definition variations :: "f64 list \<Rightarrow> int list \<Rightarrow> int list \<Rightarrow> test list" where
  "variations rates inputs outputs =
     concat (map (\<lambda>r. concat (map (\<lambda>i. map (\<lambda>k. (r, i, k)) outputs) inputs)) rates)"

section \<open>The program\<close>

datatype bench_end = Exit int | Complete | Died fault

text \<open>The records written, and how the program ends. Before its arguments are parsed it logs the model of the hint.\<close>

definition benchmark_main ::
  "(string \<Rightarrow> f64 option) \<Rightarrow> (f64 \<Rightarrow> f64 \<Rightarrow> f64) \<Rightarrow> (nat \<Rightarrow> orders) \<Rightarrow> bench_flags \<Rightarrow> rca_spec res \<Rightarrow> bool \<Rightarrow> bool \<Rightarrow>
   string list list \<times> bench_end" where
  "benchmark_main hx pf os flags loaded created header_written =
     (case loaded of Inl _ \<Rightarrow> ([], Exit 1) | Inr spec \<Rightarrow>
       (case deref (Hint (Target spec)) of Inl f \<Rightarrow> ([], Died f) | Inr _ \<Rightarrow>
         (case parseFloatSlice hx (ArrivalRates flags) of Inl _ \<Rightarrow> ([], Exit 1) | Inr rates \<Rightarrow>
           (case parseIntSlice (InputTokens flags) of Inl _ \<Rightarrow> ([], Exit 1) | Inr inputs \<Rightarrow>
             (case parseIntSlice (OutputTokens flags) of Inl _ \<Rightarrow> ([], Exit 1) | Inr outputs \<Rightarrow>
               if \<not> created then ([], Exit 1)
               else if \<not> header_written then ([csv_header], Exit 1)
               else (case run_tests pf os flags spec 1 (variations rates inputs outputs) of
                       (rows, f) \<Rightarrow> (csv_header # rows, case f of None \<Rightarrow> Complete | Some f \<Rightarrow> Died f)))))))"

section \<open>Comma-separated values\<close>

text \<open>The reference: the non-empty pieces between commas, each parsed.\<close>

fun pieces :: "string \<Rightarrow> string list" where
  "pieces [] = [[]]"
| "pieces (c # s) = (if c = CHR '','' then [] # pieces s else (c # hd (pieces s)) # tl (pieces s))"

definition parse_all :: "(string \<Rightarrow> 'a option) \<Rightarrow> string \<Rightarrow> string list \<Rightarrow> 'a list res" where
  "parse_all p msg xs = (case those (map p (filter (\<lambda>x. x \<noteq> []) xs)) of None \<Rightarrow> Fail msg | Some vs \<Rightarrow> Ok vs)"

lemma pieces_nonempty [simp]: "pieces s \<noteq> []"
  by (cases s) auto

lemma slice_pieces:
  "parse_slice p msg s current result =
     (case parse_all p msg ((current @ hd (pieces s)) # tl (pieces s)) of Inl f \<Rightarrow> Inl f | Inr vs \<Rightarrow> Ok (result @ vs))"
proof (induction p msg s current result rule: parse_slice.induct)
  case (1 p msg current result)
  then show ?case by (auto simp: parse_all_def split: option.split)
next
  case (2 p msg c s current result)
  obtain x xs where x: "pieces s = x # xs" by (cases "pieces s") auto
  show ?case
  proof (cases "c = CHR '','' \<and> current \<noteq> []")
    case True
    then show ?thesis using 2(1) x by (cases "p current") (auto simp: parse_all_def split: option.splits sum.splits)
  next
    case False
    then show ?thesis using 2(2,3) x by (cases "c = CHR '',''") (simp_all add: parse_all_def)
  qed
qed

lemma slices_parsed: "parse_slice p msg s [] [] = parse_all p msg (pieces s)"
proof -
  have "hd (pieces s) # tl (pieces s) = pieces s" by simp
  then show ?thesis using slice_pieces [of p msg s "[]" "[]"] by (simp split: sum.split)
qed

abbreviation joined :: "string list \<Rightarrow> string" where
  "joined \<equiv> joined_with '',''"

lemma pieces_append: "CHR '','' \<notin> set x \<Longrightarrow> pieces (x @ CHR '','' # s) = x # pieces s"
  by (induction x) auto

lemma pieces_single: "CHR '','' \<notin> set x \<Longrightarrow> pieces x = [x]"
  by (induction x) auto

lemma pieces_joined: "xs \<noteq> [] \<Longrightarrow> \<forall>x \<in> set xs. CHR '','' \<notin> set x \<Longrightarrow> pieces (joined xs) = xs"
  by (induction "'','' :: string" xs rule: joined_with.induct) (simp_all add: pieces_append pieces_single)

text \<open>A list of texts that parse reads back as the list of their values.\<close>

lemma joined_parses:
  assumes "\<And>v. v \<in> set vs \<Longrightarrow> p (f v) = Some (g v) \<and> f v \<noteq> [] \<and> CHR '','' \<notin> set (f v)"
  shows "parse_slice p msg (joined (map f vs)) [] [] = Ok (map g vs)"
proof (cases "vs = []")
  case False
  then have "pieces (joined (map f vs)) = map f vs" using assms by (intro pieces_joined) auto
  moreover have "filter (\<lambda>x. x \<noteq> []) (map f vs) = map f vs" using assms by (auto simp: filter_id_conv)
  moreover have "those (map p (map f vs)) = Some (map g vs)" using assms by (induction vs) auto
  ultimately show ?thesis by (simp add: slices_parsed parse_all_def)
qed simp

lemma Atoi_FormatInt:
  assumes "- (2 ^ 63) \<le> n" "n < 2 ^ 63"
  shows "strconv_Atoi (FormatInt n) = Some n" "FormatInt n \<noteq> []" "CHR '','' \<notin> set (FormatInt n)"
proof -
  have nc: "CHR '','' \<notin> set (dec_nat k)" for k using dec_digits [of k] by (auto simp: is_digit_def)
  then show "FormatInt n \<noteq> []" "CHR '','' \<notin> set (FormatInt n)" by (auto simp: FormatInt_def)
  have d: "all_digits (dec_nat k)" "digits_val (dec_nat k) = int k" for k
    using dec_digits [of k] by (simp_all add: all_digits_def list_all_iff digits_val_dec)
  have s: "split_sign (dec_nat k) = (False, dec_nat k)" for k
    using dec_digits [of k] dec_nonempty [of k] by (cases "dec_nat k") (auto simp: split_sign_def is_digit_def)
  show "strconv_Atoi (FormatInt n) = Some n"
    using assms by (auto simp: strconv_Atoi_def FormatInt_def s d Let_def) (auto simp: split_sign_def d)
qed

lemma ints_read_back:
  assumes "list_all (\<lambda>n. - (2 ^ 63) \<le> n \<and> n < 2 ^ 63) ns"
  shows "parseIntSlice (joined (map FormatInt ns)) = Ok ns"
  using assms joined_parses [of ns strconv_Atoi FormatInt "\<lambda>n. n"] Atoi_FormatInt unfolding parseIntSlice_def by (simp add: list_all_iff)

lemma floats_read_back:
  assumes "list_all (\<lambda>q. wf64 (Fin q)) qs" "0 < d"
  shows "parseFloatSlice hx (joined (map (\<lambda>q. fmt_fixed d (Fin q)) qs)) = Ok (map (\<lambda>q. lit (decimals d q)) qs)"
proof -
  have "CHR '','' \<notin> set (fmt_fixed d (Fin q))" for q using fixed_chars [of "CHR '',''" d q] by (auto simp: is_digit_def simp del: fmt_fixed.simps)
  then show ?thesis using assms strconv_fixed fixed_nonempty unfolding parseFloatSlice_def
    by (intro joined_parses) (simp add: list_all_iff del: fmt_fixed.simps)
qed

text \<open>C28: the benchmark's lists are read as the non-empty pieces between commas, each parsed, and fail on the first that
  does not parse; so the integers and rates written with commas between them are read back, rates as their decimals
  show them.\<close>

theorem slices_read_back:
  assumes "list_all (\<lambda>n. - (2 ^ 63) \<le> n \<and> n < 2 ^ 63) ns" "list_all (\<lambda>q. wf64 (Fin q)) qs" "0 < d"
  shows "parseIntSlice (joined (map FormatInt ns)) = Ok ns \<and>
    parseFloatSlice hx (joined (map (\<lambda>q. fmt_fixed d (Fin q)) qs)) = Ok (map (\<lambda>q. lit (decimals d q)) qs) \<and>
    parseIntSlice s = parse_all strconv_Atoi ''invalid int value'' (pieces s) \<and>
    parseFloatSlice hx s = parse_all (strconv_ParseFloat hx) ''invalid float value'' (pieces s)"
  using ints_read_back [OF assms(1)] floats_read_back [OF assms(2,3)] by (simp add: parseIntSlice_def parseFloatSlice_def slices_parsed)

lemma slices_read_back_witness:
  "parseIntSlice (joined (map FormatInt [10, - 20])) = Ok [10, - 20] \<and>
   parseFloatSlice (\<lambda>_. None) (joined (map (\<lambda>q. fmt_fixed 2 (Fin q)) [1 / 4])) = Ok (map (\<lambda>q. lit (decimals 2 q)) [1 / 4])"
proof -
  have "list_all (\<lambda>q. wf64 (Fin q)) [1 / 4]" using wf64_grid [of 2 1] by simp
  moreover have "list_all (\<lambda>n. - (2 ^ 63) \<le> n \<and> n < 2 ^ 63) [10, - 20 :: int]" by simp
  moreover have "0 < (2 :: nat)" by simp
  ultimately show ?thesis using slices_read_back [of "[10, - 20]" "[1 / 4]" 2] by blast
qed

section \<open>The runs\<close>

text \<open>The cells of a test whose search returns.\<close>

definition result_cells :: "optimal_configuration res \<Rightarrow> string list" where
  "result_cells r = (case r of Inl (Error msg) \<Rightarrow> error_cells msg | Inl _ \<Rightarrow> [] | Inr c \<Rightarrow> config_cells c)"

fun numbered :: "nat \<Rightarrow> 'a list \<Rightarrow> (nat \<times> 'a) list" where
  "numbered n [] = []"
| "numbered n (x # xs) = (n, x) # numbered (Suc n) xs"

text \<open>The tests run in order up to one whose search does not return.\<close>

lemma run_tests_rows:
  assumes "\<And>n t. ends_unless False h (search_for pf (os n) flags spec t)"
  shows "\<exists>ran rest f. ts = ran @ rest \<and> run_tests pf os flags spec n ts =
     (map (\<lambda>(n, t). row_key t @ result_cells (search_for pf (os n) flags spec t)) (numbered n ran), f) \<and>
     list_all (\<lambda>(n, t). survives (search_for pf (os n) flags spec t)) (numbered n ran) \<and>
     (f = None \<and> rest = [] \<or> f = Some Hang \<and> rest \<noteq> [] \<and> h)"
proof (induction ts arbitrary: n)
  case (Cons t ts)
  obtain ran rest f where IH: "ts = ran @ rest" "run_tests pf os flags spec (Suc n) ts =
     (map (\<lambda>(n, t). row_key t @ result_cells (search_for pf (os n) flags spec t)) (numbered (Suc n) ran), f)"
     "list_all (\<lambda>(n, t). survives (search_for pf (os n) flags spec t)) (numbered (Suc n) ran)"
     "f = None \<and> rest = [] \<or> f = Some Hang \<and> rest \<noteq> [] \<and> h"
    using Cons.IH [of "Suc n"] by blast
  show ?case
  proof (cases "survives (search_for pf (os n) flags spec t)")
    case True
    then show ?thesis using IH
      by (intro exI [of _ "t # ran"] exI [of _ rest] exI [of _ f])
         (cases "search_for pf (os n) flags spec t", auto simp: result_cells_def survives_def split: fault.splits)
  next
    case False
    then have "search_for pf (os n) flags spec t = Inl Hang \<and> h" using assms [of n t]
      by (cases "search_for pf (os n) flags spec t") (auto simp: ends_unless_def survives_def split: fault.splits)
    then show ?thesis by (intro exI [of _ "[]"] exI [of _ "t # ts"] exI [of _ "Some Hang"]) simp
  qed
qed simp

lemma search_for_ends:
  assumes "admitted spec" "set (snd os) = set modelFamilyMap"
  shows "ends_unless False (\<forall>k. \<not> steps_down k spec) (search_for pf os flags spec t)"
proof -
  obtain opt where o: "NewResourceOptimizer (fst os) (snd os) spec = Ok opt" "gpuConstraints opt = extractGPUConstraints spec"
    using optimizer_builds [OF assms] by blast
  obtain rate input len where t: "t = (rate, input, len)" by (cases t)
  let ?opt = "SetWorkloadParameters opt rate input len 10"
  let ?find = "FindOptimalConfiguration pf ?opt rate (Some (createLatencyTargets flags spec))"
  have g: "gpuConstraints ?opt = extractGPUConstraints spec" using o(2) by (simp add: SetWorkloadParameters_def)
  then have b: "BudgetGPUs (gpuConstraints ?opt) < 2 ^ 63" using budget_in_range by metis
  show ?thesis
  proof (cases ?find)
    case None
    then have "\<forall>k. \<not> steps_down k spec" using search_survives [OF g] by (metis option.distinct(1))
    then show ?thesis using None by (simp add: search_for_def t o(1) ends_unless_def)
  next
    case (Some x)
    obtain r s where x: "x = (r, s)" by (cases x)
    have "survives r" by (cases rule: FindOptimal_cases [OF b Some [unfolded x]]) (simp_all add: survives_def)
    then show ?thesis using Some x by (auto simp: search_for_def t o(1))
  qed
qed

lemma cells_aligned: "length (row_key t) = 3" "survives r \<Longrightarrow> length (result_cells r) = 15"
  by (auto simp: row_key_def result_cells_def config_cells_def error_cells_def survives_def split: prod.split sum.splits fault.splits)

lemma numbered_keys: "map (take 3) (map (\<lambda>(n, t). row_key t @ g n t) (numbered n ts)) = map row_key ts"
  by (induction ts arbitrary: n) (simp_all add: cells_aligned(1))

text \<open>C27: on a specification the schema admits, with a hint, the benchmark writes a record for every combination of
  rate, input and output length, in the order of the loops, keyed by it, aligned with the header and filled with the
  answer of its search, and completes; no combination can bring it down. The one way it does not complete is a search
  that never returns, and that takes capacity quantities whose compute step does not go down, such as the step zero the
  schema admits: then the records before that combination are written.\<close>

theorem benchmark_completes:
  assumes "admitted spec" "Hint (Target spec) = Some h" "\<And>n. set (snd (os n)) = set modelFamilyMap"
    and "parseFloatSlice hx (ArrivalRates flags) = Ok rates" "parseIntSlice (InputTokens flags) = Ok inputs"
    and "parseIntSlice (OutputTokens flags) = Ok outputs"
  shows "\<exists>ran rest ends rows. variations rates inputs outputs = ran @ rest \<and>
    benchmark_main hx pf os flags (Ok spec) True True = (csv_header # rows, ends) \<and>
    rows = map (\<lambda>(n, t). row_key t @ result_cells (search_for pf (os n) flags spec t)) (numbered 1 ran) \<and>
    map (take 3) rows = map row_key ran \<and> list_all (\<lambda>row. length row = length csv_header) rows \<and>
    (ends = Complete \<and> rest = [] \<or> ends = Died Hang \<and> rest \<noteq> [] \<and> (\<forall>k. \<not> steps_down k spec))"
proof -
  let ?ts = "variations rates inputs outputs"
  let ?row = "\<lambda>(n, t). row_key t @ result_cells (search_for pf (os n) flags spec t)"
  have s: "ends_unless False (\<forall>k. \<not> steps_down k spec) (search_for pf (os n) flags spec t)" for n t
    by (rule search_for_ends [OF assms(1,3)])
  obtain ran rest f where r: "?ts = ran @ rest" "run_tests pf os flags spec 1 ?ts = (map ?row (numbered 1 ran), f)"
    "list_all (\<lambda>(n, t). survives (search_for pf (os n) flags spec t)) (numbered 1 ran)"
    "f = None \<and> rest = [] \<or> f = Some Hang \<and> rest \<noteq> [] \<and> (\<forall>k. \<not> steps_down k spec)"
    using run_tests_rows [where os = os and ts = ?ts and n = 1, OF s] by (elim exE conjE) (rule that)
  let ?ends = "case f of None \<Rightarrow> Complete | Some f \<Rightarrow> Died f"
  have m: "benchmark_main hx pf os flags (Ok spec) True True = (csv_header # map ?row (numbered 1 ran), ?ends)"
    using assms(2,4-6) r(2) by (simp add: benchmark_main_def deref_def)
  have k: "map (take 3) (map ?row (numbered 1 ran)) = map row_key ran"
    by (rule numbered_keys)
  have a: "list_all (\<lambda>row. length row = length csv_header) (map ?row (numbered 1 ran))"
    using r(3) cells_aligned by (auto simp: list_all_iff csv_header_def)
  show ?thesis
    by (intro exI [of _ ran] exI [of _ rest] exI [of _ ?ends] exI [of _ "map ?row (numbered 1 ran)"] conjI r(1) m k a refl)
       (use r(4) in auto)
qed

definition bench_spec :: rca_spec where
  "bench_spec = (Spec live_autoscaler)\<lparr>Target := (Target (Spec live_autoscaler))\<lparr>Hint := Some getDefaultHint\<rparr>\<rparr>"

definition bench_flags_sample :: bench_flags where
  "bench_flags_sample = \<lparr>E2ETargetMs = -1, TTFTTargetMs = -1, ITLTargetMs = -1,
     ArrivalRates = joined (map (\<lambda>q. fmt_fixed 2 (Fin q)) [1 / 4]), InputTokens = joined (map FormatInt [10, 20]),
     OutputTokens = joined (map FormatInt [50])\<rparr>"

lemma benchmark_completes_witness:
  "\<exists>rows. benchmark_main (\<lambda>_. None) (\<lambda>_ _. NaN) (\<lambda>_. (gpuRegistry, modelFamilyMap)) bench_flags_sample (Ok bench_spec) True True =
       (csv_header # rows, Complete) \<and>
     map (take 3) rows = map row_key (variations [lit (decimals 2 (1 / 4))] [10, 20] [50])"
proof -
  have spec: "admitted bench_spec" "steps_down 0 bench_spec" "Hint (Target bench_spec) = Some getDefaultHint"
    by (simp_all add: bench_spec_def live_autoscaler_def sample_autoscaler_def admitted_def admitted_hint_def getDefaultHint_def
        int32_from_def optional_from_def float_from_def steps_down_def extractGPUConstraints_def default_gpu_constraints_def
        f64_eval wf64_def)
  have "list_all (\<lambda>q. wf64 (Fin q)) [1 / 4]" using wf64_grid [of 2 1] by simp
  then have f: "parseFloatSlice (\<lambda>_. None) (ArrivalRates bench_flags_sample) = Ok [lit (decimals 2 (1 / 4))]"
    using floats_read_back [of "[1 / 4]" 2] by (simp add: bench_flags_sample_def)
  have i: "parseIntSlice (InputTokens bench_flags_sample) = Ok [10, 20]" "parseIntSlice (OutputTokens bench_flags_sample) = Ok [50]"
    unfolding bench_flags_sample_def bench_flags.select_convs by (rule ints_read_back, simp)+
  show ?thesis using benchmark_completes [OF spec(1,3) _ f i, of "\<lambda>_. (gpuRegistry, modelFamilyMap)"] spec(2) by fastforce
qed

text \<open>The hint is optional in the schema; without it the benchmark dereferences nil before it does anything.\<close>

lemma benchmark_needs_hint: "Hint (Target spec) = None \<Longrightarrow> \<exists>m. benchmark_main hx pf os flags (Ok spec) created header = ([], Died (Panic m))"
  by (simp add: benchmark_main_def deref_def)

text \<open>One decimal does not tell the rates apart: 0.25, the first of the defaults, is shown as 0.2.\<close>

lemma rates_collide: "fmt_fixed 1 (Fin (1 / 4)) = ''0.2''" "fmt_fixed 1 (lit (2 / 10)) = ''0.2''"
proof -
  have "\<lfloor>5 / 2 :: rat\<rfloor> = 2" by (rule floor_unique) simp_all
  then have s: "shown 1 (1 / 4) = 2" by (simp add: shown_def rne_def)
  have l: "lit (2 / 10) = Fin (3602879701896397 / 18014398509481984)" by (simp add: f64_eval)
  have "\<lfloor>18014398509481985 / 9007199254740992 :: rat\<rfloor> = 2" by (rule floor_unique) simp_all
  then have m: "shown 1 (3602879701896397 / 18014398509481984) = 2" by (simp add: shown_def rne_def)
  have d: "dec_nat 0 = ''0''" "dec_nat 2 = ''2''" by code_simp+
  show "fmt_fixed 1 (Fin (1 / 4)) = ''0.2''" using s d by (simp add: pad_to_def)
  show "fmt_fixed 1 (lit (2 / 10)) = ''0.2''" unfolding l using m d by (simp add: pad_to_def)
qed

end
