(* ===== verification/Startup.thy ===== *)
theory Startup
  imports Prelude "HOL-Library.Multiset"
begin

text \<open>
  \<open>cmd/controller/main.go\<close>: the start of the controller. What it calls is controller-runtime's; each call is a step that
  succeeds or fails. The options it builds for the two servers, and the order of the steps, are its own.
\<close>

section \<open>Flags and options\<close>

record startup_flags =
  MetricsAddr :: string
  MetricsCertPath :: string
  MetricsCertName :: string
  MetricsCertKey :: string
  WebhookCertPath :: string
  WebhookCertName :: string
  WebhookCertKey :: string
  LeaderElect :: bool
  ProbeAddr :: string
  SecureMetrics :: bool
  EnableHTTP2 :: bool

definition default_flags :: startup_flags where
  "default_flags = \<lparr>MetricsAddr = ''0'', MetricsCertPath = [], MetricsCertName = ''tls.crt'', MetricsCertKey = ''tls.key'',
     WebhookCertPath = [], WebhookCertName = ''tls.crt'', WebhookCertKey = ''tls.key'', LeaderElect = False,
     ProbeAddr = '':8081'', SecureMetrics = True, EnableHTTP2 = False\<rparr>"

text \<open>A certificate and its key in a directory; the functions of type \<open>func(*tls.Config)\<close> the program makes.\<close>

record cert_files =
  CertDir :: string
  CertName :: string
  CertKey :: string

datatype tls_option = DisableHTTP2 | CertificateOf cert_files

record tls_config =
  NextProtos :: "string list"
  GetCertificate :: "cert_files option"

fun apply_option :: "tls_option \<Rightarrow> tls_config \<Rightarrow> tls_config" where
  "apply_option DisableHTTP2 c = c\<lparr>NextProtos := [''http/1.1'']\<rparr>"
| "apply_option (CertificateOf f) c = c\<lparr>GetCertificate := Some f\<rparr>"

record metrics_options =
  BindAddress :: string
  SecureServing :: bool
  MetricsTLSOpts :: "tls_option list"
  FilterProvider :: bool

record manager_options =
  MetricsServer :: metrics_options
  WebhookTLSOpts :: "tls_option list"
  HealthProbeBindAddress :: string
  LeaderElection :: bool
  LeaderElectionID :: string

definition base_options :: "startup_flags \<Rightarrow> tls_option list" where
  "base_options f = (if \<not> EnableHTTP2 f then [DisableHTTP2] else [])"

definition webhook_files :: "startup_flags \<Rightarrow> cert_files" where
  "webhook_files f = \<lparr>CertDir = WebhookCertPath f, CertName = WebhookCertName f, CertKey = WebhookCertKey f\<rparr>"

definition metrics_files :: "startup_flags \<Rightarrow> cert_files" where
  "metrics_files f = \<lparr>CertDir = MetricsCertPath f, CertName = MetricsCertName f, CertKey = MetricsCertKey f\<rparr>"

text \<open>Both option lists start from the same slice, which is full, so that an append to one does not reach the other.\<close>

definition webhook_options :: "startup_flags \<Rightarrow> tls_option list" where
  "webhook_options f = base_options f @ (if 0 < length (WebhookCertPath f) then [CertificateOf (webhook_files f)] else [])"

definition metrics_server_options :: "startup_flags \<Rightarrow> metrics_options" where
  "metrics_server_options f =
     \<lparr>BindAddress = MetricsAddr f, SecureServing = SecureMetrics f,
      MetricsTLSOpts = base_options f @ (if 0 < length (MetricsCertPath f) then [CertificateOf (metrics_files f)] else []),
      FilterProvider = SecureMetrics f\<rparr>"

definition manager_config :: "startup_flags \<Rightarrow> manager_options" where
  "manager_config f =
     \<lparr>MetricsServer = metrics_server_options f, WebhookTLSOpts = webhook_options f, HealthProbeBindAddress = ProbeAddr f,
      LeaderElection = LeaderElect f, LeaderElectionID = ''d21576a5.x-llmd.ai''\<rparr>"

section \<open>Steps\<close>

datatype startup_step =
    WatchWebhookCerts cert_files
  | WatchMetricsCerts cert_files
  | CreateManager manager_options
  | SetupAutoscalers
  | SetupConfigs
  | AddMetricsWatcher
  | AddWebhookWatcher
  | AddHealthzCheck
  | AddReadyzCheck
  | StartManager

definition startup_steps :: "startup_flags \<Rightarrow> startup_step list" where
  "startup_steps f =
     (if 0 < length (WebhookCertPath f) then [WatchWebhookCerts (webhook_files f)] else []) @
     (if 0 < length (MetricsCertPath f) then [WatchMetricsCerts (metrics_files f)] else []) @
     [CreateManager (manager_config f), SetupAutoscalers, SetupConfigs] @
     (if 0 < length (MetricsCertPath f) then [AddMetricsWatcher] else []) @
     (if 0 < length (WebhookCertPath f) then [AddWebhookWatcher] else []) @
     [AddHealthzCheck, AddReadyzCheck, StartManager]"

text \<open>Every failure is logged and ends the program with status one; \<open>StartManager\<close> returns when the manager has stopped.\<close>

fun run_steps :: "(startup_step \<Rightarrow> bool) \<Rightarrow> startup_step list \<Rightarrow> startup_step list \<times> int" where
  "run_steps ok [] = ([], 0)"
| "run_steps ok (s # ss) = (if ok s then (case run_steps ok ss of (done, code) \<Rightarrow> (s # done, code)) else ([s], 1))"

definition controller_main :: "(startup_step \<Rightarrow> bool) \<Rightarrow> startup_flags \<Rightarrow> startup_step list \<times> int" where
  "controller_main ok f = run_steps ok (startup_steps f)"

section \<open>Facts\<close>

lemma run_steps_prefix: "fst (run_steps ok ss) = takeWhile ok ss @ take 1 (dropWhile ok ss)"
  by (induction ss) (auto split: prod.split)

lemma run_steps_code: "snd (run_steps ok ss) = (if list_all ok ss then 0 else 1)"
  by (induction ss) (auto split: prod.split)

text \<open>Options on different fields commute, so the order the servers apply them in does not matter.\<close>

definition http1_only :: "tls_option list \<Rightarrow> bool" where
  "http1_only os \<longleftrightarrow> (\<forall>os' c. mset os' = mset os \<longrightarrow> NextProtos (fold apply_option os' c) = [''http/1.1''])"

lemma protos_fold: "NextProtos (fold apply_option os c) = (if DisableHTTP2 \<in> set os then [''http/1.1''] else NextProtos c)"
proof (induction os arbitrary: c)
  case (Cons x os) then show ?case by (cases x) auto
qed simp

lemma http1_iff: "http1_only os \<longleftrightarrow> DisableHTTP2 \<in> set os"
proof
  assume "http1_only os"
  then have "NextProtos (fold apply_option os \<lparr>NextProtos = [], GetCertificate = None\<rparr>) = [''http/1.1'']"
    unfolding http1_only_def by blast
  then show "DisableHTTP2 \<in> set os" by (simp add: protos_fold split: if_splits)
next
  assume "DisableHTTP2 \<in> set os"
  then show "http1_only os" unfolding http1_only_def protos_fold by (metis set_mset_mset)
qed

text \<open>Both servers speak HTTP/1.1 only, exactly when HTTP/2 was not asked for.\<close>

lemma http2_needs_flag:
  "http1_only (webhook_options f) \<longleftrightarrow> \<not> EnableHTTP2 f" "http1_only (MetricsTLSOpts (metrics_server_options f)) \<longleftrightarrow> \<not> EnableHTTP2 f"
  by (auto simp: http1_iff webhook_options_def metrics_server_options_def base_options_def)

text \<open>The manager starts only after everything before it succeeded, both controllers among it; the program ends with status
  zero exactly when the manager was started and stopped without an error.\<close>

lemma startup_order:
  "(StartManager \<in> set (fst (controller_main ok f)) \<longleftrightarrow> list_all ok (butlast (startup_steps f))) \<and>
   (snd (controller_main ok f) = 0 \<longleftrightarrow> list_all ok (startup_steps f)) \<and>
   {SetupAutoscalers, SetupConfigs, CreateManager (manager_config f)} \<subseteq> set (butlast (startup_steps f))"
proof -
  obtain pre where steps: "startup_steps f = pre @ [StartManager]" "StartManager \<notin> set pre"
    "{SetupAutoscalers, SetupConfigs, CreateManager (manager_config f)} \<subseteq> set pre"
    by (rule that [of "butlast (startup_steps f)"]) (auto simp: startup_steps_def butlast_append)
  have "StartManager \<in> set (takeWhile ok ss @ take 1 (dropWhile ok ss)) \<longleftrightarrow> list_all ok pre"
    if "ss = pre @ [StartManager]" for ss
    unfolding that using steps(2) by (induction pre) auto
  then show ?thesis using steps by (auto simp: controller_main_def run_steps_prefix run_steps_code)
qed

end
