(* ===== verification/Config_Controller.thy ===== *)
theory Config_Controller
  imports Monitor Autoscaler_Controller
begin

text \<open>
  \<open>internal/controller/rcacontrollerconfig_controller.go\<close>: the reconciler of the controller's configuration. It
  owns the monitor, shares it with the reconciler of autoscalers, and sets the log level.
\<close>

section \<open>Objects\<close>

record monitoring_status =
  Connected :: bool
  MetricHealths :: "metric_health list"
  StatusMessage :: string

record timed_condition = condition +
  LastTransitionTime :: int

record config =
  CfgMonitoring :: monitoring
  CfgLogging :: "string option"
  CfgGeneration :: int
  CfgStatus :: "monitoring_status option"
  CfgConditions :: "timed_condition list"

datatype zap_level = DebugLevel | InfoLevel | WarnLevel | ErrorLevel

definition LogLevelDebug :: string where "LogLevelDebug = ''DEBUG''"
definition LogLevelInfo :: string where "LogLevelInfo = ''INFO''"
definition LogLevelWarn :: string where "LogLevelWarn = ''WARN''"
definition LogLevelError :: string where "LogLevelError = ''ERROR''"

text \<open>The reconciler's fields, the level of the global logger, and the reconciler of autoscalers if present.\<close>

record config_controller =
  CcMonitor :: "monitor option"
  CcLogLevel :: string
  CcEndpoint :: string
  CcLogger :: zap_level
  CcAutoscalers :: "controller option"

text \<open>The cluster's answers about configurations, and Prometheus.\<close>

record 'w config_env =
  get_config :: "string \<Rightarrow> ('w, config) api"
  update_config :: "config \<Rightarrow> ('w, unit) api"
  prometheus :: "'w prom_env"

section \<open>Conditions\<close>

fun set_first :: "timed_condition \<Rightarrow> timed_condition list \<Rightarrow> timed_condition list" where
  "set_first c [] = [c]"
| "set_first c (d # ds) = (if CondType d = CondType c then c # ds else d # set_first c ds)"

fun join :: "string \<Rightarrow> string list \<Rightarrow> string" where
  "join s [] = []"
| "join s [x] = x"
| "join s (x # y # xs) = x @ s @ join s (y # xs)"

definition updateConditions :: "int \<Rightarrow> metric_health list \<Rightarrow> config \<Rightarrow> config" where
  "updateConditions now hs cfg =
     (let unhealthy = map HealthName (filter (\<lambda>h. \<not> Healthy h) hs);
          c = (if unhealthy = []
            then \<lparr>CondType = ''MetricsAvailable'', CondStatus = True, CondReason = ''AllMetricsAvailable'',
                   CondMessage = ''All required metrics are available'', CondGeneration = CfgGeneration cfg, LastTransitionTime = now\<rparr>
            else \<lparr>CondType = ''MetricsAvailable'', CondStatus = False, CondReason = ''MetricsMissing'',
                   CondMessage = ''Missing metrics: '' @ join '', '' unhealthy, CondGeneration = CfgGeneration cfg, LastTransitionTime = now\<rparr>)
      in cfg\<lparr>CfgConditions := set_first c (CfgConditions cfg)\<rparr>)"

section \<open>Setting up the monitor\<close>

text \<open>The status after validation. On failure the conditions are left alone.\<close>

definition setup_status :: "metric_health list res \<Rightarrow> int \<Rightarrow> config \<Rightarrow> config" where
  "setup_status v now cfg =
     (let st = get_or (CfgStatus cfg) \<lparr>Connected = False, MetricHealths = [], StatusMessage = []\<rparr>
      in case v of
           Inl _ \<Rightarrow> cfg\<lparr>CfgStatus := Some (st\<lparr>Connected := False, MetricHealths := [], StatusMessage := ''Failed to validate: ''\<rparr>)\<rparr>
         | Inr hs \<Rightarrow> updateConditions now hs
             (cfg\<lparr>CfgStatus := Some (st\<lparr>Connected := True, MetricHealths := hs, StatusMessage := ''Connected successfully''\<rparr>)\<rparr>))"

definition share_monitor :: "config_controller \<Rightarrow> config_controller" where
  "share_monitor c = c\<lparr>CcAutoscalers := map_option (\<lambda>a. SetMonitor a (CcMonitor c \<noteq> None)) (CcAutoscalers c)\<rparr>"

definition setupMonitoring :: "'w config_env \<Rightarrow> config_controller \<Rightarrow> config \<Rightarrow> 'w \<Rightarrow> (unit res \<times> config_controller) \<times> 'w" where
  "setupMonitoring e c cfg w =
     (let p = prometheus e; mon = NewMonitor p (CfgMonitoring cfg);
          c = share_monitor (c\<lparr>CcMonitor := Some mon\<rparr>)
      in case ValidateMetrics p mon w of (v, w) \<Rightarrow>
        (case (case v of Inl _ \<Rightarrow> (0, w) | Inr _ \<Rightarrow> prom_now p w) of (now, w) \<Rightarrow>
          (case update_config e (setup_status v now cfg) w of
             (Inl _, w) \<Rightarrow> ((Fail ''failed to update status'', c), w)
           | (Inr _, w) \<Rightarrow> ((Ok (), c), w))))"

section \<open>Logging\<close>

definition zap_level_of :: "string \<Rightarrow> zap_level" where
  "zap_level_of l =
     (if l = LogLevelDebug then DebugLevel else if l = LogLevelInfo then InfoLevel
      else if l = LogLevelWarn then WarnLevel else if l = LogLevelError then ErrorLevel else InfoLevel)"

definition setupLogging :: "config_controller \<Rightarrow> config \<Rightarrow> config_controller" where
  "setupLogging c cfg =
     (let l = (case CfgLogging cfg of None \<Rightarrow> LogLevelInfo | Some l \<Rightarrow> if l \<noteq> [] then l else LogLevelInfo)
      in if CcLogLevel c \<noteq> l then c\<lparr>CcLogger := zap_level_of l, CcLogLevel := l\<rparr> else c)"

section \<open>Reconcile\<close>

definition config_delay :: int where "config_delay = 5 * 60 * 10 ^ 9"

definition Reconcile_config :: "'w config_env \<Rightarrow> string \<Rightarrow> config_controller \<Rightarrow> 'w \<Rightarrow> (reconcile_result res \<times> config_controller) \<times> 'w" where
  "Reconcile_config e name c w =
     (case get_config e name w of
        (Inl err, w) \<Rightarrow> ((if err = NotFound then Ok Done else Fail ''failed to get RCAControllerConfig'', c), w)
      | (Inr cfg, w) \<Rightarrow>
          if CcMonitor c = None \<or> CcEndpoint c \<noteq> Endpoint (CfgMonitoring cfg)
          then (case setupMonitoring e c cfg w of
                  ((Inl f, c), w) \<Rightarrow> ((Inl f, c), w)
                | ((Inr _, c), w) \<Rightarrow> ((Ok (RequeueAfter config_delay),
                    setupLogging (c\<lparr>CcEndpoint := Endpoint (CfgMonitoring cfg)\<rparr>) cfg), w))
          else ((Ok (RequeueAfter config_delay), setupLogging c cfg), w))"

end
