(* ===== verification/Monitor_Properties.thy ===== *)
theory Monitor_Properties
  imports Collector Autoscaler_Properties
begin

text \<open>
  From Prometheus to a decision: the text of the queries, the values that survive the trip through text to
  the scaler, the ranges of the violations, and what the controller does when Prometheus does not answer.
\<close>

section \<open>Reading back what was formatted\<close>

abbreviation six_decimals :: "rat \<Rightarrow> rat" where
  "six_decimals \<equiv> decimals 6"

lemma formatted_valid: "isValidMetric (format_f v)"
proof (cases v)
  case (Fin q)
  obtain c a where c: "dec_nat (shown 6 q div 1000000) = c # a" "is_digit c"
    using dec_digits [of "shown 6 q div 1000000"] by (cases "dec_nat (shown 6 q div 1000000)") auto
  have "c \<noteq> CHR ''e''" using number_char(3) [of c] c by blast
  then show ?thesis by (simp add: Fin isValidMetric_def c(1))
qed (simp_all add: isValidMetric_def)

lemma lower_Inf: "lower_char CHR ''I'' = CHR ''i''" "lower_char CHR ''n'' = CHR ''n''" "lower_char CHR ''f'' = CHR ''f''"
  by code_simp+

lemma parse_infinite: "parseFloat hx ''+Inf'' = Some PInf" "parseFloat hx ''-Inf'' = Some NInf"
  by (simp_all add: parseFloat_def trim_space_def is_space_def strconv_ParseFloat_def split_sign_def to_lower_def lower_Inf apply_sign_def)

lemma foldl_larger:
  assumes "m \<noteq> NaN" "\<forall>x \<in> set xs. x \<noteq> NaN"
  shows "foldl larger m xs \<in> insert m (set xs) \<and> (\<forall>x \<in> insert m (set xs). fle x (foldl larger m xs))"
  using assms
proof (induction xs arbitrary: m)
  case Nil then show ?case by (simp add: fle_refl)
next
  case (Cons x xs)
  have l: "larger m x \<in> {m, x}" "fle m (larger m x)" "fle x (larger m x)"
    using Cons.prems not_flt [of m x] flt_fle [of m x] fle_refl by (auto simp: larger_def)
  have "larger m x \<noteq> NaN" using l(1) Cons.prems by auto
  then have r: "foldl larger (larger m x) xs \<in> insert (larger m x) (set xs) \<and>
    (\<forall>y \<in> insert (larger m x) (set xs). fle y (foldl larger (larger m x) xs))"
    by (rule Cons.IH) (use Cons.prems(2) in simp)
  then have "fle (larger m x) (foldl larger (larger m x) xs)" by blast
  then have "fle m (foldl larger (larger m x) xs)" "fle x (foldl larger (larger m x) xs)"
    using fle_trans [OF l(2)] fle_trans [OF l(3)] by blast+
  then show ?case using r l(1) by auto
qed

text \<open>C33: of a vector of samples that are numbers, the scaler reads back the largest: exactly when it is infinite,
  and otherwise to six decimals, an error of at most half a millionth.\<close>

theorem collected_value_reads_back:
  assumes "xs \<noteq> []" "\<forall>x \<in> set xs. x \<noteq> NaN \<and> wf64 x"
  shows "\<exists>v \<in> set xs. (\<forall>x \<in> set xs. fle x v) \<and>
    metric_value hx (m(k \<mapsto> extractValueFromResult str (Vector xs))) k =
      Some (case v of Fin q \<Rightarrow> lit (six_decimals q) | _ \<Rightarrow> v) \<and>
    (case v of Fin q \<Rightarrow> \<bar>six_decimals q - q\<bar> \<le> 1 / (2 * 10 ^ 6) | _ \<Rightarrow> True)"
proof -
  obtain y ys where xs: "xs = y # ys" using assms(1) by (cases xs) auto
  define v where "v = foldl larger y ys"
  have v: "v \<in> set xs" "\<forall>x \<in> set xs. fle x v" using foldl_larger [of y ys] assms(2) by (simp_all add: xs v_def)
  have "extractValueFromResult str (Vector xs) = format_f v"
    by (simp add: extractValueFromResult_def xs v_def larger_def)
  moreover have "parseFloat hx (format_f v) = Some (case v of Fin q \<Rightarrow> lit (six_decimals q) | _ \<Rightarrow> v)"
  proof -
    have w: "v \<noteq> NaN" "wf64 v" using v(1) assms(2) by blast+
    show ?thesis
    proof (cases v)
      case (Fin q)
      have "wf64 (Fin q)" using w(2) unfolding Fin .
      from parse_fixed [OF this, of 6] show ?thesis unfolding Fin f64.case by simp
    qed (use w parse_infinite in simp_all)
  qed
  ultimately have "metric_value hx (m(k \<mapsto> extractValueFromResult str (Vector xs))) k = Some (case v of Fin q \<Rightarrow> lit (six_decimals q) | _ \<Rightarrow> v)"
    using formatted_valid by (simp add: metric_value_def)
  moreover have "case v of Fin q \<Rightarrow> \<bar>six_decimals q - q\<bar> \<le> 1 / (2 * 10 ^ 6) | _ \<Rightarrow> True"
    using decimals_near [of 6] by (simp split: f64.split)
  ultimately show ?thesis using v by blast
qed

lemma collected_value_reads_back_witness:
  "\<exists>v \<in> {Fin (1 / 4), PInf}. (\<forall>x \<in> {Fin (1 / 4), PInf}. fle x v) \<and>
    metric_value (\<lambda>_. None) [''RPSQuery'' \<mapsto> extractValueFromResult (\<lambda>_. []) (Vector [Fin (1 / 4), PInf])] ''RPSQuery'' =
      Some (case v of Fin q \<Rightarrow> lit (six_decimals q) | _ \<Rightarrow> v)"
proof -
  have "rq (1 / 4) = 1 / 4" by (simp add: f64_eval rq_one_frac)
  then have "wf64 (Fin (1 / 4))" by (simp add: wf64_def rep_def)
  then show ?thesis using collected_value_reads_back [of "[Fin (1 / 4), PInf]" "\<lambda>_. None" Map.empty "''RPSQuery''" "\<lambda>_. []"] by simp
qed

text \<open>A rate below half a millionth is read as no traffic; a vector whose first sample is NaN is read as NaN,
  whatever the others are.\<close>

lemma tiny_value_is_zero: "0 \<le> q \<Longrightarrow> q < 1 / (2 * 10 ^ 6) \<Longrightarrow> six_decimals q = 0"
proof -
  assume "0 \<le> q" "q < 1 / (2 * 10 ^ 6)"
  then have "\<lfloor>\<bar>q\<bar> * 10 ^ 6\<rfloor> = 0" "\<bar>q\<bar> * 10 ^ 6 < 1 / 2" by (simp_all add: floor_eq_iff)
  then show ?thesis by (simp add: decimals_def shown_def rne_def)
qed

lemma larger_NaN: "foldl larger NaN xs = NaN"
  by (induction xs) (simp_all add: larger_def)

lemma first_NaN_wins: "extractValueFromResult str (Vector (NaN # xs)) = ''NaN''"
proof -
  have "foldl larger NaN (NaN # xs) = NaN" by (rule larger_NaN)
  then show ?thesis by (simp add: extractValueFromResult_def)
qed

section \<open>The text of the queries\<close>

lemma expand_prefix: "CHR ''%'' \<notin> set x \<Longrightarrow> expand arg (x @ y) = x @ expand arg y"
proof (induction x)
  case (Cons c x)
  then show ?case by (cases "x @ y") auto
qed simp

lemma simple_prefix: "CHR ''%'' \<notin> set x \<Longrightarrow> simple_verbs (x @ y) = simple_verbs y"
proof (induction x)
  case (Cons c x)
  then show ?case by (cases "x @ y") auto
qed simp

lemma sprintf_plain: "CHR ''%'' \<notin> set x \<Longrightarrow> sprintf_s other x a = x @ ''%!(EXTRA string='' @ a @ '')''"
  using expand_prefix [of x "Some a" "[]"] simple_prefix [of x "[]"] by (simp add: sprintf_s_def)

lemma sprintf_splice:
  assumes "CHR ''%'' \<notin> set x" "CHR ''%'' \<notin> set y"
  shows "sprintf_s other (x @ ''%s'' @ y) a = x @ a @ y"
  using expand_prefix [OF assms(1), of "Some a" "''%s'' @ y"] simple_prefix [OF assms(1), of "''%s'' @ y"]
    expand_prefix [OF assms(2), of None "[]"] simple_prefix [OF assms(2), of "[]"] by (simp add: sprintf_s_def)

lemma dec_no_percent: "CHR ''%'' \<notin> set (FormatInt n)"
proof -
  have "\<not> is_digit CHR ''%''" by (simp add: is_digit_def)
  then show ?thesis using dec_digits by (auto simp: FormatInt_def)
qed

text \<open>C34: a query of the configuration that is free of percent signs, as a metric name is, is sent with the service
  filter spliced in behind it, inside the rate or the quantile of the rate. A query that brings its own
  \<open>rate(\<close> or \<open>histogram_quantile(\<close> has no place for the filter, and Go's report of the unused argument is sent
  as part of the query.\<close>

theorem query_text:
  assumes "CHR ''%'' \<notin> set q" "CHR ''%'' \<notin> set g"
  shows "sprintf_s other (rate_query n q) f =
      (if contains q ''rate('' then q @ ''%!(EXTRA string='' @ f @ '')'' else ''rate('' @ q @ f @ ''['' @ FormatInt n @ ''s])'') \<and>
    sprintf_s other (rps_query n q) f =
      (if contains q ''rate('' then q @ ''%!(EXTRA string='' @ f @ '')''
       else ''rate('' @ q @ ''{finish_reason=\"length\"'' @ f @ ''}['' @ FormatInt n @ ''s])'') \<and>
    sprintf_s other (quantile_query g n q) f =
      (if contains q ''histogram_quantile('' then q @ ''%!(EXTRA string='' @ f @ '')''
       else ''histogram_quantile('' @ g @ '', rate('' @ (if has_suffix q ''_bucket'' then q else q @ ''_bucket'') @ f @ ''['' @ FormatInt n @ ''s]))'')"
proof (intro conjI)
  note splice = sprintf_splice [where other = other and a = f]
  show "sprintf_s other (rate_query n q) f =
      (if contains q ''rate('' then q @ ''%!(EXTRA string='' @ f @ '')'' else ''rate('' @ q @ f @ ''['' @ FormatInt n @ ''s])'')"
    using splice [of "''rate('' @ q" "''['' @ FormatInt n @ ''s])''"] sprintf_plain assms dec_no_percent by (simp add: rate_query_def)
  show "sprintf_s other (rps_query n q) f =
      (if contains q ''rate('' then q @ ''%!(EXTRA string='' @ f @ '')''
       else ''rate('' @ q @ ''{finish_reason=\"length\"'' @ f @ ''}['' @ FormatInt n @ ''s])'')"
    using splice [of "''rate('' @ q @ ''{finish_reason=\"length\"''" "''}['' @ FormatInt n @ ''s])''"] sprintf_plain assms dec_no_percent
    by (simp add: rps_query_def)
  let ?b = "if has_suffix q ''_bucket'' then q else q @ ''_bucket''"
  have "CHR ''%'' \<notin> set ?b" using assms by simp
  then show "sprintf_s other (quantile_query g n q) f =
      (if contains q ''histogram_quantile('' then q @ ''%!(EXTRA string='' @ f @ '')''
       else ''histogram_quantile('' @ g @ '', rate('' @ ?b @ f @ ''['' @ FormatInt n @ ''s]))'')"
    using splice [of "''histogram_quantile('' @ g @ '', rate('' @ ?b" "''['' @ FormatInt n @ ''s]))''"] sprintf_plain assms dec_no_percent
    by (simp add: quantile_query_def Let_def)
qed

lemma query_text_witness:
  "sprintf_s (\<lambda>t a. []) (rate_query 60 ''vllm:prompt_tokens_total'') ''{service=\"vllm\"}'' =
     ''rate(vllm:prompt_tokens_total{service=\"vllm\"}['' @ FormatInt 60 @ ''s])'' \<and>
   sprintf_s (\<lambda>t a. []) (rps_query 60 ''rate(x[5m])'') '',service=\"vllm\"'' = ''rate(x[5m])%!(EXTRA string=,service=\"vllm\")''"
  using query_text [of "''vllm:prompt_tokens_total''" "[]" "\<lambda>t a. []" 60 "''{service=\"vllm\"}''"]
    query_text [of "''rate(x[5m])''" "[]" "\<lambda>t a. []" 60 "'',service=\"vllm\"''"] by simp

section \<open>When Prometheus does not answer\<close>

definition device_key :: "string \<Rightarrow> bool" where
  "device_key k \<longleftrightarrow> has_prefix k ''DeviceResource_''"

lemma add_device_keys: "k \<in> fst ` set (add_device d qs) \<Longrightarrow> device_key k \<or> k \<in> fst ` set qs"
  by (cases d) (auto simp: add_device_def Let_def device_key_def usage_key_def allocation_key_def has_prefix_iff
      dom_update [unfolded dom_map_of_conv_image_fst] split: if_splits)

lemma add_devices_keys: "k \<in> fst ` set (fold add_device ds qs) \<Longrightarrow> device_key k \<or> k \<in> fst ` set qs"
proof (induction ds arbitrary: qs)
  case (Cons d ds) then show ?case using add_device_keys [of k d qs] Cons.IH [of "add_device d qs"] by auto
qed simp

lemma update_keys: "k \<in> fst ` set (AList.update a b xs) \<longleftrightarrow> k = a \<or> k \<in> fst ` set xs"
  by (simp add: dom_update [unfolded dom_map_of_conv_image_fst])

lemma no_request_rate: "''RequestRate'' \<notin> fst ` set (getQueriesWithDefaults g cfg)"
  unfolding getQueriesWithDefaults_def Let_def
  by (auto simp: update_keys device_key_def dest!: add_devices_keys [of "''RequestRate''", OF image_eqI [where f = fst, rotated]])

text \<open>No value was read: none, or the text of an error.\<close>

definition unanswered :: "string option \<Rightarrow> bool" where
  "unanswered v = (case v of None \<Rightarrow> True | Some s \<Rightarrow> has_prefix s ''error:'')"

lemma collect_keys: "k \<notin> fst ` set qs \<Longrightarrow> fst (collect p service lookback now qs m w) k = m k"
proof (induction qs arbitrary: m w)
  case (Cons x qs)
  obtain name tmpl where x: "x = (name, tmpl)" by fastforce
  have k: "(m(name \<mapsto> v)) k = m k" for v using Cons.prems x by auto
  have "k \<notin> fst ` set qs" using Cons.prems by auto
  from Cons.IH [OF this] k show ?case unfolding x collect.simps by (simp split: prod.split sum.split del: fun_upd_apply)
qed simp

lemma collect_unanswered:
  assumes "\<And>q n t w. \<exists>err w'. run_query p q n lookback t w = (Inl err, w')"
  shows "unanswered (m k) \<Longrightarrow> unanswered (fst (collect p service lookback now qs m w) k)"
proof (induction qs arbitrary: m w)
  case (Cons x qs)
  obtain name tmpl where x: "x = (name, tmpl)" by fastforce
  obtain err w' where r: "run_query p (sprintf_s (fmt_other p) tmpl (service_filter name service)) name lookback now w = (Inl err, w')"
    using assms by blast
  have "unanswered ((m(name \<mapsto> ''error: '' @ err)) k)" using Cons.prems by (simp add: unanswered_def)
  then show ?case unfolding x collect.simps r prod.case sum.case by (rule Cons.IH)
qed simp

lemma unanswered_rate:
  assumes "m ''RequestRate'' = None" "unanswered (m ''RPSQuery'')"
  shows "getArrivalRate hx m = Fin 0"
  using assms by (auto simp: getArrivalRate_def metric_value_def unanswered_def isValidMetric_def split: option.splits)

text \<open>What reaches the controller when there is no monitor, no client, or every query fails.\<close>

definition silent :: "'w prom_env \<Rightarrow> bool" where
  "silent p \<longleftrightarrow> (\<forall>q t w. \<exists>err w'. prom_query p q t w = (Inl err, w')) \<and> (\<forall>q a b d w. \<exists>err w'. prom_range p q a b d w = (Inl err, w'))"

lemma silent_metrics:
  assumes "silent p" "case mon of None \<Rightarrow> True | Some mn \<Rightarrow> mn = NewMonitor p cfg"
  shows "getArrivalRate hx (collected (fst (CollectAndCompute p mon spec since w))) = Fin 0"
proof -
  have f: "\<exists>err w'. run_query p q n l t w = (Inl err, w')" for q n l t w using assms(1) by (auto simp: silent_def run_query_def Let_def)
  have none: "getArrivalRate hx Map.empty = Fin 0" by (rule unanswered_rate) (simp_all add: unanswered_def)
  have some: "getArrivalRate hx (fst (collect p service l now (getQueriesWithDefaults (fmt_g p) cfg) Map.empty w)) = Fin 0" for service l now w
  proof (rule unanswered_rate)
    show "fst (collect p service l now (getQueriesWithDefaults (fmt_g p) cfg) Map.empty w) ''RequestRate'' = None"
      using collect_keys [OF no_request_rate, of p service l now "fmt_g p" cfg Map.empty w] by simp
    show "unanswered (fst (collect p service l now (getQueriesWithDefaults (fmt_g p) cfg) Map.empty w) ''RPSQuery'')"
      by (rule collect_unanswered [OF f]) (simp add: unanswered_def)
  qed
  show ?thesis
  proof (cases mon)
    case None then show ?thesis using none by (simp add: CollectAndCompute_def collected_def)
  next
    case (Some mn)
    define t0 where "t0 = (case since of None \<Rightarrow> (0, w) | Some _ \<Rightarrow> prom_now p w)"
    define c where "c = CollectMetrics p mn (ServiceName (ServiceRef (Target spec))) (lookback_window (fst t0) since) (snd t0)"
    have "(\<exists>f. fst c = Inl f) \<or> (\<exists>service l now w. fst c = Inr (fst (collect p service l now (getQueriesWithDefaults (fmt_g p) cfg) Map.empty w)))"
      unfolding c_def using assms(2) by (auto simp: CollectMetrics_def Some NewMonitor_def split: prod.split) (metis fst_conv)
    then show ?thesis using none some
      by (auto simp: CollectAndCompute_def Some collected_def t0_def [symmetric] c_def [symmetric] split_def split: sum.split)
  qed
qed

text \<open>C23: when Prometheus does not answer, the round that follows the collection takes it for the absence of traffic:
  if it writes at all, it first records the replicas of a decision from the current configuration towards the minimum
  configuration of the specification. Without a single-step limit it wants that minimum, \<open>minReplicas\<close> or one replica;
  with a limit of \<open>L\<close> GPUs it wants the minimum if that is at most \<open>L\<close> GPUs away, else the step of \<open>L\<close> GPUs towards it,
  in whole replicas of the minimum's shape or one smaller replica. The arithmetic of the step is exact for counts of
  GPUs below \<open>2 ^ 31\<close>.\<close>

theorem outage_scales_to_minimum:
  assumes "silent p" "case mon of None \<Rightarrow> True | Some mn \<Rightarrow> mn = NewMonitor p cfg"
    and "run_state (EvaluateAndScale e name ns spec (collected (fst (CollectAndCompute p mon spec since w)))) s = (r, s')"
  shows "calls s' = calls s \<or> (\<exists>a t (d :: scaling_decision) rest a'. fetched e (ns, name) a \<and>
    (\<exists>u v. run_state (getCurrentResourcesFromTemplate e a) u = (t, v)) \<and> calls s' = calls s @ UpdateStatus a' # rest \<and>
    Action d \<noteq> ActionNone \<and> CurrentConfig d = current_configuration a t \<and> wants a (minimum_target spec) d \<and>
    ScalingStatus (Status a') \<bind> DesiredReplicas = Some (wrap32 (Replicas (DesiredConfig d))))"
  by (rule no_rate_round [OF _ assms(3)]) (simp add: silent_metrics [OF assms(1,2)])

definition silent_prom :: "unit prom_env" where
  "silent_prom = \<lparr>client_ok = \<lambda>_. True, prom_query = \<lambda>_ _ w. (Inl ''timeout'', w), prom_range = \<lambda>_ _ _ _ w. (Inl ''timeout'', w),
     prom_now = \<lambda>w. (0, w), fmt_g = \<lambda>_. ''0.95'', fmt_other = \<lambda>t _. t, sample_string = format_f\<rparr>"

text \<open>Eight replicas, and Prometheus down: one replica is wanted.\<close>

lemma outage_scales_to_minimum_witness:
  "\<exists>a' rest. calls (snd (run_state (EvaluateAndScale (answering live_autoscaler) ''rca'' ''default'' (Spec live_autoscaler)
      (collected (fst (CollectAndCompute silent_prom None (Spec live_autoscaler) None ()))))
      \<lparr>world = sample_workload [], calls = []\<rparr>)) = UpdateStatus a' # rest \<and> ScalingStatus (Status a') \<bind> DesiredReplicas = Some 1"
proof -
  let ?e = "answering live_autoscaler"
  let ?s = "\<lparr>world = sample_workload [], calls = []\<rparr>"
  let ?m = "collected (fst (CollectAndCompute silent_prom None (Spec live_autoscaler) None ()))"
  let ?c = "minimum_configuration (Spec live_autoscaler)"
  have a: "get_autoscaler ?e k w = (Inr live_autoscaler, w)" "hex_float ?e = (\<lambda>_. None)" "time_now ?e w = (0, w)"
    "update_status ?e b w = (Inr (), w)" for k w b
    by (simp_all add: answering_def workload_store_def empty_cluster_def)
  have l: "Discovery (Status live_autoscaler) = None" "ScalingResults (Status live_autoscaler) = None"
    "ScalingStatus (Status live_autoscaler) = Some (empty_scaling_status\<lparr>DesiredReplicas := Some 8\<rparr>)"
    "SpecBehavior (Spec live_autoscaler) = None" "SpecConstraints (Spec live_autoscaler) = None"
    by (simp_all add: live_autoscaler_def sample_autoscaler_def)
  have c: "resource_configuration.truncate ?c = conf 1 1 1 8"
    by (simp add: minimum_configuration_def l capacity_of_def Let_def resource_configuration.truncate_def conf_def f64_eval)
  have cur: "current_configuration live_autoscaler (Inr (1, Map.empty)) = conf 8 1 100 80"
    by (simp add: current_configuration_def l Let_def conf_def defaultComputeThreadPercent_def defaultMemoryGB_def f64_eval)
  have "Action (decide (conf 8 1 100 80) (conf 1 1 1 8)) = ActionScaleDown"
    by (simp add: decide_def Let_def conf_def total_compute_def total_memory_def resourceChangeThreshold_def f64_eval)
  then have d: "determineScalingAction live_autoscaler (Inr (1, Map.empty)) (conf 1 1 1 8) (Fin 0) = Ok (decide (conf 8 1 100 80) (conf 1 1 1 8))"
    "Action (decide (conf 8 1 100 80) (conf 1 1 1 8)) \<noteq> ActionNone"
    by (simp_all add: determine_vetoed cur vetoed_def checkMinTargetUtilization_def Let_def applySingleTimeScalingLimit_def l)
  have rate: "getArrivalRate hx ?m = Fin 0" for hx
    by (rule silent_metrics) (simp_all add: silent_def silent_prom_def)
  obtain r s' where run: "run_state (EvaluateAndScale ?e ''rca'' ''default'' (Spec live_autoscaler) ?m) ?s = (r, s')" by fastforce
  have "calls s' \<noteq> calls ?s"
  proof -
    have "run_state (EvaluateAndScale ?e ''rca'' ''default'' (Spec live_autoscaler) ?m) ?s =
        run_state (do { r \<leftarrow> applyScalingAction ?e ''rca'' ''default'' ?c (Fin 0) (Fin 0) (Fin 0);
          State_Monad.return (case r of Inl (Error _) \<Rightarrow> Fail ''failed to apply scaling action'' | _ \<Rightarrow> r) }) ?s"
      by (simp add: EvaluateAndScale_def rate calculateLatencyOffsets_def observe_def a l Let_def)
    moreover obtain q s2 where q: "run_state (applyScalingAction ?e ''rca'' ''default'' ?c (Fin 0) (Fin 0) (Fin 0)) ?s = (q, s2)" by fastforce
    ultimately have s2: "calls s' = calls s2" using run by (auto split: sum.splits fault.splits)
    have g: "checkGracePeriod ?e live_autoscaler d = State_Monad.return False" for d
      by (simp add: checkGracePeriod_def l empty_scaling_status_def)
    have t: "getCurrentResourcesFromTemplate ?e live_autoscaler = State_Monad.return (Ok (1, Map.empty))"
      by (simp add: getCurrentResourcesFromTemplate_def l)
    let ?a = "live_autoscaler\<lparr>Status := scaled_status (set_condition ?e) 0 live_autoscaler (decide (conf 8 1 100 80) (conf 1 1 1 8)) (EstimatedLatency ?c) (Fin 0) (Fin 0)\<rparr>"
    have "run_state (applyScalingAction ?e ''rca'' ''default'' ?c (Fin 0) (Fin 0) (Fin 0)) ?s =
        run_state (executeScalingChanges ?e ?a (decide (conf 8 1 100 80) (conf 1 1 1 8))) (?s\<lparr>calls := [UpdateStatus ?a]\<rparr>)"
      by (simp add: applyScalingAction_def observe_def a t c d g update_scaling_run Let_def)
    moreover obtain rest where "calls (snd (run_state (executeScalingChanges ?e ?a (decide (conf 8 1 100 80) (conf 1 1 1 8))) (?s\<lparr>calls := [UpdateStatus ?a]\<rparr>))) = [UpdateStatus ?a] @ rest"
      using execute_extends [OF writes_any_execute, of ?e ?a "decide (conf 8 1 100 80) (conf 1 1 1 8)" "?s\<lparr>calls := [UpdateStatus ?a]\<rparr>"] by auto
    ultimately have "calls s2 = [UpdateStatus ?a] @ rest" unfolding q by (metis snd_conv)
    then show ?thesis using s2 by simp
  qed
  then obtain b t and d :: scaling_decision and rest a' where o: "fetched ?e (''default'', ''rca'') b" "calls s' = calls ?s @ UpdateStatus a' # rest"
    "ScalingStatus (Status a') \<bind> DesiredReplicas = Some (wrap32 (Replicas (DesiredConfig d)))"
    "wants b (minimum_target (Spec live_autoscaler)) d"
    using outage_scales_to_minimum [where cfg = undefined, OF _ _ run] by (auto simp: silent_def silent_prom_def)
  have "b = live_autoscaler" using o(1) a(1) by (auto simp: fetched_def)
  then have "Replicas (DesiredConfig d) = 1" using o(4) by (simp add: wants_def step_limit_def l minimum_target_def Let_def)
  then have "ScalingStatus (Status a') \<bind> DesiredReplicas = Some 1" using o(3) by simp
  then show ?thesis using o(2) unfolding run by auto
qed

section \<open>Violations\<close>

lemma unit_div:
  assumes "0 \<le> x" "x \<le> of_int n" "1 \<le> n" "n \<le> 2 ^ 53"
  obtains y where "fdiv (Fin x) (i2f n) = Fin y" "0 \<le> y" "y \<le> 1"
proof -
  have "i2f n = Fin (of_int n)" "0 \<le> x / of_int n" "x / of_int n \<le> 1" using assms by (simp_all add: i2f_exact)
  then show thesis using that rnd_unit [of "x / of_int n"] assms(3) by auto
qed

lemma latency_violation_range:
  assumes "wf64 l" "0 \<le> t"
  shows "\<exists>y. latency_violation l (Fin t) = Fin y \<and> 0 \<le> y \<and> y \<le> 1"
proof (cases l)
  case (Fin x)
  show ?thesis
  proof (cases "t < x \<and> t = 0")
    case True
    then have "fsub l (Fin t) = Fin x" using assms(1) Fin by (simp add: fsub_def wf64_def rnd_rep)
    then show ?thesis using True Fin by (simp add: latency_violation_def inf_of_def Let_def)
  next
    case zero: False
    show ?thesis
    proof (cases "t < x")
      case True
      have "fnn (fdiv (fsub l (Fin t)) (Fin t))" using True Fin zero assms(2)
        by (intro fnn_div) (auto simp: fsub_def intro: fnn_rnd)
      then show ?thesis using True Fin by (cases "fdiv (fsub l (Fin t)) (Fin t)") (auto simp: latency_violation_def Let_def)
    next
      case False then show ?thesis using Fin by (simp add: latency_violation_def)
    qed
  qed
qed (use assms(2) in \<open>simp_all add: latency_violation_def fsub_def Let_def\<close>)

text \<open>The running sum of \<open>n\<close> violations, each in the unit interval.\<close>

definition sum_ok :: "f64 \<times> int \<Rightarrow> bool" where
  "sum_ok acc \<longleftrightarrow> 0 \<le> snd acc \<and> (\<exists>x. fst acc = Fin x \<and> 0 \<le> x \<and> x \<le> of_int (snd acc))"

lemma sum_ok_add:
  assumes "sum_ok (a, n)" "0 \<le> y" "y \<le> 1" "n < 2 ^ 53"
  shows "sum_ok (fadd a (Fin y), n + 1)"
proof -
  obtain x where x: "a = Fin x" "0 \<le> x" "x \<le> of_int n" "0 \<le> n" using assms(1) by (auto simp: sum_ok_def)
  have i: "i2f (n + 1) = Fin (of_int (n + 1))" using assms(4) x(4) by (intro i2f_exact) simp
  have "wf64 (Fin (of_int (n + 1)))" using wf64_i2f [of "n + 1"] unfolding i .
  then have "fle (rnd (x + y)) (Fin (of_int (n + 1)))" using x assms(3) by (intro rnd_le_Fin) simp_all
  moreover have "fnn (rnd (x + y))" using x(2) assms(2) by (intro fnn_rnd) simp
  ultimately show ?thesis using x by (cases "rnd (x + y)") (auto simp: sum_ok_def)
qed

lemma single_check_ok:
  assumes "sum_ok acc" "snd acc < 2 ^ 53" "case target of None \<Rightarrow> True | Some t \<Rightarrow> 0 \<le> t \<and> t < 2 ^ 31" "0 \<le> k" "k < 2 ^ 31"
  shows "sum_ok (add_check hx m (i2f k) key target acc)" "snd (add_check hx m (i2f k) key target acc) \<le> snd acc + 1"
proof -
  have v: "\<exists>y. v = Fin y \<and> 0 \<le> y \<and> y \<le> 1"
    if c: "computeSingleLatencyViolation hx key m (i2f t) (i2f k) = (v, True)" and t: "0 \<le> t" "t < 2 ^ 31" for v t
  proof -
    have i: "i2f t = Fin (of_int t)" "i2f k = Fin (of_int k)" "i2f (t + k) = Fin (of_int (t + k))"
      by (rule i2f_exact; use t assms(4,5) in simp)+
    have "fadd (i2f t) (i2f k) = Fin (of_int (t + k))" using i(3) unfolding i(1,2) by (simp add: i2f_def)
    then show ?thesis using c latency_violation_range [OF wf64_mul, of "of_int (t + k)"] t assms(4)
      by (auto simp: computeSingleLatencyViolation_def split: option.splits if_splits)
  qed
  obtain a n where acc: "acc = (a, n)" by fastforce
  show "sum_ok (add_check hx m (i2f k) key target acc)" "snd (add_check hx m (i2f k) key target acc) \<le> snd acc + 1"
    using assms(1-3) v sum_ok_add [of a n] unfolding acc by (auto simp: add_check_def split: option.splits prod.splits)
qed

lemma average_unit: "sum_ok acc \<Longrightarrow> snd acc \<noteq> 0 \<Longrightarrow> snd acc \<le> 2 ^ 53 \<Longrightarrow> \<exists>y. fdiv (fst acc) (i2f (snd acc)) = Fin y \<and> 0 \<le> y \<and> y \<le> 1"
  unfolding sum_ok_def using unit_div by (metis linorder_not_le order_le_less zless_imp_add1_zle zero_less_one_class.zero_le_one add_0)

definition target_ok :: "int option \<Rightarrow> bool" where
  "target_ok t = (case t of None \<Rightarrow> True | Some n \<Rightarrow> 0 \<le> n \<and> n < 2 ^ 31)"

text \<open>With targets and a tolerance that are not negative, the latency violation is a probability, whatever text
  the metrics carry: infinite and NaN latencies and zero targets included.\<close>

lemma latency_violation_unit:
  assumes "TargetLatency spec = Some t" "target_ok (EndToEndLatencyMilliseconds t)" "target_ok (TimeToFirstTokenLatencyMilliseconds t)"
    "target_ok (InterTokenLatencyMilliseconds t)" "target_ok (ToleranceMilliseconds t)"
  shows "\<exists>y. computeLatencyViolations hx spec m = Fin y \<and> 0 \<le> y \<and> y \<le> 1"
proof -
  obtain k where k: "get_or (map_option i2f (ToleranceMilliseconds t)) (Fin 0) = i2f k" "0 \<le> k" "k < 2 ^ 31"
    using assms(5) that [of 0] by (cases "ToleranceMilliseconds t") (auto simp: target_ok_def i2f_def)
  let ?check = "add_check hx m (i2f k)"
  let ?a1 = "?check ''EndToEndLatencyBucketQuery'' (EndToEndLatencyMilliseconds t) (Fin 0, 0)"
  let ?a2 = "?check ''TimeToFirstTokenLatencyQuery'' (TimeToFirstTokenLatencyMilliseconds t) ?a1"
  let ?a3 = "?check ''InterTokenLatencyQuery'' (InterTokenLatencyMilliseconds t) ?a2"
  have s0: "sum_ok (Fin 0, 0)" by (simp add: sum_ok_def)
  note step = single_check_ok [OF _ _ _ k(2,3)]
  have l0: "snd (Fin 0, 0::int) < 2 ^ 53" by simp
  note s1 = step [OF s0 l0 assms(2) [unfolded target_ok_def], of hx m "''EndToEndLatencyBucketQuery''"]
  have l1: "snd ?a1 < 2 ^ 53" using s1(2) by simp
  note s2 = step [OF s1(1) l1 assms(3) [unfolded target_ok_def], of hx m "''TimeToFirstTokenLatencyQuery''"]
  have l2: "snd ?a2 < 2 ^ 53" using s1(2) s2(2) by simp
  note s3 = step [OF s2(1) l2 assms(4) [unfolded target_ok_def], of hx m "''InterTokenLatencyQuery''"]
  have l3: "snd ?a3 \<le> 2 ^ 53" using s1(2) s2(2) s3(2) by simp
  have "\<exists>y. fdiv (fst ?a3) (i2f (snd ?a3)) = Fin y \<and> 0 \<le> y \<and> y \<le> 1" if "snd ?a3 \<noteq> 0"
    by (rule average_unit [OF s3(1) that l3])
  then show ?thesis unfolding computeLatencyViolations_def assms(1) k(1) Let_def option.case by (cases "snd ?a3 = 0") simp_all
qed

lemma latency_violation_unit_witness:
  "\<exists>y. computeLatencyViolations (\<lambda>_. None) ((Spec live_autoscaler)\<lparr>TargetLatency := Some \<lparr>EndToEndLatencyMilliseconds = None,
     TimeToFirstTokenLatencyMilliseconds = Some 0, InterTokenLatencyMilliseconds = Some 50, ToleranceMilliseconds = None\<rparr>\<rparr>)
     [''InterTokenLatencyQuery'' \<mapsto> ''+Inf''] = Fin y \<and> 0 \<le> y \<and> y \<le> 1"
proof -
  have "target_ok None" "target_ok (Some 0)" "target_ok (Some 50)" by (simp_all add: target_ok_def)
  then show ?thesis by (intro latency_violation_unit, simp) simp_all
qed

lemma headroom_range:
  assumes "0 < x" "wf64 (Fin x)" "fnn ratio"
  shows "\<exists>y. headroom_violation (Fin x) ratio = Fin y \<and> 0 \<le> y \<and> y \<le> 1"
proof -
  let ?h = "fsub (Fin x) ratio"
  have le: "fle ?h (Fin x)" using assms by (cases ratio) (auto simp: fsub_def intro: rnd_le_Fin simp del: wf64_simps)
  show ?thesis
  proof (cases "flt ?h (Fin 0)")
    case True then show ?thesis using assms(1) by (simp add: headroom_violation_def Let_def)
  next
    case False
    then obtain z where z: "?h = Fin z" "0 \<le> z" "z \<le> x" using le by (cases ?h) auto
    have "0 \<le> z / x" "z / x \<le> 1" using z assms(1) by simp_all
    then obtain y where "rnd (z / x) = Fin y" "0 \<le> y" "y \<le> 1" by (rule rnd_unit)
    then show ?thesis using False z assms(1) by (auto simp: headroom_violation_def Let_def)
  qed
qed

definition thresholds_ok :: "(string \<times> quantity) list \<Rightarrow> bool" where
  "thresholds_ok ts \<longleftrightarrow> (\<forall>(_, q) \<in> set ts. \<exists>x. AsApproximateFloat64 q = Fin x \<and> 0 < x \<and> wf64 (Fin x))"

lemma sum_violations_ok:
  assumes "thresholds_ok ts" "\<And>r x. u r = Some x \<Longrightarrow> fnn x"
  shows "sum_ok acc \<Longrightarrow> snd acc + int (length ts) \<le> 2 ^ 53 \<Longrightarrow>
    sum_ok (sum_violations u ts acc) \<and> snd (sum_violations u ts acc) \<le> snd acc + int (length ts)"
  using assms(1)
proof (induction ts arbitrary: acc)
  case Nil then show ?case by simp
next
  case (Cons t ts)
  obtain r q where t: "t = (r, q)" by fastforce
  obtain x where x: "AsApproximateFloat64 q = Fin x" "0 < x" "wf64 (Fin x)" using Cons.prems(3) by (auto simp: thresholds_ok_def t)
  have ts: "thresholds_ok ts" using Cons.prems(3) by (simp add: thresholds_ok_def)
  obtain a n where acc: "acc = (a, n)" by fastforce
  show ?case
  proof (cases "u r")
    case None
    have "snd acc + int (length ts) \<le> 2 ^ 53" using Cons.prems(2) by simp
    from Cons.IH [OF Cons.prems(1) this ts] show ?thesis by (simp add: t None)
  next
    case (Some ratio)
    obtain y where y: "headroom_violation (Fin x) ratio = Fin y" "0 \<le> y" "y \<le> 1"
      using headroom_range [OF x(2,3) assms(2) [OF Some]] by blast
    have "sum_ok (fadd a (Fin y), n + 1)"
      by (rule sum_ok_add) (use Cons.prems(1,2) y in \<open>simp_all add: acc\<close>)
    from Cons.IH [OF this _ ts] show ?thesis using Cons.prems(2) by (simp add: t Some x(1) y(1) acc)
  qed
qed

text \<open>With positive thresholds and measured ratios that are not negative, the underutilization violation is zero or
  between one tenth and one; a threshold of zero that is met makes it NaN.\<close>

lemma underutilization_range:
  assumes "thresholds_ok (MinTargetUtilization spec)" "length (MinTargetUtilization spec) \<le> 2 ^ 53"
    and "\<And>r x. computeResourceUtilization hx spec m r = Some x \<Longrightarrow> fnn x"
  shows "computeUnderutilizationViolation hx spec m = Fin 0 \<or>
    fle minViolation (computeUnderutilizationViolation hx spec m) \<and> fle (computeUnderutilizationViolation hx spec m) (Fin 1)"
proof -
  have mv: "minViolation = Fin (3602879701896397 / 36028797018963968)" by (simp add: minViolation_def f64_eval)
  let ?u = "computeResourceUtilization hx spec m"
  obtain tot cnt where s: "sum_violations ?u (MinTargetUtilization spec) (Fin 0, 0) = (tot, cnt)" by fastforce
  have l: "int (length (MinTargetUtilization spec)) \<le> 2 ^ 53" using assms(2) by (metis of_nat_le_iff of_nat_numeral of_nat_power)
  have "sum_ok (sum_violations ?u (MinTargetUtilization spec) (Fin 0, 0)) \<and>
      snd (sum_violations ?u (MinTargetUtilization spec) (Fin 0, 0)) \<le> snd (Fin 0, 0::int) + int (length (MinTargetUtilization spec))"
    by (rule sum_violations_ok [OF assms(1) assms(3)]) (use l in \<open>simp_all add: sum_ok_def\<close>)
  then have "sum_ok (tot, cnt)" "cnt \<le> 2 ^ 53" using l by (simp_all add: s)
  then have "cnt \<noteq> 0 \<Longrightarrow> \<exists>y. fdiv tot (i2f cnt) = Fin y \<and> 0 \<le> y \<and> y \<le> 1" using average_unit [of "(tot, cnt)"] by simp
  then show ?thesis by (auto simp: computeUnderutilizationViolation_def s mv Let_def)
qed

lemma zero_threshold_is_NaN: "0 \<le> x \<Longrightarrow> wf64 (Fin x) \<Longrightarrow> headroom_violation (Fin 0) (Fin x) = NaN"
  by (auto simp: headroom_violation_def fsub_def wf64_def rnd_rep inf_of_def Let_def)

end
