(* ===== verification/Config_Properties.thy ===== *)
theory Config_Properties
  imports Config_Controller Monitor_Properties
begin

text \<open>
  The configuration: what its status reports after validation, which monitor is in force, and a monitor that
  nobody asked for.
\<close>

section \<open>Validation\<close>

lemma validate_names: "map HealthName (fst (validate p qs w)) = map fst qs"
  by (induction qs arbitrary: w) (auto simp: Let_def split_def)

text \<open>The reference: the answers to a list of queries asked one after the other, each at the time of its asking.\<close>

fun answers :: "'w prom_env \<Rightarrow> string list \<Rightarrow> 'w \<Rightarrow> (string + prom_value \<times> string list) list" where
  "answers p [] w = []"
| "answers p (q # qs) w =
     (let now = fst (prom_now p w); asked = prom_query p q now (snd (prom_now p w)) in fst asked # answers p qs (snd asked))"

definition query_of :: "'w prom_env \<Rightarrow> string \<times> string \<Rightarrow> string" where
  "query_of p q = sprintf_s (fmt_other p) (snd q) []"

lemma validate_queries: "map HealthQuery (fst (validate p qs w)) = map (query_of p) qs"
  by (induction qs arbitrary: w) (auto simp: Let_def split_def query_of_def)

lemma validate_healthy: "map Healthy (fst (validate p qs w)) = map (\<lambda>r. \<not> isl r) (answers p (map (query_of p) qs) w)"
  by (induction qs arbitrary: w) (auto simp: Let_def split_def query_of_def split: sum.splits)

lemma validate_length: "length (fst (validate p qs w)) = length qs"
  using arg_cong [OF validate_names [of p qs w], of length] by simp

lemma set_first_lookup: "find (\<lambda>d. CondType d = CondType c) (set_first c ds) = Some c"
  by (induction ds) auto

lemma set_first_others: "filter (\<lambda>d. CondType d \<noteq> CondType c) (set_first c ds) = filter (\<lambda>d. CondType d \<noteq> CondType c) ds"
  by (induction ds) auto

definition available :: string where "available = ''MetricsAvailable''"

lemma update_conditions:
  "find (\<lambda>d. CondType d = available) (CfgConditions (updateConditions now hs cfg)) \<noteq> None"
  "CondStatus (the (find (\<lambda>d. CondType d = available) (CfgConditions (updateConditions now hs cfg)))) = (\<forall>h \<in> set hs. Healthy h)"
  "filter (\<lambda>d. CondType d \<noteq> available) (CfgConditions (updateConditions now hs cfg)) = filter (\<lambda>d. CondType d \<noteq> available) (CfgConditions cfg)"
  "CfgStatus (updateConditions now hs cfg) = CfgStatus cfg"
proof -
  obtain c where c: "CfgConditions (updateConditions now hs cfg) = set_first c (CfgConditions cfg)" "CondType c = available"
    "CondStatus c = (\<forall>h \<in> set hs. Healthy h)"
    by (auto simp: updateConditions_def available_def Let_def filter_empty_conv)
  note c' = set_first_lookup [of c "CfgConditions cfg", unfolded c(2)] set_first_others [of c "CfgConditions cfg", unfolded c(2)]
  show "find (\<lambda>d. CondType d = available) (CfgConditions (updateConditions now hs cfg)) \<noteq> None"
    "CondStatus (the (find (\<lambda>d. CondType d = available) (CfgConditions (updateConditions now hs cfg)))) = (\<forall>h \<in> set hs. Healthy h)"
    "filter (\<lambda>d. CondType d \<noteq> available) (CfgConditions (updateConditions now hs cfg)) = filter (\<lambda>d. CondType d \<noteq> available) (CfgConditions cfg)"
    using c c' by simp_all
  show "CfgStatus (updateConditions now hs cfg) = CfgStatus cfg" by (simp add: updateConditions_def Let_def)
qed

text \<open>C35: the endpoint is reported as connected exactly when a client could be built for it, whether or not any query
  was answered. Then every query is reported under its name with the text that was asked, as healthy exactly when its
  own answer is not an error; the condition \<open>MetricsAvailable\<close> is true exactly when all are healthy, and conditions of
  other types are kept. When no client could be built nothing is reported.\<close>

theorem validation_reports:
  "let mon = NewMonitor p (CfgMonitoring cfg); v = fst (ValidateMetrics p mon w); cfg' = setup_status v now cfg
   in \<exists>st. CfgStatus cfg' = Some st \<and> Connected st = client_ok p (Endpoint (CfgMonitoring cfg)) \<and>
     filter (\<lambda>d. CondType d \<noteq> available) (CfgConditions cfg') = filter (\<lambda>d. CondType d \<noteq> available) (CfgConditions cfg) \<and>
     (if Connected st
      then map HealthName (MetricHealths st) = map fst (MonQueries mon) \<and>
        map HealthQuery (MetricHealths st) = map (query_of p) (MonQueries mon) \<and>
        map Healthy (MetricHealths st) = map (\<lambda>r. \<not> isl r) (answers p (map (query_of p) (MonQueries mon)) w) \<and>
        (\<exists>c. find (\<lambda>d. CondType d = available) (CfgConditions cfg') = Some c \<and> CondStatus c = list_all Healthy (MetricHealths st))
      else MetricHealths st = [] \<and> CfgConditions cfg' = CfgConditions cfg)"
proof -
  let ?mon = "NewMonitor p (CfgMonitoring cfg)"
  have q: "MonQueries ?mon = getQueriesWithDefaults (fmt_g p) (CfgMonitoring cfg)" "MonClient ?mon = client_ok p (Endpoint (CfgMonitoring cfg))"
    by (simp_all add: NewMonitor_def)
  show ?thesis
  proof (cases "client_ok p (Endpoint (CfgMonitoring cfg))")
    case False
    then show ?thesis by (simp add: Let_def ValidateMetrics_def q(2) setup_status_def)
  next
    case True
    obtain hs w' where v: "validate p (MonQueries ?mon) w = (hs, w')" by fastforce
    have n: "map HealthName hs = map fst (MonQueries ?mon)" "map HealthQuery hs = map (query_of p) (MonQueries ?mon)"
      "map Healthy hs = map (\<lambda>r. \<not> isl r) (answers p (map (query_of p) (MonQueries ?mon)) w)"
      using validate_names [of p "MonQueries ?mon" w] validate_queries [of p "MonQueries ?mon" w]
        validate_healthy [of p "MonQueries ?mon" w] v by simp_all
    let ?st = "(get_or (CfgStatus cfg) \<lparr>Connected = False, MetricHealths = [], StatusMessage = []\<rparr>)\<lparr>Connected := True, MetricHealths := hs,
      StatusMessage := ''Connected successfully''\<rparr>"
    have s: "setup_status (fst (ValidateMetrics p ?mon w)) now cfg = updateConditions now hs (cfg\<lparr>CfgStatus := Some ?st\<rparr>)"
      using True v by (simp add: ValidateMetrics_def q(2) setup_status_def)
    note u = update_conditions [of now hs "cfg\<lparr>CfgStatus := Some ?st\<rparr>"]
    obtain c where c: "find (\<lambda>d. CondType d = available) (CfgConditions (updateConditions now hs (cfg\<lparr>CfgStatus := Some ?st\<rparr>))) = Some c"
      using u(1) by blast
    have "CondStatus c = list_all Healthy hs" using u(2) unfolding c option.sel list_all_iff .
    then show ?thesis unfolding Let_def s by (intro exI [of _ ?st]) (use u(3,4) c n True in simp)
  qed
qed

section \<open>The monitor in force\<close>

lemma setup_logging_keeps [simp]:
  "CcMonitor (setupLogging c cfg) = CcMonitor c" "CcEndpoint (setupLogging c cfg) = CcEndpoint c"
  "CcAutoscalers (setupLogging c cfg) = CcAutoscalers c"
  by (simp_all add: setupLogging_def Let_def)

lemma setup_monitoring_shares:
  assumes "setupMonitoring e c cfg w = ((r, c'), w')"
  shows "CcMonitor c' = Some (NewMonitor (prometheus e) (CfgMonitoring cfg))" "CcEndpoint c' = CcEndpoint c"
    "CcAutoscalers c' = map_option (\<lambda>a. SetMonitor a True) (CcAutoscalers c)" "r = Ok () \<or> r = Fail ''failed to update status''"
  using assms by (auto simp: setupMonitoring_def share_monitor_def Let_def split: prod.splits sum.splits)

text \<open>A successful reconciliation of a configuration leaves a monitor in force: a new one, shared with the
  reconciler of autoscalers, when there was none or the endpoint changed; otherwise the old one, whatever
  else of the configuration changed.\<close>

lemma config_monitor:
  assumes "Reconcile_config e name c w = ((r, c'), w')" "is_ok r" "get_config e name w = (Inr cfg, w1)"
  shows "CcEndpoint c' = Endpoint (CfgMonitoring cfg) \<and>
    (if CcMonitor c = None \<or> CcEndpoint c \<noteq> Endpoint (CfgMonitoring cfg)
     then CcMonitor c' = Some (NewMonitor (prometheus e) (CfgMonitoring cfg)) \<and>
       CcAutoscalers c' = map_option (\<lambda>a. SetMonitor a True) (CcAutoscalers c)
     else CcMonitor c' = CcMonitor c \<and> CcAutoscalers c' = CcAutoscalers c)"
  using assms setup_monitoring_shares [of e c cfg w1]
  by (fastforce simp: Reconcile_config_def split: if_splits prod.splits sum.splits)

text \<open>When the status of a new endpoint cannot be stored, the new monitor is in force while the old endpoint is
  remembered: restoring the old endpoint then reconciles successfully and keeps the monitor of the new one.\<close>

lemma reverted_endpoint_keeps_monitor:
  assumes "get_config e1 name w = (Inr new, w1)" "\<And>x u. \<exists>err u'. update_config e1 x u = (Inl err, u')"
    and "Endpoint (CfgMonitoring new) \<noteq> CcEndpoint c" "Reconcile_config e1 name c w = ((r1, c1), w2)"
    and "get_config e2 name w2 = (Inr old, w3)" "Endpoint (CfgMonitoring old) = CcEndpoint c"
    and "Reconcile_config e2 name c1 w2 = ((r2, c2), w4)"
  shows "\<not> is_ok r1 \<and> is_ok r2 \<and> CcEndpoint c2 = Endpoint (CfgMonitoring old) \<and>
    CcMonitor c2 = Some (NewMonitor (prometheus e1) (CfgMonitoring new))"
proof -
  obtain q c' u where q: "setupMonitoring e1 c new w1 = ((q, c'), u)" by (metis prod.collapse)
  have "q \<noteq> Ok ()"
    using q assms(2) by (auto simp: setupMonitoring_def Let_def split: prod.splits sum.splits) (metis Inl_Inr_False fst_conv)+
  then obtain f where "q = Inl f" by (cases q) auto
  then have r1: "r1 = Inl f" "c1 = c'" using assms(1,3,4) q by (simp_all add: Reconcile_config_def)
  have c1: "CcMonitor c1 = Some (NewMonitor (prometheus e1) (CfgMonitoring new))" "CcEndpoint c1 = CcEndpoint c"
    using setup_monitoring_shares [OF q] r1(2) by simp_all
  then have "r2 = Ok (RequeueAfter config_delay)" "c2 = setupLogging c1 old"
    using assms(5-7) by (simp_all add: Reconcile_config_def)
  then show ?thesis using r1 c1 assms(6) by simp
qed

end
