(* ===== verification/Discovery_Properties.thy ===== *)
theory Discovery_Properties
  imports Discovery Sample_Cluster
begin

text \<open>
  Discovery against its specification: the walk to the top-level owner ends on acyclic ownership and only
  there, the pods' owners are reconciled as a list of outcomes would be, and the template found can be
  patched.
\<close>

section \<open>The walk to the owner\<close>

definition pod_ref :: "pod \<Rightarrow> owner_reference" where
  "pod_ref p = \<lparr>OwnerAPIVersion = ''v1'', OwnerKind = kindPod, OwnerName = PodName p, OwnerUID = PodUID p,
     OwnerController = None, OwnerBlockDeletion = None\<rparr>"

lemma discoverOwner_climb: "discoverOwner e p w = climb e (PodNamespace p) (pod_ref p) w"
  by (simp add: discoverOwner_def pod_ref_def)

text \<open>C30: if every step to a supported controller goes down some measure, as with acyclic ownership, the walk
  from a pod ends, and the owner it returns, if any, is one that had no supported controller when it was
  looked at.\<close>

theorem owner_walk_ends_at_top:
  assumes "\<And>cur w c w'. parent e (PodNamespace p) cur w = Some (c, w') \<Longrightarrow> (m c w' :: nat) < m cur w"
  shows "\<exists>own w'. discoverOwner e p w = Some (own, w') \<and>
    (case own of None \<Rightarrow> True | Some x \<Rightarrow> \<exists>w0. parent e (PodNamespace p) x w0 = None)"
proof -
  obtain own w' where r: "climb e (PodNamespace p) (pod_ref p) w = Some (own, w')"
    using climb_returns [of e "PodNamespace p" m, OF assms] by (metis prod.exhaust)
  then show ?thesis using climb_top [of e "PodNamespace p" "pod_ref p" w _ w'] by (auto simp: discoverOwner_climb split: option.split)
qed

text \<open>Where supported controllers form a cycle the walk never returns; nothing in the source bounds it.\<close>

lemma owner_cycle_never_returns:
  assumes "pod_ref p \<in> S" "\<And>cur w. cur \<in> S \<Longrightarrow> \<exists>c w'. parent e (PodNamespace p) cur w = Some (c, w') \<and> c \<in> S"
  shows "discoverOwner e p w = None"
  unfolding discoverOwner_climb using climb_diverges [OF assms(2) assms(1)] .

definition sample_pod :: pod where
  "sample_pod = \<lparr>PodName = ''p1'', PodNamespace = ''default'', PodUID = ''u2'',
     PodOwners = [\<lparr>OwnerAPIVersion = ''apps/v1'', OwnerKind = ''ReplicaSet'', OwnerName = ''rs'', OwnerUID = ''u3'',
       OwnerController = Some True, OwnerBlockDeletion = None\<rparr>], PodClaims = []\<rparr>"

definition chain_cluster :: "owner_reference list \<Rightarrow> unit env" where
  "chain_cluster refs = empty_cluster\<lparr>get_pod := \<lambda>_ w. (Inr sample_pod, w), get_replicaset := \<lambda>_ w. (Inr refs, w)\<rparr>"

lemmas kind_defs = kindPod_def kindReplicaSet_def kindDeployment_def kindStatefulSet_def

lemma kinds_distinct [simp]:
  "kindPod \<noteq> kindReplicaSet" "kindReplicaSet \<noteq> kindPod"
  by (simp_all add: kind_defs)

lemma chain_lookups [simp]:
  "get_pod (chain_cluster refs) k w = (Inr sample_pod, w)" "get_replicaset (chain_cluster refs) k w = (Inr refs, w)"
  "get_workload (chain_cluster refs) d k w = (Inl NotFound, w)"
  by (simp_all add: chain_cluster_def empty_cluster_def)

lemma sample_pod_controller [simp]:
  "controller_ref (PodOwners sample_pod) = Some (hd (PodOwners sample_pod))" "supported_owner (hd (PodOwners sample_pod))"
  "OwnerKind (bare (hd (PodOwners sample_pod))) = kindReplicaSet" "OwnerKind (pod_ref sample_pod) = kindPod"
  "PodNamespace sample_pod = ''default''"
  by (simp_all add: controller_ref_def sample_pod_def supported_owner_def bare_def pod_ref_def kind_defs)

lemma chain_parent:
  "parent (chain_cluster refs) ns cur w =
     (if OwnerKind cur = kindPod then Some (bare (hd (PodOwners sample_pod)), w)
      else if OwnerKind cur = kindReplicaSet
      then (case controller_ref refs of None \<Rightarrow> None | Some c \<Rightarrow> if supported_owner c then Some (bare c, w) else None)
      else None)"
  by (auto simp: parent_def owners_of_def map_api_def Let_def split: option.split)

theorem owner_walk_ends_at_top_witness:
  "\<exists>own w'. discoverOwner (chain_cluster []) sample_pod () = Some (own, w') \<and>
    (case own of None \<Rightarrow> True | Some x \<Rightarrow> \<exists>w0. parent (chain_cluster []) ''default'' x w0 = None)"
proof -
  have "(if OwnerKind c = kindPod then 1 else 0 :: nat) < (if OwnerKind cur = kindPod then 1 else 0)"
    if "parent (chain_cluster []) (PodNamespace sample_pod) cur w = Some (c, w')" for cur w c w'
    using that by (auto simp: chain_parent controller_ref_def split: if_splits)
  from owner_walk_ends_at_top [of "chain_cluster []" sample_pod "\<lambda>c w. if OwnerKind c = kindPod then 1 else 0" "()", OF this]
  show ?thesis unfolding sample_pod_controller(5) .
qed

theorem owner_cycle_never_returns_witness:
  "discoverOwner (chain_cluster (PodOwners sample_pod)) sample_pod () = None"
proof -
  let ?rs = "bare (hd (PodOwners sample_pod))"
  show ?thesis
    by (intro owner_cycle_never_returns [of _ "{pod_ref sample_pod, ?rs}"]) (auto simp: chain_parent)
qed

section \<open>Agreement of the pods\<close>

text \<open>What the walk gives for each pod, in order: an owner, or nothing when the pod is skipped.\<close>

fun pod_outcomes :: "'w env \<Rightarrow> string \<Rightarrow> string list \<Rightarrow> 'w \<Rightarrow> owner_reference option list option" where
  "pod_outcomes e ns [] w = Some []"
| "pod_outcomes e ns (p # ps) w =
     (case get_pod e (ns, p) w of
        (Inl _, w) \<Rightarrow> map_option ((#) None) (pod_outcomes e ns ps w)
      | (Inr pod, w) \<Rightarrow>
          (case discoverOwner e pod w of
             None \<Rightarrow> None
           | Some (own, w) \<Rightarrow> map_option ((#) own) (pod_outcomes e ns ps w)))"

definition same_owner :: "owner_reference \<Rightarrow> owner_reference option \<Rightarrow> bool" where
  "same_owner c x \<longleftrightarrow> (case x of None \<Rightarrow> True | Some y \<Rightarrow> OwnerKind c = OwnerKind y \<and> OwnerName c = OwnerName y)"

definition agreement :: "owner_reference option list \<Rightarrow> owner_reference option res" where
  "agreement xs =
     (case xs of
        [] \<Rightarrow> Ok None
      | None # rest \<Rightarrow> if list_all (\<lambda>x. x = None) rest then Ok None else Crash ''nil pointer dereference''
      | Some c # rest \<Rightarrow> if list_all (same_owner c) rest then Ok (Some c) else Fail ''inconsistent owners detected'')"

lemma check_later_pods:
  "pod_outcomes e ns ps w = Some xs \<Longrightarrow> fst (check_pods e ns False common ps w) = agreement (common # xs)"
proof (induction e ns ps w arbitrary: xs rule: pod_outcomes.induct)
  case (1 e ns w) then show ?case by (auto simp: agreement_def split: option.split)
next
  case (2 e ns p ps w)
  have skip: "agreement (common # None # ys) = agreement (common # ys)" for ys
    by (simp add: agreement_def same_owner_def split: option.split)
  have stop: "fst (case common of None \<Rightarrow> (Crash ''nil pointer dereference'', v)
      | Some c \<Rightarrow> if OwnerKind c \<noteq> OwnerKind own \<or> OwnerName c \<noteq> OwnerName own
          then (Fail ''inconsistent owners detected'', v) else check_pods e ns False common ps v) = agreement (common # Some own # ys)"
    if "fst (check_pods e ns False common ps v) = agreement (common # ys)" for own v ys
    using that by (auto simp: agreement_def same_owner_def split: option.split)
  show ?case
  proof (cases "get_pod e (ns, p) w")
    case (Pair r v)
    show ?thesis
    proof (cases r)
      case (Inl err)
      then obtain ys where "pod_outcomes e ns ps v = Some ys" "xs = None # ys" using "2.prems" Pair by auto
      then show ?thesis using "2.IH"(1) [OF Pair [symmetric] Inl] Pair Inl skip by simp
    next
      case (Inr pod)
      then obtain own u where d: "discoverOwner e pod v = Some (own, u)" using "2.prems" Pair by (auto split: option.splits)
      then obtain ys where ys: "pod_outcomes e ns ps u = Some ys" "xs = own # ys" using "2.prems" Pair Inr by auto
      have IH: "fst (check_pods e ns False common ps u) = agreement (common # ys)"
        using "2.IH"(2) [OF Pair [symmetric] Inr d _ ys(1)] by simp
      then show ?thesis using Pair Inr d ys skip stop [OF IH] by (cases own) auto
    qed
  qed
qed

text \<open>C29: whenever the walks end, comparing the pods one by one gives the agreement of their outcomes: the first
  pod's owner if no later pod has another, an error if one has, nothing if no pod has an owner, and a nil
  dereference if the first pod is skipped and a later one is not.\<close>

theorem pods_checked_as_agreement:
  "case pod_outcomes e ns ps w of None \<Rightarrow> True | Some xs \<Rightarrow> fst (check_pods e ns True None ps w) = agreement xs"
proof (cases ps)
  case Nil then show ?thesis by (simp add: agreement_def)
next
  case (Cons p qs)
  show ?thesis
  proof (cases "get_pod e (ns, p) w")
    case (Pair r v)
    show ?thesis
      using check_later_pods [of e ns qs _ _ None] check_later_pods [of e ns qs] Cons Pair
      by (cases r) (auto split: option.split)
  qed
qed

section \<open>The template\<close>

text \<open>A template that discovery reports for a device class is the first one its workload names, was there
  when it was looked up, and has a request the scaler can patch: the error \<open>failed to find device request\<close>
  cannot arise on it.\<close>

lemma discovered_template_is_patchable:
  assumes "discoverResourceClaimTemplate e (Some own) ns cls w = (Ok name, w')" "cls \<noteq> []"
  shows "\<exists>cs w1 t. pod_claims_of e own ns w = (Ok cs, w1) \<and> name = claimed_template cs \<and> name \<noteq> [] \<and>
     get_template e (ns, name) w1 = (Inr t, w') \<and> patch_requests cls c (CtRequests t) \<noteq> None"
proof -
  have ex: "list_ex (\<lambda>r. (case Exactly r of Some x \<Rightarrow> DsDeviceClass x = cls | None \<Rightarrow> False) \<or>
      list_ex (\<lambda>d. DsDeviceClass d = cls) (FirstAvailable r)) rs \<longleftrightarrow> patch_requests cls c rs \<noteq> None" for rs
    unfolding patch_None_iff mentions_def [abs_def] by simp
  show ?thesis using assms unfolding discoverResourceClaimTemplate_def ex
    by (auto simp: Let_def split: prod.splits sum.splits if_splits)
qed

definition template_cluster :: "unit env" where
  "template_cluster = empty_cluster
     \<lparr>get_workload := \<lambda>_ _ w. (Inr (sample_workload [''base'']), w),
      get_template := \<lambda>_ w. (Inr \<lparr>CtName = ''base'', CtNamespace = ''default'', CtLabels = Map.empty, CtAnnotations = Map.empty,
        CtOwners = [], CtSpecLabels = None, CtRequests = sample_requests\<rparr>, w)\<rparr>"

theorem discovered_template_is_patchable_witness:
  "\<exists>cs w1 t. pod_claims_of template_cluster (bare \<lparr>OwnerAPIVersion = [], OwnerKind = ''Deployment'', OwnerName = ''vllm'', OwnerUID = [],
       OwnerController = None, OwnerBlockDeletion = None\<rparr>) ''default'' () = (Ok cs, w1) \<and>
     ''base'' = claimed_template cs \<and> ''base'' \<noteq> [] \<and> get_template template_cluster (''default'', ''base'') w1 = (Inr t, ()) \<and>
     patch_requests ''gpu'' sample_configuration (CtRequests t) \<noteq> None"
  by (rule discovered_template_is_patchable)
     (simp_all add: discoverResourceClaimTemplate_def pod_claims_of_def template_cluster_def empty_cluster_def map_api_def
       claimed_template_def sample_workload_def sample_requests_def sample_spec_def bare_def kind_defs)

end
