(* ===== verification/Spec2Isabelle.thy ===== *)
theory Spec2Isabelle
  imports System_Liveness Timed_Monitor Benchmark Startup Config_Properties Discovery_Properties
begin

text \<open>
  A verification of the controller that sizes LLM inference services by rewriting the resource claims of their
  workloads. The sources are the Go packages under \<open>src/api/v1alpha1\<close> and \<open>src/internal\<close>, and the two programs under
  \<open>src/cmd\<close>.

  \<^bold>\<open>The program.\<close> A \<open>RCAControllerConfig\<close> names a Prometheus endpoint; its controller builds a monitor of
  that endpoint, validates it and shares it. A \<open>ResourceClaimAutoscaler\<close> names a service; its controller adds a
  finalizer, discovers through the service's pods the workload and the claim template behind it, and registers
  the autoscaler with the service monitor. For every registered autoscaler the service monitor keeps a timer, a
  channel and a loop: when the timer fires, the loop collects the metrics, calls the controller back and re-arms
  the timer. The callback evaluates one round: it reads rate, lengths and latencies from the metrics, tunes the
  estimators of resources and latency by them, searches the smallest configuration (replicas, GPUs per replica,
  share of compute, memory) that meets the latency targets, compares it with the present one, and, when an
  action is due, writes the status, a new claim template and the workload. Events of claims refresh the replica
  status and clean up templates; deletion restores the workload. A second program, the benchmark, runs the search alone
  over a table of workloads.

  \<^bold>\<open>Theories and sources.\<close>
    \<^item> \<open>Prelude\<close>, \<open>Go_Float\<close>: Go's integers (an \<open>int\<close> in range, wrapped by \<open>wrap64\<close> and \<open>wrap32\<close>), the outcome of
      a call (\<open>Ok\<close>, \<open>Fail\<close>, \<open>Crash\<close>, \<open>Hang\<close>), strings, and \<open>float64\<close> as NaN, infinities and rationals, every
      operation rounded once to nearest even.
    \<^item> \<open>Api_Types\<close>: \<open>resourceclaimautoscaler_types.go\<close>, one record per struct, pointers as options.
    \<^item> \<open>Queue_Analyzer\<close>: \<open>optimizer/queue.go\<close> and \<open>latency.go\<close>.
    \<^item> \<open>Resource_Estimator\<close>, \<open>Latency_Estimator\<close>, \<open>Estimator_Properties\<close>: \<open>optimizer/resource_estimator.go\<close> and
      \<open>latency_estimator.go\<close>.
    \<^item> \<open>Resource_Optimizer\<close>, \<open>Optimizer_Properties\<close>: \<open>optimizer/resource_optimizer.go\<close>. The \<open>goto\<close>s of the search are
      the constructors \<open>Next\<close> and \<open>Done\<close>; the shrinking loop is a \<open>partial_function\<close>.
    \<^item> \<open>Decimal_Text\<close>: decimal numbers as text and back, \<open>%f\<close> and \<open>strconv.ParseFloat\<close>. \<open>Reports\<close>: the \<open>String\<close>
      methods of the optimizer's results and the reason of a resource change.
    \<^item> \<open>Scaler_Defaults\<close>, \<open>Metric_Handler\<close>, \<open>Scaling_Action\<close>: \<open>scaler/defaults.go\<close>, \<open>metric_handler.go\<close> and
      \<open>scaling_action.go\<close>.
    \<^item> \<open>Cluster\<close>: the boundary to Kubernetes, see below. \<open>Sample_Cluster\<close>: concrete clusters for the witnesses.
    \<^item> \<open>Claim_Handler\<close>, \<open>Claim_Properties\<close>: \<open>scaler/resourceclaim_handler.go\<close>.
    \<^item> \<open>Resource_Scaler\<close>, \<open>Scaler_Properties\<close>: \<open>scaler/scaler.go\<close>.
    \<^item> \<open>Discovery\<close>, \<open>Discovery_Properties\<close>: \<open>discovery/discovery.go\<close>.
    \<^item> \<open>Registry\<close>: the contract of a registry of named entries, a locale; \<open>Service_Monitor\<close> and
      \<open>Service_Monitor_Properties\<close>: \<open>monitor/service_monitor.go\<close>;
      \<open>Timed_Monitor\<close>: the same with a clock and the durations of the timers.
    \<^item> \<open>Monitor\<close>, \<open>Collector\<close>, \<open>Monitor_Properties\<close>: \<open>monitor/monitor.go\<close> and \<open>collector.go\<close>.
    \<^item> \<open>Autoscaler_Controller\<close>, \<open>Autoscaler_Properties\<close>: \<open>controller/resourceclaimautoscaler_controller.go\<close>.
    \<^item> \<open>Config_Controller\<close>, \<open>Config_Properties\<close>: \<open>controller/rcacontrollerconfig_controller.go\<close> and
      \<open>rcacontrollerconfig_types.go\<close>.
    \<^item> \<open>World_Steps\<close>, \<open>System\<close>: the components together. Every program of the scaler, of discovery and of the claim
      handlers moves the world along any reflexive and transitive relation its single calls stay in, a locale; the
      state machine of controller, service monitor and cluster, and its invariant.
    \<^item> \<open>Admission\<close>: the validation markers of \<open>resourceclaimautoscaler_types.go\<close> as predicates, and how a round on an
      admitted specification can fail to return; \<open>Typed_Writes\<close>: every write of the program is well typed;
      \<open>System_Safety\<close>: the same for the callbacks of a reachable state; \<open>System_Liveness\<close>: a cooperative cluster and what
      two reconciliations reach.
    \<^item> \<open>Benchmark\<close>: \<open>cmd/optimizer-benchmark/main.go\<close>. \<open>Startup\<close>: \<open>cmd/controller/main.go\<close>, whose calls of
      controller-runtime are steps that succeed or fail.

  \<^bold>\<open>State and effects.\<close> The optimizer and its estimators are records that their methods take and return. The
  reconcilers hold the records \<open>controller\<close> and \<open>config_controller\<close>. Code that talks to the cluster is a program of
  the state monad over \<open>sys\<close>: the world, and the list of calls that write, in order. The functions of \<open>env\<close> answer
  the calls and may change the world; nothing is assumed of them, so a theorem about a program holds whatever
  the cluster answers and whoever else writes to it. The service monitor is the record \<open>service_monitor\<close> with its
  events in a heap, as goroutines share them by pointer. Its operations run under its mutex, so each is one step
  (\<open>sm_call\<close>); timers, timer callbacks and loops are the steps of \<open>sm_run\<close>, and a \<open>select\<close> takes any ready case.
\<close>

text \<open>
  \<^bold>\<open>What the lemmas show.\<close>
    \<^item> The search equals a declarative one over a finite search space; what it returns is inside the bounds, feasible
      if marked so, the first such pair and locally minimal; it fails exactly when nothing fits, and it returns for
      every compute step of at least \<open>1/2^k\<close> percent but loops on a step of zero. What it relies on of an evaluation is
      a locale, \<open>config_evaluator\<close>, interpreted on the code's own evaluation.
    \<^item> Estimates and readings stay in range, those of the queue analysis on a single replica among them; a smaller compute
      request is never estimated to be faster, and tuning keeps the estimators within their limits (an invariant by rule
      induction).
    \<^item> A round writes nothing unless an action is due and its grace period has passed; what it then writes, in
      which order, and how its status bears on the next round. The limit of a single step, and the direction of a
      decision.
    \<^item> A template written for a configuration reads back; cleanup deletes exactly the unused templates; a
      workload that was patched is restored.
    \<^item> The walk to the owner ends on acyclic ownership; the check of the pods one by one is agreement of their owners;
      a discovered template can be patched.
    \<^item> In every reachable state of the service monitor a registered autoscaler has its next collection under way and
      can reach it, no earlier than its period after the last. The pacing is that of the event's own timer: the ghost set
      \<open>old\<close> of the timed state collects the events that the loop of an earlier registration of the name has re-armed. The
      two steps that panic are named exactly; as a registry the monitor refines a map.
    \<^item> Once a Prometheus monitor is set, a reconciliation keeps that map in step with the cluster; it writes only its own
      autoscaler and the discovered workload, each pinned field by field, and removes the finalizer last, after the
      workload is restored.
    \<^item> In every reachable state of the whole system a registered autoscaler is in the cluster with the finalizer, whatever
      the order of reconciliations, timers, callbacks, claim events and restarts. What this assumes of Kubernetes is the
      predicate \<open>api_server\<close>: an object with a finalizer stays, a write leaves other objects alone, and an answer is
      the stored object. \<open>store_server\<close> is a concrete one.
    \<^item> Types: every autoscaler and workload the program writes is well typed if what it reads is. Progress: in every
      reachable state a scaling callback works on an admitted specification and ends without an error. It panics only on a
      stored estimation that lacks one of its latencies (\<open>half_estimated\<close>; the schema allows it, the controller never
      writes it), and searches for ever only on a compute step that does not go down (not \<open>steps_down\<close>; the schema allows
      the step zero). \<open>yields\<close> is the logic of these proofs, one rule per construct.
    \<^item> Liveness: in a cluster that cooperates (\<open>cooperative\<close>, \<open>workloads_writable\<close>, \<open>discovery_returns\<close>), two
      reconciliations settle an autoscaler; one that lives is registered once a Prometheus monitor is configured.
    \<^item> The benchmark's lists read back and it completes its table, unless a search does not return for the same reason;
      the controller starts its manager only after both controllers are set up, and both servers speak HTTP/1.1 unless
      asked otherwise.
    \<^item> The text of the queries, the reading back of their results, the range of the violations, what an outage of
      Prometheus leads to (with and without a single-step limit), and what a validation reports of every query.

  \<^bold>\<open>Bounds and fuel.\<close> No fuel is used. Loops over data are structural recursions; the two loops that may not end, the
  shrinking of the compute request and the walk to the owner, are \<open>partial_function (option)\<close>, where not returning
  is \<open>None\<close>, and their termination is stated as a property of its own.

  \<^bold>\<open>Parameters.\<close> Code that is not in the repository is an argument: the Kubernetes client, the clock, \<open>sha256\<close> and
  \<open>meta.SetStatusCondition\<close> (\<open>env\<close>), the Prometheus client and its formats (\<open>prom_env\<close>), the writes of the
  configuration controller (\<open>config_env\<close>), client-go's \<open>RetryOnConflict\<close>, the YAML decoder of the benchmark, and
  what the calls of controller-runtime at the start return. Of the standard library, \<open>math.Pow\<close> with
  a fractional exponent, hexadecimal float literals and the verb \<open>%g\<close> are arguments too, as is the iteration order
  of the registries of GPUs and models.

  \<^bold>\<open>Not modelled.\<close> Log messages, and computations that only feed them; time-outs of
  contexts, and a cancellation of the service monitor's parent context other than by \<open>Stop\<close>; the refresh of an object by
  the answer to its status update; the watches set up in \<open>SetupWithManager\<close>; in \<open>src/cmd\<close> the parsing
  of flags, the registration of schemes and the encoding of CSV records; the deep copies of
  \<open>zz_generated.deepcopy.go\<close>, which are generated; \<open>types/trigger_type.go\<close>, two constants that nothing uses; the helpers
  of the tests. The sign of a floating-point zero is not represented, as no modelled operation observes it.
\<close>

end
